(* ===== verification/Prelude.thy ===== *)
theory Prelude
  imports Complex_Main "HOL-Library.Word" "HOL-Library.Product_Lexorder"
begin

text \<open>
  Shared vocabulary of the development: the type names of the model, the few
  numeric conversions the Rust code uses, the meaning of the SQL statement
  forms that occur in the store (a table is the list of its rows in rowid
  order), and the generic facts about them that every component proof uses.

  \<^item> \<open>duration\<close> is \<open>std::time::Duration\<close> in nanoseconds; timestamps are epoch
    milliseconds as \<open>int\<close> (the \<open>INTEGER\<close> columns of the database).
  \<^item> \<open>sql_update\<close>, \<open>sql_delete\<close>, \<open>sql_select\<close>, \<open>sql_count\<close>, \<open>order_by\<close>,
    \<open>sql_lookup\<close> and \<open>next_rowid\<close> are \<open>UPDATE\<close>, \<open>DELETE\<close>, \<open>SELECT\<close>,
    \<open>COUNT(*)\<close>, \<open>ORDER BY\<close>, a lookup by primary key, and SQLite's choice of a
    rowid for an \<open>INTEGER PRIMARY KEY\<close> column without \<open>AUTOINCREMENT\<close> (one
    more than the largest rowid in the table, 1 for an empty table).
\<close>

section \<open>Types\<close>

type_synonym bytes = "8 word list"
type_synonym duration = nat
type_synonym timestamp = int
type_synonym ('k, 'v) assoc = "('k \<times> 'v) list"

text \<open>A statement inside an open transaction: the connection's state may have changed
  even when the statement fails, so the state is returned beside the result.\<close>

type_synonym ('s, 'e, 'a) stmt = "'s \<Rightarrow> 's \<times> ('e + 'a)"

section \<open>Collections of facts\<close>

named_theorems table_simps
named_theorems frame_simps
named_theorems wf_intros

section \<open>Numbers\<close>

definition as_i64 :: "nat \<Rightarrow> int" where
  "as_i64 n = (let m = int n mod 2 ^ 64 in if m < 2 ^ 63 then m else m - 2 ^ 64)"

definition as_secs :: "duration \<Rightarrow> nat" where
  "as_secs d = d div 1000000000"

definition as_millis :: "duration \<Rightarrow> nat" where
  "as_millis d = d div 1000000"

definition from_secs :: "nat \<Rightarrow> duration" where
  "from_secs s = s * 1000000000"

definition from_millis :: "nat \<Rightarrow> duration" where
  "from_millis s = s * 1000000"

text \<open>Integer division of Rust and of SQL truncates towards zero.\<close>

definition trunc_div :: "int \<Rightarrow> int \<Rightarrow> int" where
  "trunc_div a b = sgn a * sgn b * (\<bar>a\<bar> div \<bar>b\<bar>)"

definition saturating_sub8 :: "8 word \<Rightarrow> 8 word \<Rightarrow> 8 word" where
  "saturating_sub8 a b = (if a < b then 0 else a - b)"

text \<open>\<open>format!("{}", i)\<close> for integers.\<close>

fun nat_digits :: "nat \<Rightarrow> string" where
  "nat_digits n =
     (if n < 10 then [char_of (n + 48)] else nat_digits (n div 10) @ [char_of (n mod 10 + 48)])"

declare nat_digits.simps [simp del]

definition show_int :: "int \<Rightarrow> string" where
  "show_int i = (if i < 0 then ''-'' @ nat_digits (nat (- i)) else nat_digits (nat i))"

lemma as_i64_small [simp]: "n < 2 ^ 63 \<Longrightarrow> as_i64 n = int n"
  by (simp add: as_i64_def Let_def)

lemma as_i64_range: "- (2 ^ 63) \<le> as_i64 n \<and> as_i64 n < 2 ^ 63"
proof -
  have "0 \<le> int n mod 2 ^ 64" and "int n mod 2 ^ 64 < 2 ^ 64"
    by simp_all
  then show ?thesis by (auto simp: as_i64_def Let_def)
qed

lemma trunc_div_nonneg: "0 \<le> a \<Longrightarrow> 0 < b \<Longrightarrow> trunc_div a b = a div b"
  by (cases "a = 0") (auto simp: trunc_div_def sgn_if)

lemma trunc_div_nonpos: "a \<le> 0 \<Longrightarrow> 0 < b \<Longrightarrow> trunc_div a b \<le> 0"
  by (auto simp: trunc_div_def sgn_if pos_imp_zdiv_nonneg_iff)

lemma trunc_div_max: "0 < b \<Longrightarrow> max 0 (trunc_div a b) = max 0 a div b"
  using trunc_div_nonpos [of a b]
  by (cases "0 \<le> a") (auto simp: trunc_div_nonneg pos_imp_zdiv_nonneg_iff max_def)

lemma unat_saturating_sub8: "unat (saturating_sub8 a b) = unat a - unat b"
  by (auto simp: saturating_sub8_def word_less_nat_alt unat_sub word_le_nat_alt)

section \<open>SQL statement forms\<close>

definition sql_update :: "('r \<Rightarrow> bool) \<Rightarrow> ('r \<Rightarrow> 'r) \<Rightarrow> 'r list \<Rightarrow> 'r list" where
  "sql_update p f xs = map (\<lambda>r. if p r then f r else r) xs"

definition sql_select :: "('r \<Rightarrow> bool) \<Rightarrow> 'r list \<Rightarrow> 'r list" where
  "sql_select p xs = filter p xs"

definition sql_delete :: "('r \<Rightarrow> bool) \<Rightarrow> 'r list \<Rightarrow> 'r list" where
  "sql_delete p xs = filter (\<lambda>r. \<not> p r) xs"

definition sql_count :: "('r \<Rightarrow> bool) \<Rightarrow> 'r list \<Rightarrow> nat" where
  "sql_count p xs = length (filter p xs)"

definition sql_exists :: "('r \<Rightarrow> bool) \<Rightarrow> 'r list \<Rightarrow> bool" where
  "sql_exists p xs = list_ex p xs"

definition order_by :: "('r \<Rightarrow> 'k::linorder) \<Rightarrow> 'r list \<Rightarrow> 'r list" where
  "order_by k xs = sort_key k xs"

fun first_row :: "'r list \<Rightarrow> 'r option" where
  "first_row [] = None"
| "first_row (r # rs) = Some r"

definition sql_lookup :: "('r \<Rightarrow> 'k) \<Rightarrow> 'k \<Rightarrow> 'r list \<Rightarrow> 'r option" where
  "sql_lookup k i xs = find (\<lambda>r. k r = i) xs"

definition next_rowid :: "('r \<Rightarrow> int) \<Rightarrow> 'r list \<Rightarrow> int" where
  "next_rowid rid xs = (case xs of [] \<Rightarrow> 1 | r # rs \<Rightarrow> fold (max \<circ> rid) rs (rid r) + 1)"

lemma sql_update_Nil [simp]: "sql_update p f [] = []"
  by (simp add: sql_update_def)

lemma sql_update_Cons [simp]:
  "sql_update p f (r # rs) = (if p r then f r else r) # sql_update p f rs"
  by (simp add: sql_update_def)

lemma sql_delete_Nil [simp]: "sql_delete p [] = []"
  by (simp add: sql_delete_def)

lemma sql_delete_Cons [simp]:
  "sql_delete p (r # rs) = (if p r then sql_delete p rs else r # sql_delete p rs)"
  by (simp add: sql_delete_def)

lemma set_sql_update [table_simps]:
  "set (sql_update p f xs) = (\<lambda>r. if p r then f r else r) ` set xs"
  by (simp add: sql_update_def)

lemma set_sql_delete [table_simps]: "set (sql_delete p xs) = {r \<in> set xs. \<not> p r}"
  by (auto simp: sql_delete_def)

lemma set_sql_select [table_simps]: "set (sql_select p xs) = {r \<in> set xs. p r}"
  by (auto simp: sql_select_def)

lemma set_order_by [table_simps]: "set (order_by k xs) = set xs"
  by (simp add: order_by_def)

lemma sql_exists_iff [table_simps]: "sql_exists p xs \<longleftrightarrow> (\<exists>r \<in> set xs. p r)"
  by (simp add: sql_exists_def list_ex_iff)

lemma length_sql_update [simp]: "length (sql_update p f xs) = length xs"
  by (simp add: sql_update_def)

lemma length_sql_delete_le: "length (sql_delete p xs) \<le> length xs"
  by (simp add: sql_delete_def)

lemma sql_update_append: "sql_update p f (xs @ ys) = sql_update p f xs @ sql_update p f ys"
  by (simp add: sql_update_def)

lemma sql_delete_append: "sql_delete p (xs @ ys) = sql_delete p xs @ sql_delete p ys"
  by (simp add: sql_delete_def)

lemma sql_update_id: "(\<And>r. r \<in> set xs \<Longrightarrow> p r \<Longrightarrow> f r = r) \<Longrightarrow> sql_update p f xs = xs"
  by (induction xs) auto

lemma sql_update_comp:
  assumes "\<And>r. r \<in> set xs \<Longrightarrow> (if q (if p r then f r else r) then g (if p r then f r else r)
             else if p r then f r else r) = (if p' r then h r else r)"
  shows "sql_update q g (sql_update p f xs) = sql_update p' h xs"
  using assms by (induction xs) auto

lemma sql_update_cong:
  "(\<And>r. r \<in> set xs \<Longrightarrow> (if p r then f r else r) = (if q r then g r else r))
   \<Longrightarrow> sql_update p f xs = sql_update q g xs"
  by (simp add: sql_update_def)

lemma sql_delete_id: "(\<And>r. r \<in> set xs \<Longrightarrow> \<not> p r) \<Longrightarrow> sql_delete p xs = xs"
  by (induction xs) auto

lemma sql_delete_none: "sql_count p xs = 0 \<Longrightarrow> sql_delete p xs = xs"
  by (induction xs) (auto simp: sql_count_def split: if_splits)

lemma sql_delete_delete: "sql_delete p (sql_delete q xs) = sql_delete (\<lambda>r. p r \<or> q r) xs"
  by (induction xs) auto

lemma sql_delete_commute: "sql_delete p (sql_delete q xs) = sql_delete q (sql_delete p xs)"
  by (simp add: sql_delete_delete disj_commute)

text \<open>An update that leaves a column alone leaves the column's list alone.\<close>

lemma map_sql_update [table_simps]:
  "(\<And>r. p r \<Longrightarrow> g (f r) = g r) \<Longrightarrow> map g (sql_update p f xs) = map g xs"
  by (induction xs) auto

lemma distinct_map_sql_delete: "distinct (map g xs) \<Longrightarrow> distinct (map g (sql_delete p xs))"
  by (simp add: sql_delete_def distinct_map_filter)

lemma sorted_map_sql_delete:
  "sorted_wrt P (map g xs) \<Longrightarrow> sorted_wrt P (map g (sql_delete p xs))"
  by (simp add: sql_delete_def sorted_wrt_map sorted_wrt_filter)

text \<open>The first row of an \<open>ORDER BY ... LIMIT 1\<close> query is a least row.\<close>

lemma first_row_None [simp]: "first_row xs = None \<longleftrightarrow> xs = []"
  by (cases xs) auto

lemma first_row_in: "first_row xs = Some r \<Longrightarrow> r \<in> set xs"
  by (cases xs) auto

lemma first_row_order_by_None [simp]: "first_row (order_by k xs) = None \<longleftrightarrow> xs = []"
  by (metis first_row_None order_by_def set_empty set_sort)

lemma first_row_order_by:
  assumes "first_row (order_by k xs) = Some r"
  shows "r \<in> set xs" and "\<forall>s \<in> set xs. k r \<le> k s"
proof -
  from assms obtain rs where rs: "order_by k xs = r # rs"
    by (cases "order_by k xs") auto
  then have set: "set xs = insert r (set rs)"
    by (metis list.simps(15) set_order_by)
  then show "r \<in> set xs" by simp
  have "sorted (map k (r # rs))"
    using rs by (metis order_by_def sorted_sort_key)
  with set show "\<forall>s \<in> set xs. k r \<le> k s" by auto
qed

section \<open>Rowid tables\<close>

text \<open>
  A rowid table is a list whose rowids are strictly increasing: SQLite keeps
  the rows in a B-tree ordered by rowid, and every new rowid is larger than all
  the present ones. The lemmas are proved once for any row type; the two rowid
  tables of the store (active tasks, history) are instances.
\<close>

definition rowids_ok :: "('r \<Rightarrow> int) \<Rightarrow> 'r list \<Rightarrow> bool" where
  "rowids_ok rid xs \<longleftrightarrow> sorted_wrt (<) (map rid xs) \<and> (\<forall>r \<in> set xs. 0 < rid r)"

lemma fold_max_ge: "(m::int) \<le> fold (max \<circ> g) xs m \<and> (\<forall>x \<in> set xs. g x \<le> fold (max \<circ> g) xs m)"
proof (induction xs arbitrary: m)
  case Nil
  then show ?case by simp
next
  case (Cons x xs)
  have "max (g x) m \<le> fold (max \<circ> g) xs (max (g x) m)"
    using Cons.IH by blast
  with Cons.IH [of "max (g x) m"] show ?case by auto
qed

lemma next_rowid_greater: "r \<in> set xs \<Longrightarrow> rid r < next_rowid rid xs"
  by (cases xs)
     (auto simp: next_rowid_def less_add_one zle_add1_eq_le fold_max_ge [of _ rid])

lemma next_rowid_pos: "\<forall>r \<in> set xs. 0 < rid r \<Longrightarrow> 0 < next_rowid rid xs"
  using next_rowid_greater [of "hd xs" xs rid]
  by (cases xs) (auto simp: next_rowid_def)

lemma find_app_None: "find P xs = None \<Longrightarrow> find P (xs @ ys) = find P ys"
  by (induction xs) (auto split: if_splits)

locale rowid_table =
  fixes rid :: "'r \<Rightarrow> int"
    and with_rid :: "int \<Rightarrow> 'r \<Rightarrow> 'r"
  assumes rid_with_rid: "rid (with_rid i r) = i"
begin

lemma rowids_distinct: "rowids_ok rid xs \<Longrightarrow> distinct (map rid xs)"
  by (simp add: rowids_ok_def strict_sorted_iff)

lemma rowids_insert:
  assumes "rowids_ok rid xs"
  shows "rowids_ok rid (xs @ [with_rid (next_rowid rid xs) r])"
  using assms next_rowid_greater [of _ xs rid] next_rowid_pos [of xs rid]
  by (auto simp: rowids_ok_def sorted_wrt_append rid_with_rid)

lemma rowids_delete: "rowids_ok rid xs \<Longrightarrow> rowids_ok rid (sql_delete p xs)"
  by (auto simp: rowids_ok_def sorted_map_sql_delete set_sql_delete)

lemma rowids_update:
  assumes "rowids_ok rid xs" and "\<And>r. p r \<Longrightarrow> rid (f r) = rid r"
  shows "rowids_ok rid (sql_update p f xs)"
proof -
  have ids: "map rid (sql_update p f xs) = map rid xs"
    using assms(2) by (simp add: map_sql_update)
  moreover have "\<forall>r \<in> set (sql_update p f xs). 0 < rid r"
    using assms by (auto simp: rowids_ok_def set_sql_update)
  ultimately show ?thesis using assms(1) by (simp add: rowids_ok_def)
qed

lemma fresh_rowid: "next_rowid rid xs \<notin> rid ` set xs"
  using next_rowid_greater [of _ xs rid] by force

lemma lookup_Some:
  assumes "rowids_ok rid xs"
  shows "sql_lookup rid i xs = Some r \<longleftrightarrow> r \<in> set xs \<and> rid r = i"
proof
  assume "sql_lookup rid i xs = Some r"
  then show "r \<in> set xs \<and> rid r = i"
    by (auto simp: sql_lookup_def find_Some_iff)
next
  assume r: "r \<in> set xs \<and> rid r = i"
  then obtain s where s: "sql_lookup rid i xs = Some s"
    by (cases "sql_lookup rid i xs") (auto simp: sql_lookup_def find_None_iff)
  then have "s \<in> set xs \<and> rid s = i"
    by (auto simp: sql_lookup_def find_Some_iff)
  with r rowids_distinct [OF assms] have "s = r"
    by (metis distinct_map inj_onD)
  with s show "sql_lookup rid i xs = Some r" by simp
qed

lemma lookup_None: "sql_lookup rid i xs = None \<longleftrightarrow> i \<notin> rid ` set xs"
  by (auto simp: sql_lookup_def find_None_iff)

lemma lookup_insert_new:
  "sql_lookup rid (next_rowid rid xs) (xs @ [with_rid (next_rowid rid xs) r])
     = Some (with_rid (next_rowid rid xs) r)"
proof -
  have "find (\<lambda>s. rid s = next_rowid rid xs) xs = None"
    by (metis (mono_tags, lifting) find_None_iff fresh_rowid imageI)
  then show ?thesis
    by (simp add: sql_lookup_def find_app_None rid_with_rid)
qed

lemma lookup_delete_other:
  assumes "rowids_ok rid xs" and "sql_lookup rid i xs = Some r" and "\<not> p r"
  shows "sql_lookup rid i (sql_delete p xs) = Some r"
  using assms by (simp add: lookup_Some rowids_delete set_sql_delete)

lemma lookup_update:
  assumes "rowids_ok rid xs" and "\<And>r. p r \<Longrightarrow> rid (f r) = rid r"
  shows "sql_lookup rid i (sql_update p f xs)
     = map_option (\<lambda>r. if p r then f r else r) (sql_lookup rid i xs)"
  using assms(2) by (induction xs) (auto simp: sql_lookup_def)

end

section \<open>Statements of a transaction\<close>

definition ok :: "'a \<Rightarrow> ('s, 'e, 'a) stmt" where
  "ok x s = (s, Inr x)"

definition err :: "'e \<Rightarrow> ('s, 'e, 'a) stmt" where
  "err e s = (s, Inl e)"

definition exec :: "('s \<Rightarrow> 's) \<Rightarrow> ('s, 'e, unit) stmt" where
  "exec f s = (f s, Inr ())"

definition fetch :: "('s \<Rightarrow> 'a) \<Rightarrow> ('s, 'e, 'a) stmt" where
  "fetch f s = (s, Inr (f s))"

definition andThen :: "('s, 'e, 'a) stmt \<Rightarrow> ('a \<Rightarrow> ('s, 'e, 'b) stmt) \<Rightarrow> ('s, 'e, 'b) stmt" where
  "andThen m f s = (case m s of (s', Inl e) \<Rightarrow> (s', Inl e) | (s', Inr x) \<Rightarrow> f x s')"

fun for_each :: "('x \<Rightarrow> ('s, 'e, unit) stmt) \<Rightarrow> 'x list \<Rightarrow> ('s, 'e, unit) stmt" where
  "for_each f [] = ok ()"
| "for_each f (x # xs) = andThen (f x) (\<lambda>_. for_each f xs)"

fun collect_each :: "('x \<Rightarrow> ('s, 'e, 'a) stmt) \<Rightarrow> 'x list \<Rightarrow> ('s, 'e, 'a list) stmt" where
  "collect_each f [] = ok []"
| "collect_each f (x # xs) =
     andThen (f x) (\<lambda>a. andThen (collect_each f xs) (\<lambda>as. ok (a # as)))"

lemma stmt_simps [simp]:
  "ok x s = (s, Inr x)"
  "err e s = (s, Inl e)"
  "exec f s = (f s, Inr ())"
  "fetch g s = (s, Inr (g s))"
  by (simp_all add: ok_def err_def exec_def fetch_def)

lemma andThen_simps [simp]:
  "andThen (ok x) f = f x"
  "andThen (err e) h = err e"
  "andThen (exec u) k s = k () (u s)"
  "andThen (fetch g) l s = l (g s) s"
  by (simp_all add: andThen_def fun_eq_iff)

lemma andThen_eq_Inr:
  "andThen m f s = (t, Inr y) \<longleftrightarrow> (\<exists>s' x. m s = (s', Inr x) \<and> f x s' = (t, Inr y))"
  by (auto simp: andThen_def split: prod.splits sum.splits)

text \<open>\<open>keeps P m\<close>: the statement keeps \<open>P\<close>, also when it fails half-way.\<close>

definition keeps :: "('s \<Rightarrow> bool) \<Rightarrow> ('s, 'e, 'a) stmt \<Rightarrow> bool" where
  "keeps P m \<longleftrightarrow> (\<forall>s. P s \<longrightarrow> P (fst (m s)))"

lemma keepsI: "(\<And>s. P s \<Longrightarrow> P (fst (m s))) \<Longrightarrow> keeps P m"
  by (simp add: keeps_def)

lemma keepsD: "keeps P m \<Longrightarrow> P s \<Longrightarrow> P (fst (m s))"
  by (simp add: keeps_def)

lemma keeps_eq: "keeps P m \<Longrightarrow> P s \<Longrightarrow> m s = (t, r) \<Longrightarrow> P t"
  by (metis fst_conv keepsD)

lemma keeps_ok [wf_intros]: "keeps P (ok x)"
  by (simp add: keeps_def)

lemma keeps_err [wf_intros]: "keeps P (err e)"
  by (simp add: keeps_def)

lemma keeps_exec [wf_intros]: "(\<And>s. P s \<Longrightarrow> P (f s)) \<Longrightarrow> keeps P (exec f)"
  by (simp add: keeps_def)

lemma keeps_fetch [wf_intros]: "keeps P (fetch f)"
  by (simp add: keeps_def)

lemma keeps_andThen [wf_intros]:
  assumes "keeps P m" and "\<And>x. keeps P (f x)"
  shows "keeps P (andThen m f)"
proof (rule keepsI)
  fix s assume "P s"
  then have "P (fst (m s))" using assms(1) by (rule keepsD [rotated])
  then show "P (fst (andThen m f s))"
    using assms(2) by (auto simp: andThen_def keeps_def split: prod.splits sum.splits)
qed

lemma keeps_for_each [wf_intros]: "(\<And>x. keeps P (f x)) \<Longrightarrow> keeps P (for_each f xs)"
  by (induction xs) (auto intro: keeps_ok keeps_andThen)

lemma keeps_collect_each [wf_intros]: "(\<And>x. keeps P (f x)) \<Longrightarrow> keeps P (collect_each f xs)"
  by (induction xs) (auto intro!: keeps_ok keeps_andThen)

text \<open>\<open>keeps_success P m\<close>: the statement keeps \<open>P\<close> when it succeeds.\<close>

definition keeps_success :: "('s \<Rightarrow> bool) \<Rightarrow> ('s, 'e, 'a) stmt \<Rightarrow> bool" where
  "keeps_success P m \<longleftrightarrow> (\<forall>s t x. P s \<longrightarrow> m s = (t, Inr x) \<longrightarrow> P t)"

lemma keeps_successI: "(\<And>s t x. P s \<Longrightarrow> m s = (t, Inr x) \<Longrightarrow> P t) \<Longrightarrow> keeps_success P m"
  by (auto simp: keeps_success_def)

lemma keeps_successD: "keeps_success P m \<Longrightarrow> P s \<Longrightarrow> m s = (t, Inr x) \<Longrightarrow> P t"
  by (auto simp: keeps_success_def)

lemma keeps_imp_success: "keeps P m \<Longrightarrow> keeps_success P m"
  by (auto simp: keeps_success_def dest: keeps_eq)

lemma keeps_success_andThen:
  "keeps_success P m \<Longrightarrow> (\<And>x. keeps_success P (f x)) \<Longrightarrow> keeps_success P (andThen m f)"
  unfolding keeps_success_def andThen_eq_Inr by blast

lemma keeps_success_collect:
  "(\<And>x. keeps_success P (f x)) \<Longrightarrow> keeps_success P (collect_each f xs)"
  by (induction xs) (auto intro!: keeps_success_andThen intro: keeps_imp_success [OF keeps_ok])

section \<open>Invariants of transition systems\<close>

text \<open>
  Every stateful component is a transition system with an initial state. A
  predicate that the initial states satisfy and every step keeps holds in every
  reachable state.
\<close>

inductive reachable :: "('s \<Rightarrow> bool) \<Rightarrow> ('s \<Rightarrow> 's \<Rightarrow> bool) \<Rightarrow> 's \<Rightarrow> bool"
  for init step where
  reachable_init: "init s \<Longrightarrow> reachable init step s"
| reachable_step: "reachable init step s \<Longrightarrow> step s t \<Longrightarrow> reachable init step t"

locale invariant_system =
  fixes init :: "'s \<Rightarrow> bool"
    and step :: "'s \<Rightarrow> 's \<Rightarrow> bool"
    and inv :: "'s \<Rightarrow> bool"
  assumes inv_init: "init s \<Longrightarrow> inv s"
    and inv_step: "inv s \<Longrightarrow> step s t \<Longrightarrow> inv t"
begin

lemma inv_reachable: "reachable init step s \<Longrightarrow> inv s"
  by (induction rule: reachable.induct) (auto intro: inv_init inv_step)

end

text \<open>A concrete system simulates an abstract one when each of its steps is a sequence of
  abstract steps, seen through \<open>view\<close>.\<close>

locale simulation =
  fixes cinit :: "'c \<Rightarrow> bool"
    and cstep :: "'c \<Rightarrow> 'c \<Rightarrow> bool"
    and view :: "'c \<Rightarrow> 'a"
    and ainit :: "'a \<Rightarrow> bool"
    and astep :: "'a \<Rightarrow> 'a \<Rightarrow> bool"
  assumes sim_init: "cinit s \<Longrightarrow> ainit (view s)"
    and sim_step: "cstep s t \<Longrightarrow> astep\<^sup>*\<^sup>* (view s) (view t)"
begin

lemma reachable_many: "astep\<^sup>*\<^sup>* a b \<Longrightarrow> reachable ainit astep a \<Longrightarrow> reachable ainit astep b"
  by (induction rule: rtranclp_induct) (auto intro: reachable_step)

lemma reachable_view: "reachable cinit cstep s \<Longrightarrow> reachable ainit astep (view s)"
  by (induction rule: reachable.induct) (auto intro: reachable_init sim_init reachable_many sim_step)

end

end
