(* ===== verification/Task_Types.thy ===== *)
theory Task_Types
  imports Prelude
begin

unbundle bit_operations_syntax

text \<open>
  The data that flows through the scheduler: \<open>src/src/priority.rs\<close> and
  \<open>src/src/task/mod.rs\<close>, with the error type of \<open>src/src/store/mod.rs\<close> and the
  dedup key of \<open>src/src/task/dedup.rs\<close>.

  Struct fields keep their names behind a prefix (\<open>t_\<close> for \<open>TaskRecord\<close>, \<open>h_\<close> for
  \<open>TaskHistoryRecord\<close>); \<open>i64\<close> and \<open>i32\<close> columns are \<open>int\<close>, the pause bitmask is a
  \<open>64 word\<close>, a priority is an \<open>8 word\<close>, \<open>DateTime<Utc>\<close> is epoch milliseconds (its
  precision in the database), and a \<open>HashMap\<close> of tags is an association list.
  Rust strings are byte strings, and so is the HOL type \<open>string\<close>.
\<close>

section \<open>Priority\<close>

datatype priority = Priority (pvalue: "8 word")

definition REALTIME :: priority where "REALTIME = Priority 0"
definition HIGH :: priority where "HIGH = Priority 64"
definition NORMAL :: priority where "NORMAL = Priority 128"
definition BACKGROUND :: priority where "BACKGROUND = Priority 192"
definition IDLE :: priority where "IDLE = Priority 255"

text \<open>The \<open>Ord\<close> instance is reversed: a numerically smaller priority is the greater one.\<close>

definition priority_le :: "priority \<Rightarrow> priority \<Rightarrow> bool" where
  "priority_le p q \<longleftrightarrow> pvalue q \<le> pvalue p"

definition priority_lt :: "priority \<Rightarrow> priority \<Rightarrow> bool" where
  "priority_lt p q \<longleftrightarrow> pvalue q < pvalue p"

instantiation priority :: linorder
begin

definition less_eq_priority :: "priority \<Rightarrow> priority \<Rightarrow> bool" where
  "less_eq_priority = priority_le"

definition less_priority :: "priority \<Rightarrow> priority \<Rightarrow> bool" where
  "less_priority = priority_lt"

instance
  by standard (auto simp: less_eq_priority_def less_priority_def priority_le_def priority_lt_def priority.expand)

end

lemma priority_le_iff: "(p :: priority) \<le> q \<longleftrightarrow> pvalue q \<le> pvalue p"
  by (simp add: less_eq_priority_def priority_le_def)

lemma priority_lt_iff: "(p :: priority) < q \<longleftrightarrow> pvalue q < pvalue p"
  by (simp add: less_priority_def priority_lt_def)

text \<open>The \<open>priority\<close> column of the database.\<close>

definition priority_col :: "priority \<Rightarrow> int" where
  "priority_col p = uint (pvalue p)"

lemma priority_col_range: "0 \<le> priority_col p \<and> priority_col p \<le> 255"
  using uint_lt2p [of "pvalue p"] by (simp add: priority_col_def)

lemma priority_col_le [simp]: "priority_col p \<le> priority_col q \<longleftrightarrow> q \<le> p"
  by (simp add: priority_col_def priority_le_iff word_le_def)

lemma priority_col_less [simp]: "priority_col p < priority_col q \<longleftrightarrow> q < p"
  by (simp add: priority_col_def priority_lt_iff word_less_def)

lemma priority_col_eq [simp]: "priority_col p = priority_col q \<longleftrightarrow> p = q"
  by (cases p; cases q) (simp add: priority_col_def word_uint_eq_iff)

section \<open>Enumerations and their column text\<close>

datatype ttl_from = Submission | FirstAttempt

fun ttl_from_as_str :: "ttl_from \<Rightarrow> string" where
  "ttl_from_as_str Submission = ''submission''"
| "ttl_from_as_str FirstAttempt = ''first_attempt''"

definition ttl_from_from_str :: "string \<Rightarrow> string + ttl_from" where
  "ttl_from_from_str s =
     (if s = ''submission'' then Inr Submission
      else if s = ''first_attempt'' then Inr FirstAttempt
      else Inl (''unknown TtlFrom: '' @ s))"

datatype task_status = Pending | Running | Paused | Waiting | Blocked

fun task_status_as_str :: "task_status \<Rightarrow> string" where
  "task_status_as_str Pending = ''pending''"
| "task_status_as_str Running = ''running''"
| "task_status_as_str Paused = ''paused''"
| "task_status_as_str Waiting = ''waiting''"
| "task_status_as_str Blocked = ''blocked''"

definition task_status_from_str :: "string \<Rightarrow> string + task_status" where
  "task_status_from_str s =
     (if s = ''pending'' then Inr Pending
      else if s = ''running'' then Inr Running
      else if s = ''paused'' then Inr Paused
      else if s = ''waiting'' then Inr Waiting
      else if s = ''blocked'' then Inr Blocked
      else Inl (''unknown TaskStatus: '' @ s))"

datatype history_status =
  HCompleted | HFailed | HCancelled | HSuperseded | HExpired | HDependencyFailed | HDeadLetter

fun history_status_as_str :: "history_status \<Rightarrow> string" where
  "history_status_as_str HCompleted = ''completed''"
| "history_status_as_str HFailed = ''failed''"
| "history_status_as_str HCancelled = ''cancelled''"
| "history_status_as_str HSuperseded = ''superseded''"
| "history_status_as_str HExpired = ''expired''"
| "history_status_as_str HDependencyFailed = ''dependency_failed''"
| "history_status_as_str HDeadLetter = ''dead_letter''"

definition history_status_from_str :: "string \<Rightarrow> string + history_status" where
  "history_status_from_str s =
     (if s = ''completed'' then Inr HCompleted
      else if s = ''failed'' then Inr HFailed
      else if s = ''cancelled'' then Inr HCancelled
      else if s = ''superseded'' then Inr HSuperseded
      else if s = ''expired'' then Inr HExpired
      else if s = ''dependency_failed'' then Inr HDependencyFailed
      else if s = ''dead_letter'' then Inr HDeadLetter
      else Inl (''unknown HistoryStatus: '' @ s))"

datatype dependency_failure_policy = Cancel | Fail | Ignore

fun policy_as_str :: "dependency_failure_policy \<Rightarrow> string" where
  "policy_as_str Cancel = ''cancel''"
| "policy_as_str Fail = ''fail''"
| "policy_as_str Ignore = ''ignore''"

definition policy_from_str :: "string \<Rightarrow> string + dependency_failure_policy" where
  "policy_from_str s =
     (if s = ''cancel'' then Inr Cancel
      else if s = ''fail'' then Inr Fail
      else if s = ''ignore'' then Inr Ignore
      else Inl (''unknown DependencyFailurePolicy: '' @ s))"

text \<open>
  The four text encodings share one contract: a string parses to a value exactly
  when it is that value's text. Each encoding is an interpretation below.
\<close>

locale text_enum =
  fixes as_str :: "'a \<Rightarrow> string"
    and from_str :: "string \<Rightarrow> string + 'a"
  assumes from_as: "from_str (as_str x) = Inr x"
    and as_from: "from_str s = Inr x \<Longrightarrow> s = as_str x"
begin

lemma from_str_iff: "from_str s = Inr x \<longleftrightarrow> s = as_str x"
  using from_as as_from by blast

lemma as_str_inj: "as_str x = as_str y \<longleftrightarrow> x = y"
  by (metis from_as sum.inject(2))

lemma unknown_text: "(\<And>x. s \<noteq> as_str x) \<Longrightarrow> \<exists>e. from_str s = Inl e"
  by (metis as_from obj_sumE)

end

interpretation ttl_from_text: text_enum ttl_from_as_str ttl_from_from_str
proof
  show "ttl_from_from_str (ttl_from_as_str x) = Inr x" for x
    by (cases x) (simp_all add: ttl_from_from_str_def)
  show "s = ttl_from_as_str x" if "ttl_from_from_str s = Inr x" for s x
    using that by (auto simp: ttl_from_from_str_def split: if_splits)
qed

interpretation task_status_text: text_enum task_status_as_str task_status_from_str
proof
  show "task_status_from_str (task_status_as_str x) = Inr x" for x
    by (cases x) (simp_all add: task_status_from_str_def)
  show "s = task_status_as_str x" if "task_status_from_str s = Inr x" for s x
    using that by (auto simp: task_status_from_str_def split: if_splits)
qed

interpretation history_status_text: text_enum history_status_as_str history_status_from_str
proof
  show "history_status_from_str (history_status_as_str x) = Inr x" for x
    by (cases x) (simp_all add: history_status_from_str_def)
  show "s = history_status_as_str x" if "history_status_from_str s = Inr x" for s x
    using that by (auto simp: history_status_from_str_def split: if_splits)
qed

interpretation policy_text: text_enum policy_as_str policy_from_str
proof
  show "policy_from_str (policy_as_str x) = Inr x" for x
    by (cases x) (simp_all add: policy_from_str_def)
  show "s = policy_as_str x" if "policy_from_str s = Inr x" for s x
    using that by (auto simp: policy_from_str_def split: if_splits)
qed

section \<open>Pause reasons\<close>

type_synonym pause_reasons = "64 word"

definition NONE :: pause_reasons where "NONE = 0"
definition PREEMPTION :: pause_reasons where "PREEMPTION = 1"
definition MODULE :: pause_reasons where "MODULE = 2"
definition GLOBAL :: pause_reasons where "GLOBAL = 4"
definition GROUP :: pause_reasons where "GROUP = 8"

definition pr_contains :: "pause_reasons \<Rightarrow> pause_reasons \<Rightarrow> bool" where
  "pr_contains r flag \<longleftrightarrow> r AND flag \<noteq> 0"

definition pr_with :: "pause_reasons \<Rightarrow> pause_reasons \<Rightarrow> pause_reasons" where
  "pr_with r flag = r OR flag"

definition pr_without :: "pause_reasons \<Rightarrow> pause_reasons \<Rightarrow> pause_reasons" where
  "pr_without r flag = r AND NOT flag"

definition pr_is_empty :: "pause_reasons \<Rightarrow> bool" where
  "pr_is_empty r \<longleftrightarrow> r = 0"

definition pr_bits :: "pause_reasons \<Rightarrow> int" where
  "pr_bits r = sint r"

definition pr_from_bits :: "int \<Rightarrow> pause_reasons" where
  "pr_from_bits b = word_of_int b"

lemma pr_bits_roundtrip [simp]: "pr_from_bits (pr_bits r) = r"
  by (simp add: pr_from_bits_def pr_bits_def)

lemma pr_without_with [simp]: "pr_without (pr_with r f) f = pr_without r f"
  unfolding pr_without_def pr_with_def by (rule bit_word_eqI) (auto simp: bit_simps)

lemma pr_without_contains [simp]: "\<not> pr_contains (pr_without r f) f"
  unfolding pr_contains_def pr_without_def by (simp add: and.assoc)

lemma pr_with_contains: "f \<noteq> 0 \<Longrightarrow> pr_contains (pr_with r f) f"
proof -
  assume "f \<noteq> 0"
  moreover have "(r OR f) AND f = f"
    by (rule bit_word_eqI) (auto simp: bit_simps)
  ultimately show ?thesis by (simp add: pr_contains_def pr_with_def)
qed

lemma pr_without_id: "\<not> pr_contains r f \<Longrightarrow> pr_without r f = r"
proof -
  assume "\<not> pr_contains r f"
  then have "\<not> bit (r AND f) n" for n by (simp add: pr_contains_def)
  then show ?thesis
    unfolding pr_without_def by (intro bit_word_eqI) (auto simp: bit_simps)
qed

section \<open>Records\<close>

record io_budget =
  disk_read :: int
  disk_write :: int
  net_rx :: int
  net_tx :: int

definition io_default :: io_budget where
  "io_default = \<lparr>disk_read = 0, disk_write = 0, net_rx = 0, net_tx = 0\<rparr>"

definition io_disk :: "int \<Rightarrow> int \<Rightarrow> io_budget" where
  "io_disk r w = io_default\<lparr>disk_read := r, disk_write := w\<rparr>"

definition io_net :: "int \<Rightarrow> int \<Rightarrow> io_budget" where
  "io_net r t = io_default\<lparr>net_rx := r, net_tx := t\<rparr>"

record task_record =
  t_id :: int
  t_task_type :: string
  t_key :: string
  t_label :: string
  t_priority :: priority
  t_status :: task_status
  t_payload :: "bytes option"
  t_expected_io :: io_budget
  t_retry_count :: int
  t_last_error :: "string option"
  t_created_at :: timestamp
  t_started_at :: "timestamp option"
  t_requeue :: bool
  t_requeue_priority :: "priority option"
  t_parent_id :: "int option"
  t_fail_fast :: bool
  t_group_key :: "string option"
  t_ttl_seconds :: "int option"
  t_ttl_from :: ttl_from
  t_expires_at :: "timestamp option"
  t_run_after :: "timestamp option"
  t_recurring_interval_secs :: "int option"
  t_recurring_max_executions :: "int option"
  t_recurring_execution_count :: int
  t_recurring_paused :: bool
  t_dependencies :: "int list"
  t_on_dependency_failure :: dependency_failure_policy
  t_tags :: "(string, string) assoc"
  t_max_retries :: "int option"
  t_memo :: "bytes option"
  t_pause_reasons :: pause_reasons
  t_pause_duration_ms :: int
  t_paused_at_ms :: "int option"

record history_record =
  h_id :: int
  h_task_type :: string
  h_key :: string
  h_label :: string
  h_priority :: priority
  h_status :: history_status
  h_payload :: "bytes option"
  h_expected_io :: io_budget
  h_actual_io :: "io_budget option"
  h_retry_count :: int
  h_last_error :: "string option"
  h_created_at :: timestamp
  h_started_at :: "timestamp option"
  h_completed_at :: timestamp
  h_duration_ms :: "int option"
  h_parent_id :: "int option"
  h_fail_fast :: bool
  h_group_key :: "string option"
  h_ttl_seconds :: "int option"
  h_ttl_from :: ttl_from
  h_expires_at :: "timestamp option"
  h_run_after :: "timestamp option"
  h_tags :: "(string, string) assoc"
  h_max_retries :: "int option"
  h_memo :: "bytes option"

datatype task_lookup = Active task_record | History history_record | LookupNotFound

datatype parent_resolution = ReadyToFinalize | ParentFailed string | StillWaiting

datatype store_error =
    PayloadTooLarge
  | Serialization string
  | Database string
  | InvalidDependency int
  | DependencyFailed int
  | CyclicDependency
  | InvalidTag string
  | NotFound string
  | InvalidState string

section \<open>Methods of \<open>TaskRecord\<close>\<close>

text \<open>\<open>split_once("::")\<close>: the text before and after the first occurrence.\<close>

fun split_once_colons :: "string \<Rightarrow> (string \<times> string) option" where
  "split_once_colons [] = None"
| "split_once_colons [c] = None"
| "split_once_colons (c # d # cs) =
     (if c = CHR '':'' \<and> d = CHR '':'' then Some ([], cs)
      else map_option (\<lambda>(a, b). (c # a, b)) (split_once_colons (d # cs)))"

definition task_module_name :: "task_record \<Rightarrow> string option" where
  "task_module_name r = map_option fst (split_once_colons (t_task_type r))"

text \<open>\<open>parent_ttl_secs as u64\<close> reinterprets the bits; \<open>to_std().unwrap_or_default()\<close>
  turns a negative elapsed time into zero.\<close>

definition remaining_ttl :: "timestamp \<Rightarrow> task_record \<Rightarrow> duration option" where
  "remaining_ttl now r =
     (case t_ttl_seconds r of
        None \<Rightarrow> None
      | Some secs \<Rightarrow>
          let parent_ttl = from_secs (nat (secs mod 2 ^ 64));
              ttl_start = (case t_ttl_from r of
                             Submission \<Rightarrow> Some (t_created_at r)
                           | FirstAttempt \<Rightarrow> t_started_at r)
          in case ttl_start of
               None \<Rightarrow> None
             | Some start \<Rightarrow>
                 let elapsed = from_millis (nat (now - start))
                 in if elapsed \<le> parent_ttl \<and> 0 < parent_ttl - elapsed
                    then Some (parent_ttl - elapsed) else None)"

lemma split_once_colons_Some:
  "split_once_colons s = Some (a, b) \<Longrightarrow> s = a @ ''::'' @ b"
  by (induction s arbitrary: a rule: split_once_colons.induct) (auto split: if_splits)

lemma remaining_ttl_bounds:
  assumes "remaining_ttl now r = Some d"
  shows "0 < d \<and> (\<exists>secs. t_ttl_seconds r = Some secs \<and> d \<le> from_secs (nat (secs mod 2 ^ 64)))"
  using assms by (auto simp: remaining_ttl_def Let_def split: option.splits ttl_from.splits if_splits)

section \<open>Dedup keys\<close>

definition MAX_PAYLOAD_BYTES :: nat where
  "MAX_PAYLOAD_BYTES = 1048576"

definition as_bytes :: "string \<Rightarrow> bytes" where
  "as_bytes s = map of_char s"

text \<open>\<open>Sha256\<close> with the hex formatting is the parameter \<open>sha256_hex\<close>.\<close>

definition generate_dedup_key :: "(bytes \<Rightarrow> string) \<Rightarrow> string \<Rightarrow> bytes option \<Rightarrow> string" where
  "generate_dedup_key sha256_hex task_type payload =
     sha256_hex (as_bytes task_type @ as_bytes '':'' @ (case payload of Some p \<Rightarrow> p | None \<Rightarrow> []))"

lemma as_bytes_append [simp]: "as_bytes (s @ t) = as_bytes s @ as_bytes t"
  by (simp add: as_bytes_def)

end
