(* ===== verification/Task_Submission.thy ===== *)
theory Task_Submission
  imports Task_Types
begin

text \<open>
  Submissions and their outcomes: \<open>src/src/task/submission.rs\<close>. A \<open>HashMap\<close> of tags
  is an association list with distinct keys; \<open>assoc_insert\<close> is \<open>HashMap::insert\<close> and
  \<open>assoc_or_insert\<close> is \<open>entry(k).or_insert(v)\<close>. Methods that read the clock take it
  as an argument. \<open>sha256_hex\<close> is the digest of \<open>generate_dedup_key\<close>.
\<close>

section \<open>Data\<close>

definition MAX_TAG_KEY_LEN :: nat where "MAX_TAG_KEY_LEN = 64"
definition MAX_TAG_VALUE_LEN :: nat where "MAX_TAG_VALUE_LEN = 256"
definition MAX_TAGS_PER_TASK :: nat where "MAX_TAGS_PER_TASK = 32"

record recurring_schedule =
  rs_interval :: duration
  rs_initial_delay :: "duration option"
  rs_max_executions :: "nat option"

datatype duplicate_strategy = Skip | Supersede | Reject

datatype submit_outcome =
    Inserted int bool
  | Upgraded int
  | Requeued int
  | Duplicate
  | Superseded int int
  | Rejected

record task_submission =
  sub_task_type :: string
  sub_dedup_key :: "string option"
  sub_label :: string
  sub_priority :: priority
  sub_payload :: "bytes option"
  sub_expected_io :: io_budget
  sub_parent_id :: "int option"
  sub_fail_fast :: bool
  sub_group_key :: "string option"
  sub_on_duplicate :: duplicate_strategy
  sub_ttl :: "duration option"
  sub_ttl_from :: ttl_from
  sub_payload_error :: "string option"
  sub_run_after :: "timestamp option"
  sub_recurring :: "recurring_schedule option"
  sub_dependencies :: "int list"
  sub_on_dependency_failure :: dependency_failure_policy
  sub_tags :: "(string, string) assoc"
  sub_max_retries :: "int option"

section \<open>Maps as association lists\<close>

fun assoc_insert :: "'k \<Rightarrow> 'v \<Rightarrow> ('k, 'v) assoc \<Rightarrow> ('k, 'v) assoc" where
  "assoc_insert k v [] = [(k, v)]"
| "assoc_insert k v ((k', v') # kvs) =
     (if k' = k then (k, v) # kvs else (k', v') # assoc_insert k v kvs)"

definition assoc_or_insert :: "'k \<Rightarrow> 'v \<Rightarrow> ('k, 'v) assoc \<Rightarrow> ('k, 'v) assoc" where
  "assoc_or_insert k v kvs = (if map_of kvs k = None then assoc_insert k v kvs else kvs)"

lemma map_of_assoc_insert [simp]: "map_of (assoc_insert k v kvs) = (map_of kvs)(k \<mapsto> v)"
  by (induction kvs rule: assoc_insert.induct) (auto simp: fun_eq_iff)

lemma assoc_insert_keys: "fst ` set (assoc_insert k v kvs) = insert k (fst ` set kvs)"
  by (induction k v kvs rule: assoc_insert.induct) auto

lemma distinct_assoc_insert [wf_intros]:
  "distinct (map fst kvs) \<Longrightarrow> distinct (map fst (assoc_insert k v kvs))"
proof (induction k v kvs rule: assoc_insert.induct)
  case (2 k v k' v' kvs)
  then show ?case using assoc_insert_keys [of k v kvs] by auto
qed simp

lemma map_of_assoc_or_insert:
  "map_of (assoc_or_insert k v kvs) = (case map_of kvs k of None \<Rightarrow> (map_of kvs)(k \<mapsto> v) | Some _ \<Rightarrow> map_of kvs)"
  by (auto simp: assoc_or_insert_def split: option.splits)

lemma distinct_assoc_or_insert [wf_intros]:
  "distinct (map fst kvs) \<Longrightarrow> distinct (map fst (assoc_or_insert k v kvs))"
  by (simp add: assoc_or_insert_def distinct_assoc_insert)

section \<open>Outcomes\<close>

fun outcome_id :: "submit_outcome \<Rightarrow> int option" where
  "outcome_id (Inserted i _) = Some i"
| "outcome_id (Upgraded i) = Some i"
| "outcome_id (Requeued i) = Some i"
| "outcome_id (Superseded new_task_id _) = Some new_task_id"
| "outcome_id Duplicate = None"
| "outcome_id Rejected = None"

fun is_inserted :: "submit_outcome \<Rightarrow> bool" where
  "is_inserted (Inserted _ _) = True"
| "is_inserted (Superseded _ _) = True"
| "is_inserted _ = False"

type_synonym batch_outcome = "submit_outcome list"

definition batch_inserted :: "batch_outcome \<Rightarrow> int list" where
  "batch_inserted os = List.map_filter (\<lambda>out. case out of Inserted i _ \<Rightarrow> Some i | _ \<Rightarrow> None) os"

definition batch_upgraded :: "batch_outcome \<Rightarrow> int list" where
  "batch_upgraded os = List.map_filter (\<lambda>out. case out of Upgraded i \<Rightarrow> Some i | _ \<Rightarrow> None) os"

definition batch_requeued :: "batch_outcome \<Rightarrow> int list" where
  "batch_requeued os = List.map_filter (\<lambda>out. case out of Requeued i \<Rightarrow> Some i | _ \<Rightarrow> None) os"

definition batch_superseded :: "batch_outcome \<Rightarrow> int list" where
  "batch_superseded os = List.map_filter (\<lambda>out. case out of Superseded i _ \<Rightarrow> Some i | _ \<Rightarrow> None) os"

definition rejected_count :: "batch_outcome \<Rightarrow> nat" where
  "rejected_count os = length (filter (\<lambda>out. out = Rejected) os)"

definition duplicated_count :: "batch_outcome \<Rightarrow> nat" where
  "duplicated_count os = length (filter (\<lambda>out. out = Duplicate) os)"

lemma batch_partition:
  "length (batch_inserted os) + length (batch_upgraded os) + length (batch_requeued os)
   + length (batch_superseded os) + rejected_count os + duplicated_count os = length os"
  by (induction os)
     (auto simp: batch_inserted_def batch_upgraded_def batch_requeued_def batch_superseded_def
       rejected_count_def duplicated_count_def List.map_filter_def split: submit_outcome.splits)

section \<open>Building a submission\<close>

definition submission_new :: "string \<Rightarrow> task_submission" where
  "submission_new task_type =
     \<lparr>sub_task_type = task_type, sub_dedup_key = None, sub_label = task_type,
      sub_priority = NORMAL, sub_payload = None, sub_expected_io = io_default,
      sub_parent_id = None, sub_fail_fast = True, sub_group_key = None,
      sub_on_duplicate = Skip, sub_ttl = None, sub_ttl_from = Submission,
      sub_payload_error = None, sub_run_after = None, sub_recurring = None,
      sub_dependencies = [], sub_on_dependency_failure = Cancel, sub_tags = [],
      sub_max_retries = None\<rparr>"

definition with_key :: "string \<Rightarrow> task_submission \<Rightarrow> task_submission" where
  "with_key k sub = sub\<lparr>sub_label := k, sub_dedup_key := Some k\<rparr>"

text \<open>\<open>serde_json::to_vec\<close> is the caller's: the builder receives its result.\<close>

definition with_payload_json :: "string + bytes \<Rightarrow> task_submission \<Rightarrow> task_submission" where
  "with_payload_json r sub =
     (case r of Inr bytes \<Rightarrow> sub\<lparr>sub_payload := Some bytes\<rparr>
              | Inl e \<Rightarrow> sub\<lparr>sub_payload_error := Some e\<rparr>)"

definition with_run_after :: "timestamp \<Rightarrow> duration \<Rightarrow> task_submission \<Rightarrow> task_submission" where
  "with_run_after now delay sub = sub\<lparr>sub_run_after := Some (now + int (as_millis delay))\<rparr>"

definition with_recurring :: "duration \<Rightarrow> task_submission \<Rightarrow> task_submission" where
  "with_recurring iv sub =
     sub\<lparr>sub_recurring := Some \<lparr>rs_interval = iv, rs_initial_delay = None, rs_max_executions = None\<rparr>\<rparr>"

definition with_recurring_schedule ::
    "timestamp \<Rightarrow> recurring_schedule \<Rightarrow> task_submission \<Rightarrow> task_submission" where
  "with_recurring_schedule now schedule sub =
     (let sub = (case rs_initial_delay schedule of
                   Some delay \<Rightarrow>
                     if sub_run_after sub = None
                     then sub\<lparr>sub_run_after := Some (now + int (as_millis delay))\<rparr> else sub
                 | None \<Rightarrow> sub)
      in sub\<lparr>sub_recurring := Some schedule\<rparr>)"

definition with_depends_on :: "int \<Rightarrow> task_submission \<Rightarrow> task_submission" where
  "with_depends_on i sub = sub\<lparr>sub_dependencies := sub_dependencies sub @ [i]\<rparr>"

definition with_depends_on_all :: "int list \<Rightarrow> task_submission \<Rightarrow> task_submission" where
  "with_depends_on_all is sub = sub\<lparr>sub_dependencies := sub_dependencies sub @ is\<rparr>"

definition with_tag :: "string \<Rightarrow> string \<Rightarrow> task_submission \<Rightarrow> task_submission" where
  "with_tag k v sub = sub\<lparr>sub_tags := assoc_insert k v (sub_tags sub)\<rparr>"

definition effective_key :: "(bytes \<Rightarrow> string) \<Rightarrow> task_submission \<Rightarrow> string" where
  "effective_key sha256_hex sub =
     (case sub_dedup_key sub of
        Some k \<Rightarrow> generate_dedup_key sha256_hex (sub_task_type sub) (Some (as_bytes k))
      | None \<Rightarrow> generate_dedup_key sha256_hex (sub_task_type sub) (sub_payload sub))"

section \<open>Batches\<close>

record batch_submission =
  default_group :: "string option"
  default_priority :: "priority option"
  default_ttl :: "duration option"
  default_tags :: "(string, string) assoc"
  batch_tasks :: "task_submission list"

definition batch_new :: batch_submission where
  "batch_new = \<lparr>default_group = None, default_priority = None, default_ttl = None,
                default_tags = [], batch_tasks = []\<rparr>"

definition apply_batch_defaults :: "batch_submission \<Rightarrow> task_submission \<Rightarrow> task_submission" where
  "apply_batch_defaults b sub =
     (let sub = (if sub_group_key sub = None
                 then case default_group b of Some g \<Rightarrow> sub\<lparr>sub_group_key := Some g\<rparr> | None \<Rightarrow> sub
                 else sub);
          sub = (if sub_priority sub = NORMAL
                 then case default_priority b of Some p \<Rightarrow> sub\<lparr>sub_priority := p\<rparr> | None \<Rightarrow> sub
                 else sub);
          sub = (if sub_ttl sub = None
                 then case default_ttl b of Some t \<Rightarrow> sub\<lparr>sub_ttl := Some t\<rparr> | None \<Rightarrow> sub
                 else sub)
      in sub\<lparr>sub_tags := fold (\<lambda>(k, v). assoc_or_insert k v) (default_tags b) (sub_tags sub)\<rparr>)"

definition batch_build :: "batch_submission \<Rightarrow> task_submission list" where
  "batch_build b = map (apply_batch_defaults b) (batch_tasks b)"

lemma map_of_fold_or_insert:
  "map_of (fold (\<lambda>(k, v). assoc_or_insert k v) ds kvs) = map_of ds ++ map_of kvs"
proof (induction ds arbitrary: kvs)
  case (Cons d ds)
  obtain k v where d: "d = (k, v)" by force
  have "map_of ds ++ map_of (assoc_or_insert k v kvs) = (map_of ds)(k \<mapsto> v) ++ map_of kvs"
    by (rule ext) (auto simp: map_of_assoc_or_insert map_add_def split: option.splits)
  with Cons d show ?case by (simp add: fun_upd_def)
qed simp

text \<open>Building a batch keeps every explicit choice of a task and fills in only what
  the task left open: the group when it has none, the priority when it is the default
  one, the time to live when it has none, and a default tag only under a key the task
  does not have.\<close>

theorem batch_build_defaults:
  "map sub_group_key (batch_build b)
     = map (\<lambda>sub. case sub_group_key sub of Some g \<Rightarrow> Some g | None \<Rightarrow> default_group b) (batch_tasks b)
   \<and> map sub_priority (batch_build b)
     = map (\<lambda>sub. case (sub_priority sub = NORMAL, default_priority b) of
                    (True, Some p) \<Rightarrow> p | _ \<Rightarrow> sub_priority sub) (batch_tasks b)
   \<and> map sub_ttl (batch_build b)
     = map (\<lambda>sub. case sub_ttl sub of Some t \<Rightarrow> Some t | None \<Rightarrow> default_ttl b) (batch_tasks b)
   \<and> map (\<lambda>sub. map_of (sub_tags sub)) (batch_build b)
     = map (\<lambda>sub. map_of (default_tags b) ++ map_of (sub_tags sub)) (batch_tasks b)"
  by (auto simp: batch_build_def apply_batch_defaults_def Let_def map_of_fold_or_insert
      split: option.splits)

text \<open>Different task types can have the same dedup key, because the separator may occur
  in the type and in the key.\<close>

lemma dedup_key_collision:
  "effective_key sha256_hex (with_key '':thumb:foo'' (submission_new ''media''))
   = effective_key sha256_hex (with_key ''foo'' (submission_new ''media::thumb''))"
  by (simp add: effective_key_def with_key_def submission_new_def generate_dedup_key_def as_bytes_def)

end
