(* ===== verification/Store_DB.thy ===== *)
theory Store_DB
  imports Task_Submission
begin

text \<open>
  The database of the store and what every operation on it shares:
  \<open>src/src/store/mod.rs\<close> and \<open>src/src/store/lifecycle/mod.rs\<close>, with the tables of
  \<open>src/migrations/\<close>.

  A table is the list of its rows, in rowid order for the two tables with an
  \<open>INTEGER PRIMARY KEY\<close> and in insertion order for the others. A row of \<open>tasks\<close> is a
  \<open>task_record\<close> whose \<open>tags\<close> and \<open>dependencies\<close> are empty (\<open>row_to_task_record\<close> leaves
  them empty too). A function that the code runs on an open connection is a
  statement of type \<open>(db, store_error, 'a) stmt\<close>; \<open>transact\<close> is \<open>BEGIN IMMEDIATE ...
  COMMIT\<close> with the rollback of the early return. The only database errors of the
  model are violated \<open>UNIQUE\<close> constraints. Every operation reads the clock once.
  A prune interval of zero makes the code divide by zero; the interval of the
  model is positive.
\<close>

section \<open>State\<close>

record db =
  tasks :: "task_record list"
  history :: "history_record list"
  task_deps :: "(int \<times> int) list"
  task_tags :: "(int \<times> string \<times> string) list"
  history_tags :: "(int \<times> string \<times> string) list"
  paused_groups :: "(string \<times> int \<times> int option) list"

datatype retention_policy = MaxCount int | MaxAgeDays int

record store_config =
  cfg_retention_policy :: "retention_policy option"
  cfg_prune_interval :: nat

record task_store =
  st_db :: db
  st_retention_policy :: "retention_policy option"
  st_prune_interval :: nat
  st_completion_count :: nat
  st_has_tags :: bool
  st_has_hierarchy :: bool
  st_has_running :: bool

type_synonym 'a db_stmt = "(db, store_error, 'a) stmt"
type_synonym 'a store_stmt = "(task_store, store_error, 'a) stmt"

definition empty_db :: db where
  "empty_db = \<lparr>tasks = [], history = [], task_deps = [], task_tags = [], history_tags = [],
               paused_groups = []\<rparr>"

definition store_config_default :: store_config where
  "store_config_default = \<lparr>cfg_retention_policy = Some (MaxCount 10000), cfg_prune_interval = 100\<rparr>"

definition open_memory :: task_store where
  "open_memory = \<lparr>st_db = empty_db, st_retention_policy = Some (MaxCount 10000),
     st_prune_interval = 100, st_completion_count = 0, st_has_tags = False,
     st_has_hierarchy = False, st_has_running = False\<rparr>"

section \<open>Statement forms on the tables\<close>

definition upd_tasks :: "(task_record \<Rightarrow> bool) \<Rightarrow> (task_record \<Rightarrow> task_record) \<Rightarrow> db \<Rightarrow> db" where
  "upd_tasks p f d = d\<lparr>tasks := sql_update p f (tasks d)\<rparr>"

definition del_tasks :: "(task_record \<Rightarrow> bool) \<Rightarrow> db \<Rightarrow> db" where
  "del_tasks p d = d\<lparr>tasks := sql_delete p (tasks d)\<rparr>"

definition del_deps :: "(int \<times> int \<Rightarrow> bool) \<Rightarrow> db \<Rightarrow> db" where
  "del_deps p d = d\<lparr>task_deps := sql_delete p (task_deps d)\<rparr>"

definition task_by_rowid :: "int \<Rightarrow> db \<Rightarrow> task_record option" where
  "task_by_rowid i d = sql_lookup t_id i (tasks d)"

definition task_by_rowkey :: "string \<Rightarrow> db \<Rightarrow> task_record option" where
  "task_by_rowkey k d = sql_lookup t_key k (tasks d)"

definition group_is_paused :: "string option \<Rightarrow> db \<Rightarrow> bool" where
  "group_is_paused g d = (case g of None \<Rightarrow> False | Some k \<Rightarrow> sql_exists (\<lambda>(gk, _). gk = k) (paused_groups d))"

definition unique_violation :: "string \<Rightarrow> store_error" where
  "unique_violation c = Database (''UNIQUE constraint failed: '' @ c)"

definition insert_task :: "task_record \<Rightarrow> int db_stmt" where
  "insert_task row d =
     (if sql_exists (\<lambda>r. t_key r = t_key row) (tasks d)
      then (d, Inl (unique_violation ''tasks.key''))
      else let i = next_rowid t_id (tasks d)
           in (d\<lparr>tasks := tasks d @ [row\<lparr>t_id := i\<rparr>]\<rparr>, Inr i))"

definition insert_or_ignore_task :: "task_record \<Rightarrow> int option db_stmt" where
  "insert_or_ignore_task row d =
     (if sql_exists (\<lambda>r. t_key r = t_key row) (tasks d) then (d, Inr None)
      else let i = next_rowid t_id (tasks d)
           in (d\<lparr>tasks := tasks d @ [row\<lparr>t_id := i\<rparr>]\<rparr>, Inr (Some i)))"

definition transact :: "'a db_stmt \<Rightarrow> 'a store_stmt" where
  "transact m st =
     (case m (st_db st) of
        (d, Inl e) \<Rightarrow> (st, Inl e)
      | (d, Inr x) \<Rightarrow> (st\<lparr>st_db := d\<rparr>, Inr x))"

section \<open>Tags\<close>

definition delete_task_tags :: "int \<Rightarrow> db \<Rightarrow> db" where
  "delete_task_tags i d = d\<lparr>task_tags := sql_delete (\<lambda>(t, _). t = i) (task_tags d)\<rparr>"

definition load_task_tags :: "int \<Rightarrow> db \<Rightarrow> (string, string) assoc" where
  "load_task_tags i d = map snd (sql_select (\<lambda>(t, _). t = i) (task_tags d))"

definition insert_tag :: "int \<Rightarrow> string \<times> string \<Rightarrow> unit db_stmt" where
  "insert_tag i kv d =
     (if sql_exists (\<lambda>(t, k, _). t = i \<and> k = fst kv) (task_tags d)
      then (d, Inl (unique_violation ''task_tags.task_id, task_tags.key''))
      else (d\<lparr>task_tags := task_tags d @ [(i, kv)]\<rparr>, Inr ()))"

definition insert_tags :: "int \<Rightarrow> (string, string) assoc \<Rightarrow> unit db_stmt" where
  "insert_tags i tags = for_each (insert_tag i) tags"

section \<open>Moving a task to history\<close>

definition increments_retries :: "history_status \<Rightarrow> bool" where
  "increments_retries s \<longleftrightarrow> s = HFailed \<or> s = HDeadLetter"

definition history_row ::
    "timestamp \<Rightarrow> task_record \<Rightarrow> history_status \<Rightarrow> io_budget \<Rightarrow> int option \<Rightarrow> string option \<Rightarrow> history_record" where
  "history_row now task status metrics duration_ms last_error =
     \<lparr>h_id = 0, h_task_type = t_task_type task, h_key = t_key task, h_label = t_label task,
      h_priority = t_priority task, h_status = status, h_payload = t_payload task,
      h_expected_io = t_expected_io task, h_actual_io = Some metrics,
      h_retry_count = (if increments_retries status then t_retry_count task + 1 else t_retry_count task),
      h_last_error = last_error, h_created_at = t_created_at task, h_started_at = t_started_at task,
      h_completed_at = now, h_duration_ms = duration_ms, h_parent_id = t_parent_id task,
      h_fail_fast = t_fail_fast task, h_group_key = t_group_key task,
      h_ttl_seconds = t_ttl_seconds task, h_ttl_from = t_ttl_from task,
      h_expires_at = t_expires_at task, h_run_after = t_run_after task, h_tags = [],
      h_max_retries = t_max_retries task, h_memo = t_memo task\<rparr>"

definition copy_history_tags :: "int \<Rightarrow> int \<Rightarrow> unit db_stmt" where
  "copy_history_tags hid i d =
     (let new = map (\<lambda>(_, kv). (hid, kv)) (sql_select (\<lambda>(t, _). t = i) (task_tags d))
      in if sql_exists (\<lambda>(h, k, _). sql_exists (\<lambda>(_, k', _). h = hid \<and> k = k') new) (history_tags d)
         then (d, Inl (unique_violation ''task_history_tags.history_rowid, task_history_tags.key''))
         else (d\<lparr>history_tags := history_tags d @ new\<rparr>, Inr ()))"

definition insert_history ::
    "timestamp \<Rightarrow> task_record \<Rightarrow> history_status \<Rightarrow> io_budget \<Rightarrow> int option \<Rightarrow> string option \<Rightarrow> bool
     \<Rightarrow> unit db_stmt" where
  "insert_history now task status metrics duration_ms last_error skip_tags d =
     (let hid = next_rowid h_id (history d);
          d' = d\<lparr>history := history d
                 @ [(history_row now task status metrics duration_ms last_error)\<lparr>h_id := hid\<rparr>]\<rparr>
      in if skip_tags then (d', Inr ()) else copy_history_tags hid (t_id task) d')"

definition compute_duration_ms :: "timestamp \<Rightarrow> task_record \<Rightarrow> int option" where
  "compute_duration_ms now task = map_option (\<lambda>started. now - started) (t_started_at task)"

section \<open>Pruning\<close>

definition sql_limit :: "int \<Rightarrow> 'r list \<Rightarrow> 'r list" where
  "sql_limit n xs = (if n < 0 then xs else take (nat n) xs)"

definition prune_history_by_age :: "timestamp \<Rightarrow> int \<Rightarrow> db \<Rightarrow> db" where
  "prune_history_by_age now max_age_days d =
     (let cutoff = now - max_age_days * 86400000
      in d\<lparr>history := sql_delete (\<lambda>h. h_completed_at h < cutoff) (history d)\<rparr>)"

definition prune_history_by_count :: "int \<Rightarrow> db \<Rightarrow> db" where
  "prune_history_by_count keep_latest d =
     (let kept = map h_id (sql_limit keep_latest (order_by (\<lambda>h. - h_completed_at h) (history d)))
      in d\<lparr>history := sql_delete (\<lambda>h. h_id h \<notin> set kept) (history d)\<rparr>)"

definition auto_prune :: "timestamp \<Rightarrow> task_store \<Rightarrow> task_store" where
  "auto_prune now st =
     (case st_retention_policy st of
        Some (MaxCount n) \<Rightarrow> st\<lparr>st_db := prune_history_by_count n (st_db st)\<rparr>
      | Some (MaxAgeDays days) \<Rightarrow> st\<lparr>st_db := prune_history_by_age now days (st_db st)\<rparr>
      | None \<Rightarrow> st)"

definition maybe_prune :: "timestamp \<Rightarrow> task_store \<Rightarrow> task_store" where
  "maybe_prune now st =
     (if st_retention_policy st = None then st
      else let count = st_completion_count st;
               st' = st\<lparr>st_completion_count := (count + 1) mod 2 ^ 64\<rparr>
           in if count mod st_prune_interval st \<noteq> 0 then st' else auto_prune now st')"

section \<open>Opening, recovery and deletion\<close>

definition recover_running :: "timestamp \<Rightarrow> db \<Rightarrow> db" where
  "recover_running now d =
     (let d1 = upd_tasks (\<lambda>r. t_status r = Running) (\<lambda>r. r\<lparr>t_status := Pending, t_started_at := None\<rparr>) d;
          d2 = upd_tasks (\<lambda>r. t_status r = Paused \<and> t_paused_at_ms r \<noteq> None)
                 (\<lambda>r. r\<lparr>t_pause_duration_ms := t_pause_duration_ms r + (now - the (t_paused_at_ms r)),
                        t_paused_at_ms := None\<rparr>) d1;
          stale = (\<lambda>(t, dep). dep \<notin> t_id ` set (tasks d2));
          d3 = del_deps stale d2
      in if sql_count stale (task_deps d2) > 0
         then upd_tasks (\<lambda>r. t_status r = Blocked \<and> t_id r \<notin> fst ` set (task_deps d3))
                (\<lambda>r. r\<lparr>t_status := Pending\<rparr>) d3
         else d3)"

definition open_with_config :: "timestamp \<Rightarrow> store_config \<Rightarrow> db \<Rightarrow> task_store" where
  "open_with_config now config persisted =
     \<lparr>st_db = recover_running now persisted, st_retention_policy = cfg_retention_policy config,
      st_prune_interval = cfg_prune_interval config, st_completion_count = 0, st_has_tags = True,
      st_has_hierarchy = True, st_has_running = True\<rparr>"

definition delete_history :: "int \<Rightarrow> db \<Rightarrow> db \<times> bool" where
  "delete_history hid d =
     (d\<lparr>history_tags := sql_delete (\<lambda>(h, _). h = hid) (history_tags d),
        history := sql_delete (\<lambda>h. h_id h = hid) (history d)\<rparr>,
      sql_count (\<lambda>h. h_id h = hid) (history d) > 0)"

definition delete_task :: "int \<Rightarrow> db \<Rightarrow> db \<times> bool" where
  "delete_task i d =
     (del_tasks (\<lambda>r. t_id r = i) (delete_task_tags i d), sql_count (\<lambda>r. t_id r = i) (tasks d) > 0)"

section \<open>Example rows\<close>

text \<open>A row with the column defaults of the schema, for the concrete databases of the
  examples.\<close>

definition sample_row :: "int \<Rightarrow> string \<Rightarrow> task_status \<Rightarrow> task_record" where
  "sample_row i k s =
     \<lparr>t_id = i, t_task_type = ''media::thumb'', t_key = k, t_label = k, t_priority = NORMAL,
      t_status = s, t_payload = None, t_expected_io = io_default, t_retry_count = 0,
      t_last_error = None, t_created_at = 0, t_started_at = None, t_requeue = False,
      t_requeue_priority = None, t_parent_id = None, t_fail_fast = True, t_group_key = None,
      t_ttl_seconds = None, t_ttl_from = Submission, t_expires_at = None, t_run_after = None,
      t_recurring_interval_secs = None, t_recurring_max_executions = None,
      t_recurring_execution_count = 0, t_recurring_paused = False, t_dependencies = [],
      t_on_dependency_failure = Cancel, t_tags = [], t_max_retries = None, t_memo = None,
      t_pause_reasons = 0, t_pause_duration_ms = 0, t_paused_at_ms = None\<rparr>"

section \<open>The tables the statement forms leave alone\<close>

lemma upd_tasks_frame [frame_simps, simp]:
  "history (upd_tasks p f d) = history d" "task_deps (upd_tasks p f d) = task_deps d"
  "task_tags (upd_tasks p f d) = task_tags d" "history_tags (upd_tasks p f d) = history_tags d"
  "paused_groups (upd_tasks p f d) = paused_groups d"
  "tasks (upd_tasks p f d) = sql_update p f (tasks d)"
  by (simp_all add: upd_tasks_def)

lemma del_tasks_frame [frame_simps, simp]:
  "history (del_tasks p d) = history d" "task_deps (del_tasks p d) = task_deps d"
  "task_tags (del_tasks p d) = task_tags d" "history_tags (del_tasks p d) = history_tags d"
  "paused_groups (del_tasks p d) = paused_groups d"
  "tasks (del_tasks p d) = sql_delete p (tasks d)"
  by (simp_all add: del_tasks_def)

lemma del_deps_frame [frame_simps, simp]:
  "history (del_deps p d) = history d" "tasks (del_deps p d) = tasks d"
  "task_tags (del_deps p d) = task_tags d" "history_tags (del_deps p d) = history_tags d"
  "paused_groups (del_deps p d) = paused_groups d"
  "task_deps (del_deps p d) = sql_delete p (task_deps d)"
  by (simp_all add: del_deps_def)

lemma delete_task_tags_frame [frame_simps, simp]:
  "history (delete_task_tags i d) = history d" "tasks (delete_task_tags i d) = tasks d"
  "task_deps (delete_task_tags i d) = task_deps d"
  "history_tags (delete_task_tags i d) = history_tags d"
  "paused_groups (delete_task_tags i d) = paused_groups d"
  by (simp_all add: delete_task_tags_def)

lemma insert_history_frame [frame_simps, simp]:
  "tasks (fst (insert_history now task s m dur e skip d)) = tasks d"
  "task_deps (fst (insert_history now task s m dur e skip d)) = task_deps d"
  "task_tags (fst (insert_history now task s m dur e skip d)) = task_tags d"
  "paused_groups (fst (insert_history now task s m dur e skip d)) = paused_groups d"
  by (simp_all add: insert_history_def copy_history_tags_def Let_def)

lemma insert_history_rows [frame_simps]:
  "history (fst (insert_history now task s m dur e skip d))
   = history d @ [(history_row now task s m dur e)\<lparr>h_id := next_rowid h_id (history d)\<rparr>]"
  by (simp add: insert_history_def copy_history_tags_def Let_def)

lemma insert_tags_frame [frame_simps, simp]:
  "tasks (fst (insert_tags i ts d)) = tasks d" "history (fst (insert_tags i ts d)) = history d"
  "task_deps (fst (insert_tags i ts d)) = task_deps d"
  "paused_groups (fst (insert_tags i ts d)) = paused_groups d"
proof -
  have "tasks (fst (insert_tag i kv d)) = tasks d \<and> history (fst (insert_tag i kv d)) = history d
      \<and> task_deps (fst (insert_tag i kv d)) = task_deps d
      \<and> paused_groups (fst (insert_tag i kv d)) = paused_groups d" for kv d
    by (simp add: insert_tag_def)
  then have "keeps (\<lambda>d'. tasks d' = tasks d \<and> history d' = history d \<and> task_deps d' = task_deps d
      \<and> paused_groups d' = paused_groups d) (insert_tags i ts)"
    unfolding insert_tags_def by (intro keeps_for_each) (simp add: keeps_def)
  from keepsD [OF this, of d]
  show "tasks (fst (insert_tags i ts d)) = tasks d" "history (fst (insert_tags i ts d)) = history d"
    "task_deps (fst (insert_tags i ts d)) = task_deps d"
    "paused_groups (fst (insert_tags i ts d)) = paused_groups d"
    by simp_all
qed

section \<open>The database invariant\<close>

interpretation task_table: rowid_table t_id "\<lambda>i r. r\<lparr>t_id := i\<rparr>"
  by unfold_locales simp

interpretation history_table: rowid_table h_id "\<lambda>i r. r\<lparr>h_id := i\<rparr>"
  by unfold_locales simp

text \<open>The primary keys and \<open>UNIQUE\<close> constraints of the schema; rows carry no tags and no
  dependencies of their own.\<close>

definition tag_key :: "int \<times> string \<times> string \<Rightarrow> int \<times> string" where
  "tag_key t = (fst t, fst (snd t))"

definition db_ok :: "db \<Rightarrow> bool" where
  "db_ok d \<longleftrightarrow>
     rowids_ok t_id (tasks d) \<and> rowids_ok h_id (history d)
     \<and> distinct (map t_key (tasks d))
     \<and> distinct (task_deps d)
     \<and> distinct (map tag_key (task_tags d))
     \<and> distinct (map tag_key (history_tags d))
     \<and> distinct (map fst (paused_groups d))
     \<and> (\<forall>r \<in> set (tasks d). t_tags r = [] \<and> t_dependencies r = [])"

lemma db_ok_empty: "db_ok empty_db"
  by (simp add: db_ok_def empty_db_def rowids_ok_def)

lemma db_ok_upd_tasks [wf_intros]:
  assumes "db_ok d"
    and "\<And>r. p r \<Longrightarrow> t_id (f r) = t_id r"
    and "\<And>r. p r \<Longrightarrow> t_key (f r) = t_key r"
    and "\<And>r. p r \<Longrightarrow> t_tags (f r) = t_tags r"
    and "\<And>r. p r \<Longrightarrow> t_dependencies (f r) = t_dependencies r"
  shows "db_ok (upd_tasks p f d)"
  using assms
  by (auto simp: db_ok_def upd_tasks_def task_table.rowids_update map_sql_update set_sql_update)

lemma db_ok_del_tasks [wf_intros]: "db_ok d \<Longrightarrow> db_ok (del_tasks p d)"
  by (auto simp: db_ok_def del_tasks_def task_table.rowids_delete distinct_map_sql_delete set_sql_delete)

lemma db_ok_del_deps [wf_intros]: "db_ok d \<Longrightarrow> db_ok (del_deps p d)"
  by (simp add: db_ok_def del_deps_def sql_delete_def)

lemma db_ok_delete_task_tags [wf_intros]: "db_ok d \<Longrightarrow> db_ok (delete_task_tags i d)"
  by (simp add: db_ok_def delete_task_tags_def distinct_map_sql_delete)

lemma db_ok_history_del: "db_ok d \<Longrightarrow> db_ok (d\<lparr>history := sql_delete p (history d)\<rparr>)"
  by (simp add: db_ok_def history_table.rowids_delete)

lemma db_ok_append_task:
  assumes "db_ok d" and "\<not> sql_exists (\<lambda>r. t_key r = t_key row) (tasks d)"
    and "t_tags row = []" and "t_dependencies row = []"
  shows "db_ok (d\<lparr>tasks := tasks d @ [row\<lparr>t_id := next_rowid t_id (tasks d)\<rparr>]\<rparr>)"
  using assms task_table.rowids_insert [of "tasks d" row]
  by (auto simp: db_ok_def sql_exists_iff image_iff)

lemma keeps_insert_task [wf_intros]:
  "t_tags row = [] \<Longrightarrow> t_dependencies row = [] \<Longrightarrow> keeps db_ok (insert_task row)"
  by (auto simp: keeps_def insert_task_def Let_def db_ok_append_task)

lemma keeps_insert_or_ignore_task [wf_intros]:
  "t_tags row = [] \<Longrightarrow> t_dependencies row = [] \<Longrightarrow> keeps db_ok (insert_or_ignore_task row)"
  by (auto simp: keeps_def insert_or_ignore_task_def Let_def db_ok_append_task)

lemma keeps_insert_tag [wf_intros]: "keeps db_ok (insert_tag i kv)"
  by (auto simp: keeps_def insert_tag_def db_ok_def sql_exists_iff tag_key_def)

lemma keeps_insert_tags [wf_intros]: "keeps db_ok (insert_tags i tags)"
  by (simp add: insert_tags_def keeps_for_each keeps_insert_tag)

lemma distinct_copied_tags:
  "distinct (map tag_key ts) \<Longrightarrow>
   distinct (map tag_key (map (\<lambda>(_, kv). (hid, kv)) (sql_select (\<lambda>(t, _). t = i) ts)))"
proof (induction ts)
  case (Cons t ts)
  obtain j k v where t: "t = (j, k, v)" using prod_cases3 by blast
  have "(i, k, w) \<notin> set ts" if "j = i" for w
    using Cons.prems that by (force simp: t tag_key_def)
  with Cons show ?case by (auto simp: t sql_select_def tag_key_def)
qed (simp add: sql_select_def)

lemma tag_keys_disjoint:
  assumes "\<not> sql_exists (\<lambda>(h, k, _). sql_exists (\<lambda>(_, k', _). h = hid \<and> k = k') new) hts"
    and "\<forall>t \<in> set new. fst t = hid"
  shows "tag_key ` set hts \<inter> tag_key ` set new = {}"
  using assms by (force simp: sql_exists_iff tag_key_def)

lemma keeps_copy_history_tags: "keeps db_ok (copy_history_tags hid i)"
proof (rule keepsI)
  fix d assume d: "db_ok d"
  let ?new = "map (\<lambda>(_, kv). (hid, kv)) (sql_select (\<lambda>(t, _). t = i) (task_tags d))"
  have new: "distinct (map tag_key ?new)"
    using d by (intro distinct_copied_tags) (simp add: db_ok_def)
  have "\<forall>t \<in> set ?new. fst t = hid" by auto
  with tag_keys_disjoint [of hid ?new "history_tags d"] d new
  show "db_ok (fst (copy_history_tags hid i d))"
    unfolding copy_history_tags_def Let_def
    by (cases "sql_exists (\<lambda>(h, k, _). sql_exists (\<lambda>(_, k', _). h = hid \<and> k = k') ?new) (history_tags d)")
       (simp_all add: db_ok_def del: map_map)
qed

lemma keeps_insert_history [wf_intros]:
  "keeps db_ok (insert_history now task status metrics dur e skip)"
proof (rule keepsI)
  fix d assume d: "db_ok d"
  let ?row = "history_row now task status metrics dur e"
  let ?d = "d\<lparr>history := history d @ [?row\<lparr>h_id := next_rowid h_id (history d)\<rparr>]\<rparr>"
  have "db_ok ?d"
    using d history_table.rowids_insert [of "history d" ?row] by (simp add: db_ok_def)
  then show "db_ok (fst (insert_history now task status metrics dur e skip d))"
    using keepsD [OF keeps_copy_history_tags] by (simp add: insert_history_def Let_def)
qed

lemma db_ok_recover_running [wf_intros]: "db_ok d \<Longrightarrow> db_ok (recover_running now d)"
  unfolding recover_running_def Let_def
  by (auto intro!: db_ok_upd_tasks db_ok_del_deps)

lemma db_ok_prune:
  "db_ok d \<Longrightarrow> db_ok (prune_history_by_age now days d)"
  "db_ok d \<Longrightarrow> db_ok (prune_history_by_count n d)"
  by (simp_all add: prune_history_by_age_def prune_history_by_count_def Let_def db_ok_history_del)

lemma db_ok_delete_history: "db_ok d \<Longrightarrow> db_ok (fst (delete_history hid d))"
  by (simp add: delete_history_def db_ok_def history_table.rowids_delete distinct_map_sql_delete)

lemma db_ok_delete_task: "db_ok d \<Longrightarrow> db_ok (fst (delete_task i d))"
  by (simp add: delete_task_def db_ok_del_tasks db_ok_delete_task_tags)

text \<open>The store keeps an invariant of its database when every part of it does.\<close>

definition store_ok :: "task_store \<Rightarrow> bool" where
  "store_ok st \<longleftrightarrow> db_ok (st_db st)"

lemma keeps_transact:
  "keeps P m \<Longrightarrow> keeps (\<lambda>st. P (st_db st)) (transact m)"
  by (fastforce simp: keeps_def transact_def split: prod.splits sum.splits)

lemma transact_error_rolls_back: "transact m st = (st', Inl e) \<Longrightarrow> st' = st"
  by (auto simp: transact_def split: prod.splits sum.splits)

lemma st_db_maybe_prune:
  "(\<And>n d. P d \<Longrightarrow> P (prune_history_by_count n d)) \<Longrightarrow> (\<And>days d. P d \<Longrightarrow> P (prune_history_by_age now days d))
   \<Longrightarrow> P (st_db st) \<Longrightarrow> P (st_db (maybe_prune now st))"
  by (auto simp: maybe_prune_def auto_prune_def Let_def split: option.splits retention_policy.splits)

end
