(* ===== verification/Store_Deps.thy ===== *)
theory Store_Deps
  imports Store_DB
begin

text \<open>
  Dependency edges after a task has finished: \<open>src/src/store/dependencies.rs\<close>. An edge
  \<open>(a, b)\<close> of \<open>task_deps\<close> means that \<open>a\<close> waits for \<open>b\<close>.

  \<open>fail_dependents_inner\<close> is recursive in the source (a boxed future); here it has a
  depth bound and returns \<open>None\<close> when the bound is too small. Every recursive call
  follows the removal of a task, so one more than the number of active tasks is
  always enough (\<open>fail_dependents_total\<close>).
\<close>

section \<open>Operations\<close>

definition pause_row :: "timestamp \<Rightarrow> pause_reasons \<Rightarrow> task_record \<Rightarrow> task_record" where
  "pause_row now reason r =
     r\<lparr>t_status := Paused, t_pause_reasons := pr_with (t_pause_reasons r) reason,
       t_paused_at_ms := (case t_paused_at_ms r of None \<Rightarrow> Some now | Some p \<Rightarrow> Some p)\<rparr>"

definition pause_unblocked :: "timestamp \<Rightarrow> int \<Rightarrow> db \<Rightarrow> db" where
  "pause_unblocked now i d =
     upd_tasks (\<lambda>r. t_id r = i \<and> t_status r = Pending \<and> group_is_paused (t_group_key r) d)
       (pause_row now GROUP) d"

definition has_edge_from :: "int \<Rightarrow> db \<Rightarrow> bool" where
  "has_edge_from i d = sql_exists (\<lambda>(t, _). t = i) (task_deps d)"

definition dependents_of :: "int \<Rightarrow> db \<Rightarrow> int list" where
  "dependents_of i d = map fst (sql_select (\<lambda>(_, dep). dep = i) (task_deps d))"

definition resolve_dependents_inner :: "timestamp \<Rightarrow> int \<Rightarrow> db \<Rightarrow> db \<times> int list" where
  "resolve_dependents_inner now completed_task_id d =
     (let dependent_ids = dependents_of completed_task_id d;
          d1 = del_deps (\<lambda>(_, dep). dep = completed_task_id) d
      in if dependent_ids = [] then (d1, [])
         else let unblock = (\<lambda>r. t_status r = Blocked \<and> t_id r \<in> set dependent_ids
                                 \<and> \<not> has_edge_from (t_id r) d1);
                  unblocked = map t_id (sql_select unblock (tasks d1));
                  d2 = upd_tasks unblock (\<lambda>r. r\<lparr>t_status := Pending\<rparr>) d1
              in (fold (pause_unblocked now) unblocked d2, unblocked))"

text \<open>Steps 5 ff. of \<open>complete_batch_with_resolve\<close> in \<open>src/src/store/lifecycle/transitions.rs\<close>:
  the same for several completed tasks at once.\<close>

definition batch_resolve :: "timestamp \<Rightarrow> int list \<Rightarrow> db \<Rightarrow> db \<times> int list" where
  "batch_resolve now ids d =
     (let dependent_ids = map fst (sql_select (\<lambda>(_, dep). dep \<in> set ids) (task_deps d));
          d1 = del_deps (\<lambda>(_, dep). dep \<in> set ids) d
      in if dependent_ids = [] then (d1, [])
         else let unblock = (\<lambda>r. t_status r = Blocked \<and> t_id r \<in> set dependent_ids
                                 \<and> \<not> has_edge_from (t_id r) d1);
                  unblocked = map t_id (sql_select unblock (tasks d1));
                  d2 = upd_tasks unblock (\<lambda>r. r\<lparr>t_status := Pending\<rparr>) d1
              in (fold (pause_unblocked now) unblocked d2, unblocked))"

definition resolve_dependents :: "timestamp \<Rightarrow> int \<Rightarrow> task_store \<Rightarrow> task_store \<times> int list" where
  "resolve_dependents now i st =
     (case resolve_dependents_inner now i (st_db st) of (d, ids) \<Rightarrow> (st\<lparr>st_db := d\<rparr>, ids))"

definition remove_failed_dependent :: "timestamp \<Rightarrow> int \<Rightarrow> task_record \<Rightarrow> unit db_stmt" where
  "remove_failed_dependent now failed_task_id task =
     andThen (insert_history now task HDependencyFailed io_default None
                (Some (''dependency task '' @ show_int failed_task_id @ '' failed'')) False)
       (\<lambda>_. exec (\<lambda>d. del_tasks (\<lambda>r. t_id r = t_id task)
                       (delete_task_tags (t_id task)
                         (del_deps (\<lambda>(t, _). t = t_id task) d))))"

definition ignore_failed_dependency :: "timestamp \<Rightarrow> int \<Rightarrow> db \<Rightarrow> db \<times> bool" where
  "ignore_failed_dependency now dep_id d =
     (if has_edge_from dep_id d then (d, False)
      else let p = (\<lambda>r. t_id r = dep_id \<and> t_status r = Blocked);
               d1 = upd_tasks p (\<lambda>r. r\<lparr>t_status := Pending\<rparr>) d
           in if sql_exists p (tasks d) then (pause_unblocked now dep_id d1, True) else (d1, False))"

fun fail_dependents_inner ::
      "nat \<Rightarrow> timestamp \<Rightarrow> int \<Rightarrow> db \<Rightarrow> (db \<times> (store_error + int list \<times> int list)) option"
  and fail_each ::
      "nat \<Rightarrow> timestamp \<Rightarrow> int \<Rightarrow> int list \<Rightarrow> int list \<Rightarrow> int list \<Rightarrow> db
       \<Rightarrow> (db \<times> (store_error + int list \<times> int list)) option" where
  "fail_dependents_inner 0 now failed_task_id d = None"
| "fail_dependents_inner (Suc n) now failed_task_id d =
     fail_each n now failed_task_id (dependents_of failed_task_id d) [] []
       (del_deps (\<lambda>(_, dep). dep = failed_task_id) d)"
| "fail_each n now failed_task_id [] all_failed all_unblocked d = Some (d, Inr (all_failed, all_unblocked))"
| "fail_each n now failed_task_id (dep_id # rest) all_failed all_unblocked d =
     (case task_by_rowid dep_id d of
        None \<Rightarrow> fail_each n now failed_task_id rest all_failed all_unblocked d
      | Some task \<Rightarrow>
          (case t_on_dependency_failure task of
             Ignore \<Rightarrow>
               (case ignore_failed_dependency now dep_id d of
                  (d', unblocked) \<Rightarrow>
                    fail_each n now failed_task_id rest all_failed
                      (if unblocked then all_unblocked @ [dep_id] else all_unblocked) d')
           | _ \<Rightarrow>
               (case remove_failed_dependent now failed_task_id task d of
                  (d', Inl e) \<Rightarrow> Some (d', Inl e)
                | (d', Inr _) \<Rightarrow>
                    (case fail_dependents_inner n now dep_id d' of
                       None \<Rightarrow> None
                     | Some (d'', Inl e) \<Rightarrow> Some (d'', Inl e)
                     | Some (d'', Inr (sub_failed, sub_unblocked)) \<Rightarrow>
                         fail_each n now failed_task_id rest (all_failed @ [dep_id] @ sub_failed)
                           (all_unblocked @ sub_unblocked) d''))))"

definition fail_dependents :: "timestamp \<Rightarrow> int \<Rightarrow> (int list \<times> int list) store_stmt" where
  "fail_dependents now failed_task_id st =
     (case fail_dependents_inner (Suc (length (tasks (st_db st)))) now failed_task_id (st_db st) of
        Some (d, Inr x) \<Rightarrow> (st\<lparr>st_db := d\<rparr>, Inr x)
      | Some (d, Inl e) \<Rightarrow> (st, Inl e)
      | None \<Rightarrow> (st, Inr ([], [])))"

section \<open>Edges\<close>

lemma pause_row_frame [simp]:
  "t_id (pause_row now b r) = t_id r" "t_key (pause_row now b r) = t_key r"
  "t_tags (pause_row now b r) = t_tags r" "t_dependencies (pause_row now b r) = t_dependencies r"
  "t_status (pause_row now b r) = Paused" "t_group_key (pause_row now b r) = t_group_key r"
  "t_on_dependency_failure (pause_row now b r) = t_on_dependency_failure r"
  "t_parent_id (pause_row now b r) = t_parent_id r" "t_priority (pause_row now b r) = t_priority r"
  "t_retry_count (pause_row now b r) = t_retry_count r"
  by (simp_all add: pause_row_def)

lemma has_edge_from_iff: "has_edge_from i d \<longleftrightarrow> i \<in> fst ` set (task_deps d)"
  by (force simp: has_edge_from_def sql_exists_iff)

lemma has_edge_from_frame [simp]:
  "has_edge_from i (upd_tasks p f d) = has_edge_from i d"
  "has_edge_from i (del_tasks p d) = has_edge_from i d"
  by (simp_all add: has_edge_from_def)

lemma group_is_paused_frame [simp]:
  "group_is_paused g (upd_tasks p f d) = group_is_paused g d"
  "group_is_paused g (del_deps q d) = group_is_paused g d"
  by (simp_all add: group_is_paused_def split: option.splits)

lemma dependents_of_iff: "i \<in> set (dependents_of j d) \<longleftrightarrow> (i, j) \<in> set (task_deps d)"
  by (force simp: dependents_of_def set_sql_select)

section \<open>Resolving dependents\<close>

lemma fold_pause_unblocked:
  "fold (pause_unblocked now) ids d
   = upd_tasks (\<lambda>r. t_id r \<in> set ids \<and> t_status r = Pending \<and> group_is_paused (t_group_key r) d)
       (pause_row now GROUP) d"
proof (induction ids arbitrary: d)
  case Nil
  then show ?case by (simp add: upd_tasks_def sql_update_def)
next
  case (Cons i ids)
  have g: "group_is_paused g (pause_unblocked now i d) = group_is_paused g d" for g
    by (simp add: pause_unblocked_def group_is_paused_def split: option.splits)
  have "sql_update (\<lambda>r. t_id r \<in> set ids \<and> t_status r = Pending \<and> group_is_paused (t_group_key r) d)
          (pause_row now GROUP)
          (sql_update (\<lambda>r. t_id r = i \<and> t_status r = Pending \<and> group_is_paused (t_group_key r) d)
            (pause_row now GROUP) (tasks d))
      = sql_update (\<lambda>r. t_id r \<in> set (i # ids) \<and> t_status r = Pending \<and> group_is_paused (t_group_key r) d)
          (pause_row now GROUP) (tasks d)"
    by (rule sql_update_comp) auto
  then show ?case
    by (simp add: Cons.IH g) (simp add: pause_unblocked_def upd_tasks_def)
qed

lemma resolve_is_batch: "resolve_dependents_inner now j d = batch_resolve now [j] d"
  by (simp add: resolve_dependents_inner_def batch_resolve_def dependents_of_def)

text \<open>What completed dependencies do to one task: a blocked task whose last edges they were
  becomes pending, or paused when its group is paused.\<close>

definition ready_after :: "int set \<Rightarrow> db \<Rightarrow> task_record \<Rightarrow> bool" where
  "ready_after J d r \<longleftrightarrow> t_status r = Blocked \<and> has_edge_from (t_id r) d
     \<and> (\<forall>k. (t_id r, k) \<in> set (task_deps d) \<longrightarrow> k \<in> J)"

definition release_row :: "timestamp \<Rightarrow> db \<Rightarrow> task_record \<Rightarrow> task_record" where
  "release_row now d r =
     (let r' = r\<lparr>t_status := Pending\<rparr>
      in if group_is_paused (t_group_key r) d then pause_row now GROUP r' else r')"

lemma has_edge_after_del:
  "has_edge_from i (del_deps (\<lambda>(_, dep). dep \<in> J) d) \<longleftrightarrow> (\<exists>k. (i, k) \<in> set (task_deps d) \<and> k \<notin> J)"
  by (force simp: has_edge_from_def sql_exists_iff set_sql_delete)

lemma resolve_unblock_iff:
  "t_status r = Blocked \<and> t_id r \<in> fst ` set (sql_select (\<lambda>(_, dep). dep \<in> J) (task_deps d))
     \<and> \<not> has_edge_from (t_id r) (del_deps (\<lambda>(_, dep). dep \<in> J) d) \<longleftrightarrow> ready_after J d r"
proof -
  have sel: "t_id r \<in> fst ` set (sql_select (\<lambda>(_, dep). dep \<in> J) (task_deps d))
      \<longleftrightarrow> (\<exists>k \<in> J. (t_id r, k) \<in> set (task_deps d))"
    by (force simp: set_sql_select)
  have edge: "has_edge_from (t_id r) d \<longleftrightarrow> (\<exists>k. (t_id r, k) \<in> set (task_deps d))"
    by (force simp: has_edge_from_iff)
  show ?thesis
    unfolding ready_after_def has_edge_after_del sel edge by auto
qed

lemma tasks_inj:
  "db_ok d \<Longrightarrow> r \<in> set (tasks d) \<Longrightarrow> s \<in> set (tasks d) \<Longrightarrow> t_id r = t_id s \<Longrightarrow> r = s"
  using task_table.rowids_distinct [of "tasks d"] by (auto simp: db_ok_def distinct_map inj_on_def)

lemma batch_resolve_eq:
  assumes "db_ok d"
  shows "batch_resolve now ids d =
    ((upd_tasks (ready_after (set ids) d) (release_row now d) d)
       \<lparr>task_deps := sql_delete (\<lambda>(_, dep). dep \<in> set ids) (task_deps d)\<rparr>,
     map t_id (sql_select (ready_after (set ids) d) (tasks d)))"
proof -
  let ?R = "ready_after (set ids) d"
  let ?d1 = "del_deps (\<lambda>(_, dep). dep \<in> set ids) d"
  let ?d2 = "upd_tasks ?R (\<lambda>r. r\<lparr>t_status := Pending\<rparr>) ?d1"
  let ?ids = "map t_id (sql_select ?R (tasks d))"
  have ids: "t_id r \<in> set ?ids \<longleftrightarrow> ?R r" if "r \<in> set (tasks d)" for r
    using that tasks_inj [OF assms] by (auto simp: set_sql_select)
  have "sql_update (\<lambda>r. t_id r \<in> set ?ids \<and> t_status r = Pending \<and> group_is_paused (t_group_key r) ?d2)
      (pause_row now GROUP) (tasks ?d2) = sql_update ?R (release_row now d) (tasks d)"
    unfolding upd_tasks_frame del_deps_frame
  proof (rule sql_update_comp)
    fix r assume "r \<in> set (tasks d)"
    note ids [OF this]
    then show "(if t_id (if ?R r then r\<lparr>t_status := Pending\<rparr> else r) \<in> set ?ids
          \<and> t_status (if ?R r then r\<lparr>t_status := Pending\<rparr> else r) = Pending
          \<and> group_is_paused (t_group_key (if ?R r then r\<lparr>t_status := Pending\<rparr> else r)) ?d2
        then pause_row now GROUP (if ?R r then r\<lparr>t_status := Pending\<rparr> else r)
        else if ?R r then r\<lparr>t_status := Pending\<rparr> else r) = (if ?R r then release_row now d r else r)"
      by (auto simp: release_row_def Let_def)
  qed
  then have run: "fold (pause_unblocked now) ?ids ?d2 = (upd_tasks ?R (release_row now d) d)
            \<lparr>task_deps := sql_delete (\<lambda>(_, dep). dep \<in> set ids) (task_deps d)\<rparr>"
    unfolding fold_pause_unblocked by (simp add: upd_tasks_def del_deps_def)
  have none: "\<not> ?R r" if "sql_select (\<lambda>(_, dep). dep \<in> set ids) (task_deps d) = []" for r
    using that by (simp flip: resolve_unblock_iff)
  show ?thesis
  proof (cases "sql_select (\<lambda>(_, dep). dep \<in> set ids) (task_deps d) = []")
    case True
    with none show ?thesis
      by (simp add: batch_resolve_def upd_tasks_def del_deps_def sql_update_def sql_select_def)
  next
    case False
    with run show ?thesis
      unfolding batch_resolve_def Let_def set_map resolve_unblock_iff by simp
  qed
qed

section \<open>Failing dependents: termination and invariants\<close>

lemma ignore_frame [simp]:
  "task_deps (fst (ignore_failed_dependency now i d)) = task_deps d"
  "history (fst (ignore_failed_dependency now i d)) = history d"
  "paused_groups (fst (ignore_failed_dependency now i d)) = paused_groups d"
  "length (tasks (fst (ignore_failed_dependency now i d))) = length (tasks d)"
  by (simp_all add: ignore_failed_dependency_def pause_unblocked_def Let_def)

lemma remove_failed_tables:
  assumes "remove_failed_dependent now f task d = (d', Inr u)"
  shows "tasks d' = sql_delete (\<lambda>r. t_id r = t_id task) (tasks d)"
    and "task_deps d' = sql_delete (\<lambda>(t, _). t = t_id task) (task_deps d)"
    and "\<exists>h. history d' = history d @ [h] \<and> h_status h = HDependencyFailed \<and> h_key h = t_key task"
proof -
  let ?ins = "insert_history now task HDependencyFailed io_default None
      (Some (''dependency task '' @ show_int f @ '' failed'')) False d"
  have d': "d' = del_tasks (\<lambda>r. t_id r = t_id task)
      (delete_task_tags (t_id task) (del_deps (\<lambda>(t, _). t = t_id task) (fst ?ins)))"
    using assms by (auto simp: remove_failed_dependent_def andThen_def split: prod.splits sum.splits)
  show "tasks d' = sql_delete (\<lambda>r. t_id r = t_id task) (tasks d)"
    and "task_deps d' = sql_delete (\<lambda>(t, _). t = t_id task) (task_deps d)"
    by (simp_all add: d')
  show "\<exists>h. history d' = history d @ [h] \<and> h_status h = HDependencyFailed \<and> h_key h = t_key task"
    by (simp add: d' insert_history_rows history_row_def)
qed

lemma task_by_rowid_in: "task_by_rowid i d = Some r \<Longrightarrow> r \<in> set (tasks d) \<and> t_id r = i"
  by (auto simp: task_by_rowid_def sql_lookup_def find_Some_iff)

lemma task_by_rowid_None: "task_by_rowid i d = None \<longleftrightarrow> i \<notin> t_id ` set (tasks d)"
  by (simp add: task_by_rowid_def task_table.lookup_None)

lemma remove_failed_shrinks:
  assumes "task_by_rowid i d = Some task" and "remove_failed_dependent now f task d = (d', Inr u)"
  shows "length (tasks d') < length (tasks d)"
  using assms task_by_rowid_in [OF assms(1)]
  by (auto simp: remove_failed_tables sql_delete_def intro: length_filter_less)

lemma remove_failed_tasks_le:
  "length (tasks (fst (remove_failed_dependent now f task d))) \<le> length (tasks d)"
proof -
  have "keeps (\<lambda>x. length (tasks x) \<le> length (tasks d)) (remove_failed_dependent now f task)"
    unfolding remove_failed_dependent_def
    by (rule keeps_andThen)
       (auto simp: keeps_def sql_delete_def intro: le_trans [OF length_filter_le])
  from keepsD [OF this, of d] show ?thesis by simp
qed

text \<open>The branches of the loop body, for a loop that returns.\<close>

lemma fail_each_ConsE [consumes 1, case_names none ign rem_err sub_err rem]:
  assumes run: "fail_each n now f (dep # rest) fs us d = Some (d', x)"
  obtains "task_by_rowid dep d = None" "fail_each n now f rest fs us d = Some (d', x)"
  | task where "task_by_rowid dep d = Some task" "t_on_dependency_failure task = Ignore"
      "fail_each n now f rest fs (if snd (ignore_failed_dependency now dep d) then us @ [dep] else us)
         (fst (ignore_failed_dependency now dep d)) = Some (d', x)"
  | task e where "task_by_rowid dep d = Some task" "t_on_dependency_failure task \<noteq> Ignore"
      "remove_failed_dependent now f task d = (d', Inl e)" "x = Inl e"
  | task d1 e where "task_by_rowid dep d = Some task" "t_on_dependency_failure task \<noteq> Ignore"
      "remove_failed_dependent now f task d = (d1, Inr ())"
      "fail_dependents_inner n now dep d1 = Some (d', Inl e)" "x = Inl e"
  | task d1 d2 sf su where "task_by_rowid dep d = Some task" "t_on_dependency_failure task \<noteq> Ignore"
      "remove_failed_dependent now f task d = (d1, Inr ())"
      "fail_dependents_inner n now dep d1 = Some (d2, Inr (sf, su))"
      "fail_each n now f rest (fs @ [dep] @ sf) (us @ su) d2 = Some (d', x)"
proof (cases "task_by_rowid dep d")
  case None
  with run that(1) show ?thesis by simp
next
  case task: (Some task)
  show ?thesis
  proof (cases "t_on_dependency_failure task = Ignore")
    case True
    with run task that(2) show ?thesis by (simp split: prod.splits)
  next
    case False
    obtain d1 y where r: "remove_failed_dependent now f task d = (d1, y)" by force
    have body: "(case y of Inl e \<Rightarrow> Some (d1, Inl e)
        | Inr _ \<Rightarrow> (case fail_dependents_inner n now dep d1 of
             None \<Rightarrow> None
           | Some (d2, Inl e) \<Rightarrow> Some (d2, Inl e)
           | Some (d2, Inr (sf, su)) \<Rightarrow> fail_each n now f rest (fs @ [dep] @ sf) (us @ su) d2))
        = Some (d', x)"
      using run task False r by (cases "t_on_dependency_failure task") auto
    then show ?thesis
      using that(3) [OF task False] that(4) [OF task False] that(5) [OF task False] r
      by (cases y) (auto split: option.splits prod.splits sum.splits)
  qed
qed

text \<open>Rule induction over a cascade that returns: one case per branch of the loop.\<close>

lemma fail_cascade_induct:
  assumes inner: "\<And>f d d' x. B f (dependents_of f d) [] [] (del_deps (\<lambda>(_, dep). dep = f) d) d' x \<Longrightarrow> A f d d' x"
    and nil: "\<And>f fs us d. B f [] fs us d d (Inr (fs, us))"
    and none: "\<And>f dep rest fs us d d' x. task_by_rowid dep d = None \<Longrightarrow> B f rest fs us d d' x
        \<Longrightarrow> B f (dep # rest) fs us d d' x"
    and ign: "\<And>f dep rest fs us d d' x task. task_by_rowid dep d = Some task
        \<Longrightarrow> t_on_dependency_failure task = Ignore
        \<Longrightarrow> B f rest fs (if snd (ignore_failed_dependency now dep d) then us @ [dep] else us)
              (fst (ignore_failed_dependency now dep d)) d' x
        \<Longrightarrow> B f (dep # rest) fs us d d' x"
    and rem_err: "\<And>f dep rest fs us d d' task e. task_by_rowid dep d = Some task
        \<Longrightarrow> t_on_dependency_failure task \<noteq> Ignore
        \<Longrightarrow> remove_failed_dependent now f task d = (d', Inl e) \<Longrightarrow> B f (dep # rest) fs us d d' (Inl e)"
    and sub_err: "\<And>f dep rest fs us d d1 d' task e. task_by_rowid dep d = Some task
        \<Longrightarrow> t_on_dependency_failure task \<noteq> Ignore
        \<Longrightarrow> remove_failed_dependent now f task d = (d1, Inr ()) \<Longrightarrow> A dep d1 d' (Inl e)
        \<Longrightarrow> B f (dep # rest) fs us d d' (Inl e)"
    and rem: "\<And>f dep rest fs us d d1 d2 d' x task sf su. task_by_rowid dep d = Some task
        \<Longrightarrow> t_on_dependency_failure task \<noteq> Ignore
        \<Longrightarrow> remove_failed_dependent now f task d = (d1, Inr ()) \<Longrightarrow> A dep d1 d2 (Inr (sf, su))
        \<Longrightarrow> B f rest (fs @ [dep] @ sf) (us @ su) d2 d' x \<Longrightarrow> B f (dep # rest) fs us d d' x"
  shows "fail_dependents_inner n now f d = Some (d', x) \<Longrightarrow> A f d d' x"
    and "fail_each n now f deps fs us d = Some (d', x) \<Longrightarrow> B f deps fs us d d' x"
proof -
  have each: "fail_each n now f deps fs us d = Some (d', x) \<Longrightarrow> B f deps fs us d d' x"
    if sub: "\<And>f d d' x. fail_dependents_inner n now f d = Some (d', x) \<Longrightarrow> A f d d' x"
    for n f deps fs us d d' x
  proof (induction deps arbitrary: fs us d)
    case Nil
    then show ?case using nil by auto
  next
    case (Cons dep rest)
    from Cons.prems show ?case
    proof (cases rule: fail_each_ConsE)
      case none
      then show ?thesis using Cons.IH assms(3) by blast
    next
      case (ign task)
      then show ?thesis using Cons.IH assms(4) by blast
    next
      case (rem_err task e)
      then show ?thesis using assms(5) by blast
    next
      case (sub_err task d1 e)
      then show ?thesis using sub assms(6) by blast
    next
      case (rem task d1 d2 sf su)
      then show ?thesis using sub Cons.IH assms(7) by blast
    qed
  qed
  have A: "fail_dependents_inner n now f d = Some (d', x) \<Longrightarrow> A f d d' x" for n f d d' x
  proof (induction n arbitrary: f d d' x)
    case (Suc n)
    then show ?case using each [OF Suc.IH] inner by simp
  qed simp
  show "fail_dependents_inner n now f d = Some (d', x) \<Longrightarrow> A f d d' x" by (rule A)
  show "fail_each n now f deps fs us d = Some (d', x) \<Longrightarrow> B f deps fs us d d' x"
    by (rule each [OF A])
qed

text \<open>An invariant of the three primitive steps is an invariant of the whole cascade.\<close>

lemma fail_dependents_keeps:
  assumes "\<And>p d. Q d \<Longrightarrow> Q (del_deps p d)"
    and "\<And>i d. Q d \<Longrightarrow> Q (fst (ignore_failed_dependency now i d))"
    and "\<And>f task d. Q d \<Longrightarrow> Q (fst (remove_failed_dependent now f task d))"
    and "fail_dependents_inner n now f d = Some (d', x)"
  shows "Q d \<Longrightarrow> Q d'"
  by (rule fail_cascade_induct(1) [where A = "\<lambda>f d d' x. Q d \<longrightarrow> Q d'"
        and B = "\<lambda>f deps fs us d d' x. Q d \<longrightarrow> Q d'", OF _ _ _ _ _ _ _ assms(4), THEN mp])
     (use assms in \<open>auto; metis fst_conv\<close>)+


lemma fail_inner_tasks_le:
  assumes "fail_dependents_inner n now f d = Some (d', x)"
  shows "length (tasks d') \<le> length (tasks d)"
proof -
  have "length (tasks d) \<le> length (tasks d) \<Longrightarrow> length (tasks d') \<le> length (tasks d)"
    by (rule fail_dependents_keeps [where Q = "\<lambda>y. length (tasks y) \<le> length (tasks d)", OF _ _ _ assms])
       (auto intro: le_trans [OF remove_failed_tasks_le])
  then show ?thesis by simp
qed

lemma fail_each_total:
  assumes sub: "\<And>f d. length (tasks d) < n \<Longrightarrow> \<exists>y. fail_dependents_inner n now f d = Some y"
  shows "length (tasks d) \<le> n \<Longrightarrow> \<exists>y. fail_each n now f deps fs us d = Some y"
proof (induction deps arbitrary: fs us d)
  case (Cons dep rest)
  show ?case
  proof (cases "task_by_rowid dep d")
    case None
    with Cons show ?thesis by simp
  next
    case task: (Some task)
    obtain d1 y where r: "remove_failed_dependent now f task d = (d1, y)" by force
    have step: "\<exists>w. fail_each n now f rest fs' us' d2 = Some w"
      if "y = Inr u" and "fail_dependents_inner n now dep d1 = Some (d2, z)" for u d2 z fs' us'
    proof (rule Cons.IH)
      have "length (tasks d2) \<le> length (tasks d1)" using that(2) by (rule fail_inner_tasks_le)
      also have "\<dots> < length (tasks d)" using remove_failed_shrinks [OF task] r that(1) by blast
      also have "\<dots> \<le> n" by (rule Cons.prems)
      finally show "length (tasks d2) \<le> n" by simp
    qed
    have "\<exists>w. fail_dependents_inner n now dep d1 = Some w" if "y = Inr u" for u
      using sub remove_failed_shrinks [OF task] r that Cons.prems by (meson less_le_trans)
    moreover have "\<exists>w. fail_each n now f rest fs us' (fst (ignore_failed_dependency now dep d)) = Some w"
      for us' using Cons by simp
    ultimately show ?thesis
      using step r task
      by (cases "t_on_dependency_failure task"; cases y)
         (auto simp: case_prod_beta split: sum.splits option.splits)
  qed
qed simp

lemma fail_dependents_total:
  "length (tasks d) < n \<Longrightarrow> \<exists>y. fail_dependents_inner n now f d = Some y"
proof (induction n arbitrary: f d)
  case (Suc n)
  then show ?case using fail_each_total [of n now] by simp
qed simp

lemma db_ok_ignore: "db_ok d \<Longrightarrow> db_ok (fst (ignore_failed_dependency now i d))"
  by (auto simp: ignore_failed_dependency_def pause_unblocked_def Let_def intro!: db_ok_upd_tasks)

lemma keeps_remove_failed: "keeps db_ok (remove_failed_dependent now f task)"
  unfolding remove_failed_dependent_def by (auto intro!: wf_intros)

lemma db_ok_fail_dependents_inner:
  "fail_dependents_inner n now f d = Some (d', x) \<Longrightarrow> db_ok d \<Longrightarrow> db_ok d'"
  by (rule fail_dependents_keeps) (auto intro: db_ok_del_deps db_ok_ignore keepsD [OF keeps_remove_failed])

lemma db_ok_batch_resolve: "db_ok d \<Longrightarrow> db_ok (fst (batch_resolve now ids d))"
  by (auto simp: batch_resolve_def fold_pause_unblocked Let_def intro!: db_ok_upd_tasks db_ok_del_deps)

section \<open>No blocked task without a dependency\<close>

definition blocked_ok_except :: "int set \<Rightarrow> db \<Rightarrow> bool" where
  "blocked_ok_except X d \<longleftrightarrow>
     (\<forall>r \<in> set (tasks d). t_status r = Blocked \<longrightarrow> t_id r \<in> X \<or> has_edge_from (t_id r) d)"

definition blocked_ok :: "db \<Rightarrow> bool" where
  "blocked_ok d \<longleftrightarrow> (\<forall>r \<in> set (tasks d). t_status r = Blocked \<longrightarrow> has_edge_from (t_id r) d)"

lemma blocked_ok_empty: "blocked_ok d \<longleftrightarrow> blocked_ok_except {} d"
  by (simp add: blocked_ok_def blocked_ok_except_def)

lemma blocked_del_edges_to:
  assumes "blocked_ok_except X d"
  shows "blocked_ok_except (X \<union> fst ` set (sql_select (\<lambda>(_, dep). dep \<in> J) (task_deps d)))
    (del_deps (\<lambda>(_, dep). dep \<in> J) d)"
  unfolding blocked_ok_except_def has_edge_after_del
proof (intro ballI impI)
  fix r assume r: "r \<in> set (tasks (del_deps (\<lambda>(_, dep). dep \<in> J) d))" "t_status r = Blocked"
  then have "t_id r \<in> X \<or> (\<exists>k. (t_id r, k) \<in> set (task_deps d))"
    using assms by (force simp: blocked_ok_except_def has_edge_from_iff)
  then show "t_id r \<in> X \<union> fst ` set (sql_select (\<lambda>(_, dep). dep \<in> J) (task_deps d))
      \<or> (\<exists>k. (t_id r, k) \<in> set (task_deps d) \<and> k \<notin> J)"
    by (force simp: set_sql_select)
qed

lemma blocked_del_edges_to_one:
  "blocked_ok_except X d \<Longrightarrow>
   blocked_ok_except (X \<union> set (dependents_of f d)) (del_deps (\<lambda>(_, dep). dep = f) d)"
  using blocked_del_edges_to [of X d "{f}"] by (simp add: dependents_of_def)

lemma blocked_ignore:
  "blocked_ok_except (insert i X) d \<Longrightarrow> blocked_ok_except X (fst (ignore_failed_dependency now i d))"
  by (auto simp: ignore_failed_dependency_def pause_unblocked_def Let_def blocked_ok_except_def
      set_sql_update sql_exists_iff)

lemma blocked_remove_failed:
  assumes "blocked_ok_except (insert (t_id task) X) d"
    and "remove_failed_dependent now f task d = (d', Inr u)"
  shows "blocked_ok_except X d'"
  using assms(1)
  by (fastforce simp: blocked_ok_except_def has_edge_from_iff remove_failed_tables [OF assms(2)]
      set_sql_delete image_iff)

lemma blocked_missing:
  "task_by_rowid i d = None \<Longrightarrow> blocked_ok_except (insert i X) d \<Longrightarrow> blocked_ok_except X d"
  by (auto simp: blocked_ok_except_def task_by_rowid_None)

lemma blocked_fail_dependents_inner:
  assumes "fail_dependents_inner n now f d = Some (d', Inr y)" and "blocked_ok_except X d"
  shows "blocked_ok_except X d'"
proof -
  let ?A = "\<lambda>d d' (x :: store_error + int list \<times> int list). isl x \<or> (\<forall>X. blocked_ok_except X d \<longrightarrow> blocked_ok_except X d')"
  let ?B = "\<lambda>deps d d' (x :: store_error + int list \<times> int list). isl x \<or> (\<forall>X. blocked_ok_except (X \<union> set deps) d \<longrightarrow> blocked_ok_except X d')"
  have "?A d d' (Inr y)"
  proof (rule fail_cascade_induct(1) [where A = "\<lambda>f. ?A" and B = "\<lambda>f deps fs us. ?B deps",
        OF _ _ _ _ _ _ _ assms(1)])
    fix f d d' and x :: "store_error + int list \<times> int list"
    assume "?B (dependents_of f d) (del_deps (\<lambda>(_, dep). dep = f) d) d' x"
    then show "?A d d' x" using blocked_del_edges_to_one by blast
  next
    fix dep rest d d' and x :: "store_error + int list \<times> int list"
    assume "task_by_rowid dep d = None" and "?B rest d d' x"
    then show "?B (dep # rest) d d' x" using blocked_missing by fastforce
  next
    fix dep rest d d' and x :: "store_error + int list \<times> int list"
    assume "?B rest (fst (ignore_failed_dependency now dep d)) d' x"
    then show "?B (dep # rest) d d' x" using blocked_ignore by fastforce
  next
    fix f dep rest d d1 d2 d' task and x :: "store_error + int list \<times> int list" and sf su :: "int list"
    assume "task_by_rowid dep d = Some task" and "remove_failed_dependent now f task d = (d1, Inr ())"
      and "?A d1 d2 (Inr (sf, su))" and "?B rest d2 d' x"
    then show "?B (dep # rest) d d' x" using blocked_remove_failed task_by_rowid_in by fastforce
  qed auto
  then show ?thesis using assms(2) by simp
qed

end
