(* ===== verification/Submit_Deps.thy ===== *)
theory Submit_Deps
  imports Store_Deps
begin

text \<open>
  Dependencies at submission time: \<open>src/src/store/submit/dependencies.rs\<close>. The recursive
  common table expression of \<open>detect_cycle\<close> is a work list over the edges that keeps
  every row once (\<open>UNION\<close>); it computes the reflexive transitive closure.
\<close>

section \<open>Edges of a new task\<close>

fun check_history ::
    "history_record list \<Rightarrow> dependency_failure_policy \<Rightarrow> int list \<Rightarrow> store_error + int list" where
  "check_history hs policy [] = Inr []"
| "check_history hs policy (dep_id # deps) =
     (case sql_lookup h_id dep_id hs of
        Some h \<Rightarrow>
          if h_status h = HCompleted \<or> policy = Ignore then check_history hs policy deps
          else Inl (DependencyFailed dep_id)
      | None \<Rightarrow>
          (case check_history hs policy deps of
             Inl e \<Rightarrow> Inl e
           | Inr need \<Rightarrow> Inr (dep_id # need)))"

fun check_active :: "task_record list \<Rightarrow> int list \<Rightarrow> store_error + int list" where
  "check_active ts [] = Inr []"
| "check_active ts (dep_id # deps) =
     (if sql_exists (\<lambda>r. t_id r = dep_id) ts
      then case check_active ts deps of Inl e \<Rightarrow> Inl e | Inr act \<Rightarrow> Inr (dep_id # act)
      else Inl (InvalidDependency dep_id))"

definition insert_edges :: "int \<Rightarrow> int list \<Rightarrow> unit db_stmt" where
  "insert_edges task_id deps d =
     (let new = map (Pair task_id) deps
      in if \<not> distinct new \<or> sql_exists (\<lambda>e. e \<in> set new) (task_deps d)
         then (d, Inl (unique_violation ''task_deps.task_id, task_deps.depends_on_id''))
         else (d\<lparr>task_deps := task_deps d @ new\<rparr>, Inr ()))"

definition resolve_dependency_edges ::
    "int \<Rightarrow> int list \<Rightarrow> dependency_failure_policy \<Rightarrow> (int list \<times> task_status) db_stmt" where
  "resolve_dependency_edges task_id deps policy d =
     (if deps = [] then (d, Inr ([], Pending))
      else case check_history (history d) policy deps of
             Inl e \<Rightarrow> (d, Inl e)
           | Inr need_active_check \<Rightarrow>
               if need_active_check = [] then (d, Inr ([], Pending))
               else (case check_active (tasks d) need_active_check of
                       Inl e \<Rightarrow> (d, Inl e)
                     | Inr active_deps \<Rightarrow>
                         if active_deps = [] then (d, Inr ([], Pending))
                         else andThen (insert_edges task_id active_deps)
                                (\<lambda>_. ok (active_deps, Blocked)) d))"

section \<open>Cycle detection\<close>

definition cte_new :: "(int \<times> int) list \<Rightarrow> int list \<Rightarrow> int \<Rightarrow> int list" where
  "cte_new edges seen x =
     remdups (filter (\<lambda>y. y \<notin> set seen) (map snd (filter (\<lambda>(t, _). t = x) edges)))"

lemma set_cte_new: "set (cte_new edges seen x) = {y. (x, y) \<in> set edges \<and> y \<notin> set seen}"
  by (force simp: cte_new_def)

function ancestors :: "(int \<times> int) list \<Rightarrow> int list \<Rightarrow> int list \<Rightarrow> int list" where
  "ancestors edges seen [] = seen"
| "ancestors edges seen (x # queue) =
     (let new = cte_new edges seen x in ancestors edges (seen @ new) (queue @ new))"
  by pat_completeness auto

termination
proof (relation "inv_image (less_than <*lex*> less_than)
    (\<lambda>(edges, seen, queue). (card (snd ` set edges - set seen), length queue))")
  fix edges :: "(int \<times> int) list" and seen x queue new
  assume new: "new = cte_new edges seen x"
  let ?N = "snd ` set edges"
  show "((edges, seen @ new, queue @ new), (edges, seen, x # queue))
    \<in> inv_image (less_than <*lex*> less_than)
        (\<lambda>(edges, seen, queue). (card (snd ` set edges - set seen), length queue))"
  proof (cases "new = []")
    case False
    then obtain y where "y \<in> set new" by (cases new) auto
    then have y: "y \<in> ?N - set seen" "y \<notin> ?N - set (seen @ new)"
      using new by (force simp: set_cte_new)+
    have "card (?N - set (seen @ new)) < card (?N - set seen)"
      by (rule psubset_card_mono) (use y in auto)
    then show ?thesis by simp
  qed simp
qed (simp add: wf_inv_image wf_lex_prod)

definition detect_cycle :: "int \<Rightarrow> int list \<Rightarrow> unit db_stmt" where
  "detect_cycle new_task_id deps d =
     (if deps = [] then (d, Inr ())
      else if new_task_id \<in> set (ancestors (task_deps d) (remdups deps) (remdups deps))
           then (d, Inl CyclicDependency) else (d, Inr ()))"

section \<open>Correctness of the closure\<close>

lemma ancestors_sound:
  "set queue \<subseteq> set seen \<Longrightarrow> set (ancestors edges seen queue) \<subseteq> (set edges)\<^sup>* `` set seen"
proof (induction edges seen queue rule: ancestors.induct)
  case (2 edges seen x queue)
  let ?new = "cte_new edges seen x"
  have "set ?new \<subseteq> (set edges)\<^sup>* `` set seen"
    using 2(2) by (auto simp: set_cte_new)
  then have "(set edges)\<^sup>* `` set (seen @ ?new) \<subseteq> (set edges)\<^sup>* `` set seen"
    by (auto intro: rtrancl_trans)
  moreover have "set (ancestors edges (seen @ ?new) (queue @ ?new)) \<subseteq> (set edges)\<^sup>* `` set (seen @ ?new)"
    using 2(2) by (intro 2(1)) auto
  ultimately show ?case by (simp add: Let_def)
qed auto

lemma ancestors_closed:
  assumes "\<forall>x \<in> set seen - set queue. \<forall>y. (x, y) \<in> set edges \<longrightarrow> y \<in> set seen"
  shows "set seen \<subseteq> set (ancestors edges seen queue)
    \<and> (\<forall>x \<in> set (ancestors edges seen queue). \<forall>y. (x, y) \<in> set edges \<longrightarrow> y \<in> set (ancestors edges seen queue))"
  using assms
proof (induction edges seen queue rule: ancestors.induct)
  case (2 edges seen x queue)
  have "\<forall>z \<in> set (seen @ cte_new edges seen x) - set (queue @ cte_new edges seen x).
      \<forall>y. (z, y) \<in> set edges \<longrightarrow> y \<in> set (seen @ cte_new edges seen x)"
  proof (intro ballI allI impI)
    fix z y
    assume z: "z \<in> set (seen @ cte_new edges seen x) - set (queue @ cte_new edges seen x)"
      and zy: "(z, y) \<in> set edges"
    show "y \<in> set (seen @ cte_new edges seen x)"
    proof (cases "z = x")
      case True
      with zy show ?thesis by (simp add: set_cte_new)
    next
      case False
      with z have "z \<in> set seen - set (x # queue)" by auto
      then have "y \<in> set seen" using 2(2) zy by blast
      then show ?thesis by simp
    qed
  qed
  note IH = 2(1) [OF refl this]
  have step: "ancestors edges seen (x # queue)
      = ancestors edges (seen @ cte_new edges seen x) (queue @ cte_new edges seen x)"
    by (simp add: Let_def)
  show ?case unfolding step
    by (intro conjI) (use IH in \<open>simp, blast\<close>)
qed auto

lemma ancestors_closure:
  "set (ancestors edges (remdups deps) (remdups deps)) = (set edges)\<^sup>* `` set deps"
proof
  show "set (ancestors edges (remdups deps) (remdups deps)) \<subseteq> (set edges)\<^sup>* `` set deps"
    using ancestors_sound [of "remdups deps" "remdups deps" edges] by simp
  let ?A = "set (ancestors edges (remdups deps) (remdups deps))"
  have closed: "set deps \<subseteq> ?A" "\<And>x y. x \<in> ?A \<Longrightarrow> (x, y) \<in> set edges \<Longrightarrow> y \<in> ?A"
    using ancestors_closed [of "remdups deps" "remdups deps" edges] by auto
  show "(set edges)\<^sup>* `` set deps \<subseteq> ?A"
  proof
    fix y assume "y \<in> (set edges)\<^sup>* `` set deps"
    then obtain x where "(x, y) \<in> (set edges)\<^sup>*" "x \<in> set deps" by auto
    then show "y \<in> ?A" by (induction rule: rtrancl_induct) (use closed in auto)
  qed
qed

lemma detect_cycle_iff:
  "snd (detect_cycle i deps d) = Inr () \<longleftrightarrow> (\<forall>j \<in> set deps. (j, i) \<notin> (set (task_deps d))\<^sup>*)"
  by (auto simp: detect_cycle_def ancestors_closure)

lemma detect_cycle_state [simp]: "fst (detect_cycle i deps d) = d"
  by (simp add: detect_cycle_def)

text \<open>Acyclicity of the dependency graph.\<close>

definition deps_acyclic :: "db \<Rightarrow> bool" where
  "deps_acyclic d \<longleftrightarrow> acyclic (set (task_deps d))"

lemma acyclic_add_checked:
  assumes "acyclic E" and "finite J" and chk: "\<forall>j \<in> J. (j, i) \<notin> (E \<union> {i} \<times> J)\<^sup>*"
  shows "acyclic (E \<union> {i} \<times> J)"
proof -
  have step: "acyclic (insert (i, j) F)" if "acyclic F" "F \<subseteq> E \<union> {i} \<times> J" "j \<in> J" for F j
    using that chk rtrancl_mono [OF that(2)] by (auto simp: acyclic_insert)
  have "acyclic (E \<union> {i} \<times> K)" if "finite K" "K \<subseteq> J" for K
    using that
  proof (induction rule: finite_induct)
    case (insert k K)
    have "acyclic (insert (i, k) (E \<union> {i} \<times> K))"
      using insert by (intro step) auto
    moreover have "E \<union> {i} \<times> insert k K = insert (i, k) (E \<union> {i} \<times> K)" by auto
    ultimately show ?case by simp
  qed (simp add: assms(1))
  then show ?thesis using assms(2) by simp
qed

lemma check_active_ids:
  "check_active ts deps = Inr act \<Longrightarrow> act = deps \<and> set deps \<subseteq> t_id ` set ts"
  by (induction ts deps arbitrary: act rule: check_active.induct)
     (auto simp: sql_exists_iff split: if_splits sum.splits)

lemma check_history_subset: "check_history hs policy deps = Inr need \<Longrightarrow> set need \<subseteq> set deps"
  by (induction hs policy deps arbitrary: need rule: check_history.induct)
     (auto split: if_splits sum.splits option.splits)

text \<open>On success the new edges go from the new task to exactly the dependencies that are
  not in history, which are all active, and the new status is blocked exactly when there
  are such edges.\<close>

lemma resolve_edges_result:
  assumes "resolve_dependency_edges i deps policy d = (d', Inr (act, status))"
  shows "d' = d\<lparr>task_deps := task_deps d @ map (Pair i) act\<rparr>"
    and "status = (if act = [] then Pending else Blocked)"
    and "set act \<subseteq> t_id ` set (tasks d) \<inter> set deps"
    and "distinct (map (Pair i) act) \<and> set (task_deps d) \<inter> set (map (Pair i) act) = {}"
proof -
  have cases: "d' = d \<and> act = [] \<and> status = Pending
      \<or> status = Blocked \<and> act \<noteq> [] \<and> insert_edges i act d = (d', Inr ())
        \<and> (\<exists>need. check_history (history d) policy deps = Inr need \<and> check_active (tasks d) need = Inr act)"
    using assms
    by (auto simp: resolve_dependency_edges_def andThen_def split: if_splits sum.splits prod.splits)
  have ins: "d' = d\<lparr>task_deps := task_deps d @ map (Pair i) act\<rparr> \<and> distinct (map (Pair i) act)
      \<and> set (task_deps d) \<inter> set (map (Pair i) act) = {}" if "insert_edges i act d = (d', Inr ())"
    using that by (auto simp: insert_edges_def Let_def sql_exists_iff split: if_splits)
  show "d' = d\<lparr>task_deps := task_deps d @ map (Pair i) act\<rparr>"
    using cases ins by auto
  show "status = (if act = [] then Pending else Blocked)"
    using cases by auto
  show "set act \<subseteq> t_id ` set (tasks d) \<inter> set deps"
    using cases check_active_ids [of "tasks d"] check_history_subset [of "history d" policy deps]
    by (metis Int_subset_iff empty_subsetI set_empty2)
  show "distinct (map (Pair i) act) \<and> set (task_deps d) \<inter> set (map (Pair i) act) = {}"
    using cases ins by auto
qed

lemma resolve_edges_error:
  "resolve_dependency_edges i deps policy d = (d', Inl e) \<Longrightarrow> d' = d"
  by (auto simp: resolve_dependency_edges_def andThen_def insert_edges_def Let_def
      split: if_splits sum.splits)

lemma resolve_edges_state:
  "\<exists>act. fst (resolve_dependency_edges i deps policy d) = d\<lparr>task_deps := task_deps d @ map (Pair i) act\<rparr>
     \<and> distinct (map (Pair i) act) \<and> set (task_deps d) \<inter> set (map (Pair i) act) = {}"
proof -
  obtain d' r where run: "resolve_dependency_edges i deps policy d = (d', r)" by force
  show ?thesis
  proof (cases r)
    case (Inl e)
    with run resolve_edges_error [of i deps policy d d' e] show ?thesis
      by (intro exI [of _ "[]"]) simp
  next
    case (Inr x)
    obtain act status where "x = (act, status)" by force
    with run Inr resolve_edges_result [of i deps policy d d' act status] show ?thesis by auto
  qed
qed

lemma keeps_resolve_edges [wf_intros]: "keeps db_ok (resolve_dependency_edges i deps policy)"
proof (rule keepsI)
  fix d assume "db_ok d"
  then show "db_ok (fst (resolve_dependency_edges i deps policy d))"
    using resolve_edges_state [of i deps policy d] by (auto simp: db_ok_def)
qed

lemma keeps_detect_cycle [wf_intros]: "keeps P (detect_cycle i deps)"
  by (simp add: keeps_def)

end
