(* ===== verification/Store_Submit.thy ===== *)
theory Store_Submit
  imports Submit_Deps
begin

text \<open>
  Submission: \<open>src/src/store/submit/mod.rs\<close> and \<open>src/src/store/submit/dedup.rs\<close>.

  \<open>submit_one\<close> runs on an open connection and also sets the store's fast-path flags, so
  it is a statement on the whole \<open>task_store\<close>; a transaction that is rolled back
  restores the tables but not the flags, as in the source. \<open>submit\<close> is the path of a
  caller that becomes the leader; the messages it finds in the channel are its
  argument \<open>stranded\<close>. \<open>sha256_hex\<close> is the digest used for dedup keys.
\<close>

section \<open>Validation and new rows\<close>

fun validate_tag_entries :: "(string, string) assoc \<Rightarrow> store_error + unit" where
  "validate_tag_entries [] = Inr ()"
| "validate_tag_entries ((k, v) # tags) =
     (if length k > MAX_TAG_KEY_LEN
      then Inl (InvalidTag (''tag key too long: '' @ nat_digits (length k) @ '' > '' @ nat_digits MAX_TAG_KEY_LEN))
      else if length v > MAX_TAG_VALUE_LEN
      then Inl (InvalidTag (''tag value too long: '' @ nat_digits (length v) @ '' > '' @ nat_digits MAX_TAG_VALUE_LEN))
      else validate_tag_entries tags)"

definition validate_tags :: "(string, string) assoc \<Rightarrow> store_error + unit" where
  "validate_tags tags =
     (if length tags > MAX_TAGS_PER_TASK
      then Inl (InvalidTag (''too many tags: '' @ nat_digits (length tags) @ '' > '' @ nat_digits MAX_TAGS_PER_TASK))
      else validate_tag_entries tags)"

definition ttl_expires_at :: "timestamp \<Rightarrow> task_submission \<Rightarrow> timestamp option" where
  "ttl_expires_at now sub =
     (case (sub_ttl sub, sub_ttl_from sub) of
        (Some ttl, Submission) \<Rightarrow> Some (now + int (as_millis ttl))
      | _ \<Rightarrow> None)"

definition ttl_seconds_of :: "task_submission \<Rightarrow> int option" where
  "ttl_seconds_of sub = map_option (\<lambda>d. as_i64 (as_secs d)) (sub_ttl sub)"

text \<open>The columns that the \<open>INSERT\<close> statements of \<open>submit_one\<close> and
  \<open>supersede_existing\<close> bind; the others have the defaults of the schema.\<close>

definition base_row :: "timestamp \<Rightarrow> task_submission \<Rightarrow> string \<Rightarrow> task_record" where
  "base_row now sub key =
     \<lparr>t_id = 0, t_task_type = sub_task_type sub, t_key = key, t_label = sub_label sub,
      t_priority = sub_priority sub, t_status = Pending, t_payload = sub_payload sub,
      t_expected_io = sub_expected_io sub, t_retry_count = 0, t_last_error = None,
      t_created_at = now, t_started_at = None, t_requeue = False, t_requeue_priority = None,
      t_parent_id = sub_parent_id sub, t_fail_fast = sub_fail_fast sub,
      t_group_key = sub_group_key sub, t_ttl_seconds = ttl_seconds_of sub,
      t_ttl_from = sub_ttl_from sub, t_expires_at = ttl_expires_at now sub, t_run_after = None,
      t_recurring_interval_secs = None, t_recurring_max_executions = None,
      t_recurring_execution_count = 0, t_recurring_paused = False, t_dependencies = [],
      t_on_dependency_failure = Cancel, t_tags = [], t_max_retries = sub_max_retries sub,
      t_memo = None, t_pause_reasons = 0, t_pause_duration_ms = 0, t_paused_at_ms = None\<rparr>"

definition submission_row :: "timestamp \<Rightarrow> task_submission \<Rightarrow> string \<Rightarrow> task_record" where
  "submission_row now sub key =
     (base_row now sub key)
       \<lparr>t_run_after := sub_run_after sub,
        t_recurring_interval_secs := map_option (\<lambda>r. as_i64 (as_secs (rs_interval r))) (sub_recurring sub),
        t_recurring_max_executions :=
          (case sub_recurring sub of None \<Rightarrow> None | Some r \<Rightarrow> map_option as_i64 (rs_max_executions r)),
        t_on_dependency_failure := sub_on_dependency_failure sub\<rparr>"

section \<open>Duplicate keys\<close>

definition skip_existing :: "string \<Rightarrow> priority \<Rightarrow> bool \<Rightarrow> submit_outcome db_stmt" where
  "skip_existing key prio skip_requeue d =
     (let up = (\<lambda>r. t_key r = key \<and> t_status r \<in> {Pending, Paused} \<and> priority_col (t_priority r) > priority_col prio)
      in case first_row (sql_select up (tasks d)) of
           Some r \<Rightarrow> (upd_tasks up (\<lambda>r. r\<lparr>t_priority := prio\<rparr>) d, Inr (Upgraded (t_id r)))
         | None \<Rightarrow>
             if skip_requeue then (d, Inr Duplicate)
             else let rq = (\<lambda>r. t_key r = key \<and> t_status r \<in> {Running, Paused}
                              \<and> (\<not> t_requeue r \<or> (case t_requeue_priority r of
                                                    Some p \<Rightarrow> priority_col p > priority_col prio
                                                  | None \<Rightarrow> False)))
                  in case first_row (sql_select rq (tasks d)) of
                       Some r \<Rightarrow> (upd_tasks rq (\<lambda>r. r\<lparr>t_requeue := True, t_requeue_priority := Some prio\<rparr>) d,
                                  Inr (Requeued (t_id r)))
                     | None \<Rightarrow> (d, Inr Duplicate))"

definition supersede_row :: "timestamp \<Rightarrow> task_submission \<Rightarrow> task_record \<Rightarrow> task_record" where
  "supersede_row now sub r =
     r\<lparr>t_label := sub_label sub, t_priority := sub_priority sub, t_payload := sub_payload sub,
       t_expected_io := sub_expected_io sub, t_retry_count := 0, t_last_error := None,
       t_status := Pending, t_requeue := False, t_requeue_priority := None,
       t_fail_fast := sub_fail_fast sub, t_group_key := sub_group_key sub,
       t_ttl_seconds := ttl_seconds_of sub, t_ttl_from := sub_ttl_from sub,
       t_expires_at := ttl_expires_at now sub, t_max_retries := sub_max_retries sub\<rparr>"

definition supersede_existing :: "timestamp \<Rightarrow> task_submission \<Rightarrow> string \<Rightarrow> submit_outcome db_stmt" where
  "supersede_existing now sub key d =
     (case task_by_rowkey key d of
        None \<Rightarrow> (d, Inr Duplicate)
      | Some existing \<Rightarrow>
          let replaced_id = t_id existing
          in andThen (insert_history now existing HSuperseded io_default
                       (compute_duration_ms now existing) None False)
               (\<lambda>_. if t_status existing \<in> {Pending, Paused, Blocked}
                     then andThen (exec (\<lambda>d. delete_task_tags replaced_id
                                   (upd_tasks (\<lambda>r. t_id r = replaced_id) (supersede_row now sub) d)))
                            (\<lambda>_. andThen (insert_tags replaced_id (sub_tags sub))
                                   (\<lambda>_. ok (Superseded replaced_id replaced_id)))
                     else andThen (exec (\<lambda>d. del_tasks (\<lambda>r. t_id r = replaced_id)
                                                (delete_task_tags replaced_id d)))
                            (\<lambda>_. andThen (insert_task (base_row now sub key))
                                   (\<lambda>new_task_id. andThen (insert_tags new_task_id (sub_tags sub))
                                      (\<lambda>_. ok (Superseded new_task_id replaced_id))))) d)"

section \<open>One submission\<close>

definition on_db :: "'a db_stmt \<Rightarrow> 'a store_stmt" where
  "on_db m st = (case m (st_db st) of (d, r) \<Rightarrow> (st\<lparr>st_db := d\<rparr>, r))"

definition insert_tags_flagged :: "int \<Rightarrow> (string, string) assoc \<Rightarrow> unit store_stmt" where
  "insert_tags_flagged i tags =
     andThen (exec (\<lambda>st. if tags \<noteq> [] then st\<lparr>st_has_tags := True\<rparr> else st))
       (\<lambda>_. on_db (insert_tags i tags))"

definition insert_dependencies :: "int \<Rightarrow> task_submission \<Rightarrow> unit db_stmt" where
  "insert_dependencies task_id sub =
     (if sub_dependencies sub = [] then ok ()
      else andThen (resolve_dependency_edges task_id (sub_dependencies sub) (sub_on_dependency_failure sub))
             (\<lambda>(active_deps, effective_status).
                andThen (if active_deps = [] then ok () else detect_cycle task_id active_deps)
                  (\<lambda>_. if effective_status = Blocked
                        then exec (upd_tasks (\<lambda>r. t_id r = task_id) (\<lambda>r. r\<lparr>t_status := Blocked\<rparr>))
                        else ok ())))"

definition pause_inserted :: "timestamp \<Rightarrow> int \<Rightarrow> db \<Rightarrow> db" where
  "pause_inserted now task_id = upd_tasks (\<lambda>r. t_id r = task_id \<and> t_status r = Pending) (pause_row now GROUP)"

text \<open>The branch of \<open>submit_one\<close> for a new row.\<close>

definition submit_inserted :: "timestamp \<Rightarrow> task_submission \<Rightarrow> int \<Rightarrow> submit_outcome store_stmt" where
  "submit_inserted now sub task_id =
     andThen (exec (\<lambda>st. if sub_parent_id sub \<noteq> None then st\<lparr>st_has_hierarchy := True\<rparr> else st))
       (\<lambda>_. andThen (insert_tags_flagged task_id (sub_tags sub))
       (\<lambda>_. andThen (on_db (insert_dependencies task_id sub))
       (\<lambda>_. andThen (fetch (\<lambda>st. group_is_paused (sub_group_key sub) (st_db st)))
       (\<lambda>is_group_paused.
          andThen (on_db (exec (if is_group_paused then pause_inserted now task_id else id)))
       (\<lambda>_. ok (Inserted task_id is_group_paused))))))"

definition submit_duplicate ::
    "timestamp \<Rightarrow> bool \<Rightarrow> task_submission \<Rightarrow> string \<Rightarrow> submit_outcome db_stmt" where
  "submit_duplicate now skip_requeue sub key =
     (case sub_on_duplicate sub of
        Reject \<Rightarrow> ok Rejected
      | Supersede \<Rightarrow> supersede_existing now sub key
      | Skip \<Rightarrow> skip_existing key (sub_priority sub) skip_requeue)"

definition submit_one ::
    "(bytes \<Rightarrow> string) \<Rightarrow> timestamp \<Rightarrow> bool \<Rightarrow> task_submission \<Rightarrow> submit_outcome store_stmt" where
  "submit_one sha256_hex now skip_requeue sub =
     (case sub_payload_error sub of
        Some e \<Rightarrow> err (Serialization e)
      | None \<Rightarrow>
          (case validate_tags (sub_tags sub) of
             Inl e \<Rightarrow> err e
           | Inr _ \<Rightarrow>
               if sub_parent_id sub \<noteq> None \<and> sub_recurring sub \<noteq> None
               then err (Database ''recurring tasks cannot be children (parent_id must be None)'')
               else let key = effective_key sha256_hex sub
                    in andThen (on_db (insert_or_ignore_task (submission_row now sub key)))
                         (\<lambda>inserted. case inserted of
                            Some task_id \<Rightarrow> submit_inserted now sub task_id
                          | None \<Rightarrow> on_db (submit_duplicate now skip_requeue sub key))))"

section \<open>Transactions\<close>

definition in_transaction :: "'a store_stmt \<Rightarrow> 'a store_stmt" where
  "in_transaction m st =
     (case m st of
        (st', Inl e) \<Rightarrow> (st'\<lparr>st_db := st_db st\<rparr>, Inl e)
      | (st', Inr x) \<Rightarrow> (st', Inr x))"

definition submit_direct :: "(bytes \<Rightarrow> string) \<Rightarrow> timestamp \<Rightarrow> task_submission \<Rightarrow> submit_outcome store_stmt" where
  "submit_direct sha256_hex now sub st =
     in_transaction (submit_one sha256_hex now (\<not> st_has_running st) sub) st"

fun process_messages ::
    "(bytes \<Rightarrow> string) \<Rightarrow> timestamp \<Rightarrow> bool \<Rightarrow> task_submission list \<Rightarrow> task_store
     \<Rightarrow> task_store \<times> (store_error + submit_outcome) list" where
  "process_messages sha256_hex now skip_requeue [] st = (st, [])"
| "process_messages sha256_hex now skip_requeue (sub # subs) st =
     (case submit_one sha256_hex now skip_requeue sub st of
        (st', r) \<Rightarrow>
          (case process_messages sha256_hex now skip_requeue subs st' of
             (st'', rs) \<Rightarrow> (st'', r # rs)))"

definition process_submit_batch ::
    "(bytes \<Rightarrow> string) \<Rightarrow> timestamp \<Rightarrow> task_submission list \<Rightarrow> task_store
     \<Rightarrow> task_store \<times> (store_error + submit_outcome) list" where
  "process_submit_batch sha256_hex now batch st =
     process_messages sha256_hex now (\<not> st_has_running st) batch st"

definition prevalidate :: "task_submission \<Rightarrow> store_error + unit" where
  "prevalidate sub =
     (case sub_payload_error sub of
        Some e \<Rightarrow> Inl (Serialization e)
      | None \<Rightarrow>
          if (case sub_payload sub of Some p \<Rightarrow> length p > MAX_PAYLOAD_BYTES | None \<Rightarrow> False)
          then Inl PayloadTooLarge else validate_tags (sub_tags sub))"

definition submit ::
    "(bytes \<Rightarrow> string) \<Rightarrow> timestamp \<Rightarrow> task_submission list \<Rightarrow> task_submission \<Rightarrow> task_store
     \<Rightarrow> task_store \<times> (store_error + submit_outcome) list \<times> (store_error + submit_outcome)" where
  "submit sha256_hex now stranded sub st =
     (case prevalidate sub of
        Inl e \<Rightarrow> (st, [], Inl e)
      | Inr _ \<Rightarrow>
          if stranded = []
          then (case submit_direct sha256_hex now sub st of (st', r) \<Rightarrow> (st', [], r))
          else (case process_submit_batch sha256_hex now (stranded @ [sub]) st of
                  (st', rs) \<Rightarrow> (st', butlast rs, last rs)))"

definition BATCH_CHUNK_SIZE :: nat where
  "BATCH_CHUNK_SIZE = 10000"

fun prevalidate_batch :: "task_submission list \<Rightarrow> store_error + unit" where
  "prevalidate_batch [] = Inr ()"
| "prevalidate_batch (sub # subs) =
     (if (case sub_payload sub of Some p \<Rightarrow> length p > MAX_PAYLOAD_BYTES | None \<Rightarrow> False)
      then Inl PayloadTooLarge
      else case validate_tags (sub_tags sub) of Inl e \<Rightarrow> Inl e | Inr _ \<Rightarrow> prevalidate_batch subs)"

definition last_occurrence :: "string list \<Rightarrow> string \<Rightarrow> nat option" where
  "last_occurrence keys = map_of (rev (zip keys [0..<length keys]))"

definition submit_indexed ::
    "(bytes \<Rightarrow> string) \<Rightarrow> timestamp \<Rightarrow> bool \<Rightarrow> (string \<Rightarrow> nat option) \<Rightarrow> nat \<times> task_submission
     \<Rightarrow> submit_outcome store_stmt" where
  "submit_indexed sha256_hex now skip_requeue occ x =
     (if occ (effective_key sha256_hex (snd x)) \<noteq> Some (fst x) then ok Duplicate
      else submit_one sha256_hex now skip_requeue (snd x))"

fun chunks :: "nat \<Rightarrow> 'a list \<Rightarrow> 'a list list" where
  "chunks n xs = (if xs = [] then [] else if n = 0 then [xs] else take n xs # chunks n (drop n xs))"

declare chunks.simps [simp del]

definition submit_batch ::
    "(bytes \<Rightarrow> string) \<Rightarrow> timestamp \<Rightarrow> task_submission list \<Rightarrow> submit_outcome list store_stmt" where
  "submit_batch sha256_hex now submissions st =
     (case prevalidate_batch submissions of
        Inl e \<Rightarrow> (st, Inl e)
      | Inr _ \<Rightarrow>
          let occ = last_occurrence (map (effective_key sha256_hex) submissions);
              skip_requeue = (\<not> st_has_running st)
          in andThen (collect_each
                (\<lambda>chunk. in_transaction (collect_each (submit_indexed sha256_hex now skip_requeue occ) chunk))
                (chunks BATCH_CHUNK_SIZE (zip [0..<length submissions] submissions)))
               (\<lambda>rs. ok (concat rs)) st)"

end
