(* ===== verification/Dependency_Cascade.thy ===== *)
theory Dependency_Cascade
  imports Store_Deps
begin

text \<open>
  What a failed task takes down with it: the specification \<open>doomed\<close> of the tasks that
  \<open>fail_dependents\<close> of \<open>src/src/store/dependencies.rs\<close> has to remove, and the proof that the
  recursive implementation removes exactly those, records each once in history, and
  always returns.
\<close>


section \<open>What a failed task takes down\<close>

text \<open>The abstract specification: the tasks a failure reaches through dependency edges,
  stopping at tasks that ignore failed dependencies.\<close>

definition vulnerable :: "db \<Rightarrow> int \<Rightarrow> bool" where
  "vulnerable d i \<longleftrightarrow> (\<exists>r \<in> set (tasks d). t_id r = i \<and> t_on_dependency_failure r \<noteq> Ignore)"

inductive doomed :: "db \<Rightarrow> int \<Rightarrow> int \<Rightarrow> bool" for d f where
  doomed_direct: "(i, f) \<in> set (task_deps d) \<Longrightarrow> vulnerable d i \<Longrightarrow> doomed d f i"
| doomed_via: "doomed d f j \<Longrightarrow> (i, j) \<in> set (task_deps d) \<Longrightarrow> vulnerable d i \<Longrightarrow> doomed d f i"

lemma doomed_trans: "doomed d j i \<Longrightarrow> doomed d f j \<Longrightarrow> doomed d f i"
  by (induction rule: doomed.induct) (auto intro: doomed.intros)

text \<open>The state of a cascade that started in \<open>d0\<close>: the tasks \<open>R\<close> are gone, and the edges
  into \<open>P\<close> and out of \<open>R\<close> are deleted.\<close>

definition cascade_state :: "db \<Rightarrow> int set \<Rightarrow> int set \<Rightarrow> db \<Rightarrow> bool" where
  "cascade_state d0 R P d \<longleftrightarrow>
     map (\<lambda>r. (t_id r, t_on_dependency_failure r)) (tasks d)
       = map (\<lambda>r. (t_id r, t_on_dependency_failure r)) (filter (\<lambda>r. t_id r \<notin> R) (tasks d0))
     \<and> set (task_deps d) = {(a, b) \<in> set (task_deps d0). a \<notin> R \<and> b \<notin> P}"

lemma cascade_start: "cascade_state d {} {} d"
  by (simp add: cascade_state_def)

lemma cascade_del_edges:
  "cascade_state d0 R P d \<Longrightarrow> cascade_state d0 R (insert f P) (del_deps (\<lambda>(_, dep). dep = f) d)"
  by (auto simp: cascade_state_def set_sql_delete)

lemma cascade_ignore:
  "cascade_state d0 R P d \<Longrightarrow> cascade_state d0 R P (fst (ignore_failed_dependency now i d))"
  by (simp add: cascade_state_def ignore_failed_dependency_def pause_unblocked_def Let_def map_sql_update)

lemma map_filter_fst:
  "map g xs = map g ys \<Longrightarrow> (\<And>r. p r = q (g r)) \<Longrightarrow> map g (filter p xs) = map g (filter p ys)"
proof -
  assume eq: "map g xs = map g ys" and pq: "\<And>r. p r = q (g r)"
  have "map g (filter p zs) = filter q (map g zs)" for zs
    by (induction zs) (auto simp: pq)
  then show ?thesis using eq by simp
qed

lemma cascade_remove:
  assumes "cascade_state d0 R P d" and "remove_failed_dependent now f task d = (d', Inr u)"
  shows "cascade_state d0 (insert (t_id task) R) P d'"
proof -
  have "map (\<lambda>r. (t_id r, t_on_dependency_failure r)) (filter (\<lambda>r. \<not> t_id r = t_id task) (tasks d))
      = map (\<lambda>r. (t_id r, t_on_dependency_failure r))
          (filter (\<lambda>r. \<not> t_id r = t_id task) (filter (\<lambda>r. t_id r \<notin> R) (tasks d0)))"
    using assms(1)
    by (intro map_filter_fst [where q = "\<lambda>x. fst x \<noteq> t_id task"]) (auto simp: cascade_state_def)
  moreover have "set (task_deps d') = {(a, b) \<in> set (task_deps d0). a \<notin> insert (t_id task) R \<and> b \<notin> P}"
    using assms(1) by (auto simp: cascade_state_def remove_failed_tables [OF assms(2)] set_sql_delete)
  ultimately show ?thesis
    by (simp add: cascade_state_def remove_failed_tables [OF assms(2)] sql_delete_def conj_commute)
qed

lemma cascade_ids: "cascade_state d0 R P d \<Longrightarrow> t_id ` set (tasks d) = t_id ` set (tasks d0) - R"
proof -
  assume "cascade_state d0 R P d"
  then have "map fst (map (\<lambda>r. (t_id r, t_on_dependency_failure r)) (tasks d))
      = map fst (map (\<lambda>r. (t_id r, t_on_dependency_failure r)) (filter (\<lambda>r. t_id r \<notin> R) (tasks d0)))"
    by (simp only: cascade_state_def)
  then have "map t_id (tasks d) = map t_id (filter (\<lambda>r. t_id r \<notin> R) (tasks d0))"
    by (simp add: comp_def)
  then have "set (map t_id (tasks d)) = set (map t_id (filter (\<lambda>r. t_id r \<notin> R) (tasks d0)))"
    by (rule arg_cong)
  then show ?thesis by auto
qed

lemma cascade_row:
  assumes "cascade_state d0 R P d" and "r \<in> set (tasks d)"
  shows "\<exists>s \<in> set (tasks d0). t_id s = t_id r \<and> t_on_dependency_failure s = t_on_dependency_failure r"
proof -
  have "(t_id r, t_on_dependency_failure r)
      \<in> set (map (\<lambda>r. (t_id r, t_on_dependency_failure r)) (tasks d))"
    using assms(2) by auto
  then have "(t_id r, t_on_dependency_failure r)
      \<in> set (map (\<lambda>r. (t_id r, t_on_dependency_failure r)) (filter (\<lambda>r. t_id r \<notin> R) (tasks d0)))"
    using assms(1) unfolding cascade_state_def by metis
  then show ?thesis by force
qed

text \<open>One branch of the cascade, as a relation between its input and its output.\<close>

definition cascade_post :: "db \<Rightarrow> int set \<Rightarrow> int set \<Rightarrow> db \<Rightarrow> int list \<Rightarrow> db \<Rightarrow> bool" where
  "cascade_post d0 R P d new d' \<longleftrightarrow>
     distinct new \<and> set new \<inter> R = {}
     \<and> cascade_state d0 (R \<union> set new) (P \<union> set new) d'
     \<and> (\<exists>hs. history d' = history d @ hs \<and> length hs = length new \<and> (\<forall>h \<in> set hs. h_status h = HDependencyFailed))
     \<and> (\<forall>i j. (i, j) \<in> set (task_deps d0) \<longrightarrow> j \<in> set new - P \<longrightarrow> vulnerable d0 i \<longrightarrow> i \<in> R \<union> set new)"

definition cascade_inner :: "db \<Rightarrow> int \<Rightarrow> db \<Rightarrow> db \<Rightarrow> store_error + int list \<times> int list \<Rightarrow> bool" where
  "cascade_inner d0 f d d' x \<longleftrightarrow>
     (\<forall>R P new us. x = Inr (new, us) \<longrightarrow> cascade_state d0 R P d \<longrightarrow>
        cascade_post d0 R (insert f P) d new d'
        \<and> (\<forall>i \<in> set new. doomed d0 f i)
        \<and> (f \<notin> P \<longrightarrow> (\<forall>i. (i, f) \<in> set (task_deps d0) \<longrightarrow> vulnerable d0 i \<longrightarrow> i \<in> R \<union> set new)))"

definition cascade_each ::
    "db \<Rightarrow> int \<Rightarrow> int list \<Rightarrow> int list \<Rightarrow> db \<Rightarrow> db \<Rightarrow> store_error + int list \<times> int list \<Rightarrow> bool" where
  "cascade_each d0 f deps fs d d' x \<longleftrightarrow>
     (\<forall>R P fs' us. x = Inr (fs', us) \<longrightarrow> cascade_state d0 R P d \<longrightarrow> f \<in> P
        \<longrightarrow> (\<forall>i \<in> set deps. (i, f) \<in> set (task_deps d0)) \<longrightarrow>
        (\<exists>new. fs' = fs @ new \<and> cascade_post d0 R P d new d'
           \<and> (\<forall>i \<in> set new. doomed d0 f i)
           \<and> (\<forall>i \<in> set deps. vulnerable d0 i \<longrightarrow> i \<in> R \<union> set new)))"

lemma cascade_post_nil: "cascade_state d0 R P d \<Longrightarrow> cascade_post d0 R P d [] d"
  by (simp add: cascade_post_def)


lemma cascade_inner_step:
  assumes "cascade_each d0 f (dependents_of f d) [] (del_deps (\<lambda>(_, dep). dep = f) d) d' x"
  shows "cascade_inner d0 f d d' x"
  unfolding cascade_inner_def
proof (intro allI impI)
  fix R P new us assume x: "x = Inr (new, us)" and st: "cascade_state d0 R P d"
  have sub: "(i, f) \<in> set (task_deps d0)" if "i \<in> set (dependents_of f d)" for i
    using st that by (auto simp: dependents_of_iff cascade_state_def)
  have deps: "i \<in> R \<or> i \<in> set (dependents_of f d)" if "f \<notin> P" "(i, f) \<in> set (task_deps d0)" for i
    using st that by (auto simp: dependents_of_iff cascade_state_def)
  from assms x cascade_del_edges [OF st, of f] sub
  have "cascade_post d0 R (insert f P) d new d' \<and> (\<forall>i \<in> set new. doomed d0 f i)
      \<and> (\<forall>i \<in> set (dependents_of f d). vulnerable d0 i \<longrightarrow> i \<in> R \<union> set new)"
    by (fastforce simp: cascade_each_def cascade_post_def)
  with deps show "cascade_post d0 R (insert f P) d new d' \<and> (\<forall>i \<in> set new. doomed d0 f i)
      \<and> (f \<notin> P \<longrightarrow> (\<forall>i. (i, f) \<in> set (task_deps d0) \<longrightarrow> vulnerable d0 i \<longrightarrow> i \<in> R \<union> set new))"
    by blast
qed

lemma vulnerable_active:
  assumes "db_ok d0" and "cascade_state d0 R P d" and "i \<notin> R" and "vulnerable d0 i"
  shows "\<exists>task. task_by_rowid i d = Some task \<and> t_on_dependency_failure task \<noteq> Ignore"
proof -
  obtain r where r: "r \<in> set (tasks d0)" "t_id r = i" "t_on_dependency_failure r \<noteq> Ignore"
    using assms(4) by (auto simp: vulnerable_def)
  have "i \<in> t_id ` set (tasks d)" using cascade_ids [OF assms(2)] r assms(3) by auto
  then obtain task where t: "task_by_rowid i d = Some task"
    using task_by_rowid_None by (metis option.exhaust)
  then obtain s where s: "s \<in> set (tasks d0)" "t_id s = i" "t_on_dependency_failure s = t_on_dependency_failure task"
    using cascade_row [OF assms(2)] task_by_rowid_in by metis
  have "s = r"
    using assms(1) s r task_table.rowids_distinct [of "tasks d0"]
    by (auto simp: db_ok_def distinct_map inj_on_def)
  with t s r show ?thesis by auto
qed

lemma cascade_eachD:
  assumes "cascade_each d0 f deps fs d d' (Inr (fs', us))" and "cascade_state d0 R P d" and "f \<in> P"
    and "\<forall>i \<in> set deps. (i, f) \<in> set (task_deps d0)"
  obtains new where "fs' = fs @ new" "cascade_post d0 R P d new d'" "\<forall>i \<in> set new. doomed d0 f i"
    "\<forall>i \<in> set deps. vulnerable d0 i \<longrightarrow> i \<in> R \<union> set new"
  using assms unfolding cascade_each_def by blast

lemma cascade_innerD:
  assumes "cascade_inner d0 f d d' (Inr (new, us))" and "cascade_state d0 R P d"
  shows "cascade_post d0 R (insert f P) d new d'" and "\<forall>i \<in> set new. doomed d0 f i"
    and "f \<notin> P \<Longrightarrow> (i, f) \<in> set (task_deps d0) \<Longrightarrow> vulnerable d0 i \<Longrightarrow> i \<in> R \<union> set new"
  using assms unfolding cascade_inner_def by blast+

lemma cascade_each_skip:
  assumes ok: "db_ok d0"
    and skip: "\<And>task. task_by_rowid dep d = Some task \<Longrightarrow> t_on_dependency_failure task = Ignore"
    and same: "\<And>R P. cascade_state d0 R P d \<Longrightarrow> cascade_state d0 R P d1" "history d1 = history d"
    and rest: "cascade_each d0 f rest fs d1 d' x"
  shows "cascade_each d0 f (dep # rest) fs d d' x"
  unfolding cascade_each_def
proof (intro allI impI)
  fix R P fs' us
  assume x: "x = Inr (fs', us)" and st: "cascade_state d0 R P d" and f: "f \<in> P"
    and deps: "\<forall>i \<in> set (dep # rest). (i, f) \<in> set (task_deps d0)"
  have "\<not> vulnerable d0 dep \<or> dep \<in> R"
    using vulnerable_active [OF ok st] skip by blast
  moreover obtain new where "fs' = fs @ new" "cascade_post d0 R P d1 new d'"
      "\<forall>i \<in> set new. doomed d0 f i" "\<forall>i \<in> set rest. vulnerable d0 i \<longrightarrow> i \<in> R \<union> set new"
    using cascade_eachD [OF rest [unfolded x] same(1) [OF st] f] deps by auto
  ultimately show "\<exists>new. fs' = fs @ new \<and> cascade_post d0 R P d new d' \<and> (\<forall>i \<in> set new. doomed d0 f i)
      \<and> (\<forall>i \<in> set (dep # rest). vulnerable d0 i \<longrightarrow> i \<in> R \<union> set new)"
    using same(2) by (auto simp: cascade_post_def)
qed

text \<open>Two consecutive parts of a cascade compose.\<close>

lemma cascade_post_append:
  assumes a: "cascade_post d0 R P d new d1" and b: "cascade_post d0 (R \<union> set new) (P \<union> set new) d1 new' d'"
  shows "cascade_post d0 R P d (new @ new') d'"
proof -
  have "\<exists>hs. history d' = history d @ hs \<and> length hs = length (new @ new')
      \<and> (\<forall>h \<in> set hs. h_status h = HDependencyFailed)"
  proof -
    obtain hs where "history d1 = history d @ hs" "length hs = length new"
        "\<forall>h \<in> set hs. h_status h = HDependencyFailed"
      using a by (auto simp: cascade_post_def)
    moreover obtain hs' where "history d' = history d1 @ hs'" "length hs' = length new'"
        "\<forall>h \<in> set hs'. h_status h = HDependencyFailed"
      using b by (auto simp: cascade_post_def)
    ultimately show ?thesis by (intro exI [of _ "hs @ hs'"]) auto
  qed
  moreover have "cascade_state d0 (R \<union> set (new @ new')) (P \<union> set (new @ new')) d'"
    using b by (simp add: cascade_post_def Un_assoc)
  moreover have "distinct (new @ new') \<and> set (new @ new') \<inter> R = {}"
    using a b by (auto simp: cascade_post_def)
  moreover have "i \<in> R \<union> set (new @ new')"
    if "(i, j) \<in> set (task_deps d0)" "j \<in> set (new @ new') - P" "vulnerable d0 i" for i j
  proof (cases "j \<in> set new")
    case True
    then show ?thesis using a that unfolding cascade_post_def by auto
  next
    case False
    then have "i \<in> R \<union> set new \<union> set new'" using b that unfolding cascade_post_def by auto
    then show ?thesis by auto
  qed
  ultimately show ?thesis by (simp add: cascade_post_def)
qed

lemma cascade_post_remove:
  assumes task: "task_by_rowid dep d = Some task" and r: "remove_failed_dependent now f task d = (d1, Inr ())"
    and inner: "cascade_inner d0 dep d1 d2 (Inr (sf, su))" and st: "cascade_state d0 R P d"
  shows "cascade_post d0 R P d (dep # sf) d2"
proof -
  have tid: "t_id task = dep" and act: "dep \<in> t_id ` set (tasks d)"
    using task_by_rowid_in [OF task] by auto
  have st1: "cascade_state d0 (insert dep R) P d1"
    using cascade_remove [OF st r] tid by simp
  note post = cascade_innerD [OF inner st1]
  have "dep \<notin> R" using act cascade_ids [OF st] by auto
  moreover obtain hs where "history d2 = history d1 @ hs" "length hs = length sf"
      "\<forall>h \<in> set hs. h_status h = HDependencyFailed"
    using post(1) by (auto simp: cascade_post_def)
  then have "\<exists>hs. history d2 = history d @ hs \<and> length hs = length (dep # sf)
      \<and> (\<forall>h \<in> set hs. h_status h = HDependencyFailed)"
    using remove_failed_tables(3) [OF r] by auto
  moreover have "i \<in> R \<union> set (dep # sf)"
    if "(i, j) \<in> set (task_deps d0)" "j \<in> set (dep # sf) - P" "vulnerable d0 i" for i j
    using post(1) post(3) [of i] that unfolding cascade_post_def by (cases "j = dep") auto
  ultimately show ?thesis
    using post(1) by (auto simp: cascade_post_def)
qed

lemma cascade_each_rem:
  assumes task: "task_by_rowid dep d = Some task" and pol: "t_on_dependency_failure task \<noteq> Ignore"
    and r: "remove_failed_dependent now f task d = (d1, Inr ())"
    and inner: "cascade_inner d0 dep d1 d2 (Inr (sf, su))"
    and rest: "cascade_each d0 f rest (fs @ [dep] @ sf) d2 d' x"
  shows "cascade_each d0 f (dep # rest) fs d d' x"
  unfolding cascade_each_def
proof (intro allI impI)
  fix R P fs' us
  assume x: "x = Inr (fs', us)" and st: "cascade_state d0 R P d" and f: "f \<in> P"
    and deps: "\<forall>i \<in> set (dep # rest). (i, f) \<in> set (task_deps d0)"
  note post = cascade_post_remove [OF task r inner st]
  then have st2: "cascade_state d0 (R \<union> set (dep # sf)) (P \<union> set (dep # sf)) d2"
    by (simp add: cascade_post_def)
  have "vulnerable d0 dep"
    using cascade_row [OF st, of task] task_by_rowid_in [OF task] pol by (auto simp: vulnerable_def)
  then have dep: "doomed d0 f dep" using deps by (simp add: doomed_direct)
  have "cascade_state d0 (insert dep R) P d1"
    using cascade_remove [OF st r] task_by_rowid_in [OF task] by simp
  then have sf: "\<forall>i \<in> set sf. doomed d0 f i"
    using cascade_innerD(2) [OF inner] doomed_trans dep by blast
  obtain new where new: "fs' = (fs @ [dep] @ sf) @ new"
      "cascade_post d0 (R \<union> set (dep # sf)) (P \<union> set (dep # sf)) d2 new d'"
      "\<forall>i \<in> set new. doomed d0 f i"
      "\<forall>i \<in> set rest. vulnerable d0 i \<longrightarrow> i \<in> R \<union> set (dep # sf) \<union> set new"
    using cascade_eachD [OF rest [unfolded x] st2] f deps by auto
  show "\<exists>new. fs' = fs @ new \<and> cascade_post d0 R P d new d' \<and> (\<forall>i \<in> set new. doomed d0 f i)
      \<and> (\<forall>i \<in> set (dep # rest). vulnerable d0 i \<longrightarrow> i \<in> R \<union> set new)"
    using new dep sf cascade_post_append [OF post new(2)]
    by (intro exI [of _ "(dep # sf) @ new"]) auto
qed

lemma cascade_correct:
  assumes ok: "db_ok d0" and run: "fail_dependents_inner n now f d = Some (d', x)"
  shows "cascade_inner d0 f d d' x"
proof (rule fail_cascade_induct(1) [where A = "cascade_inner d0"
      and B = "\<lambda>f deps fs us. cascade_each d0 f deps fs", OF _ _ _ _ _ _ _ run])
  show "cascade_each d0 f [] fs d d (Inr (fs, us))" for f fs us d
    by (auto simp: cascade_each_def intro: cascade_post_nil)
  show "cascade_each d0 f (dep # rest) fs d d' x"
    if "task_by_rowid dep d = None" "cascade_each d0 f rest fs d d' x" for f dep rest fs d d' x
    using that by (intro cascade_each_skip [OF ok _ _ _ that(2)]) auto
  show "cascade_each d0 f (dep # rest) fs d d' x"
    if "task_by_rowid dep d = Some task" "t_on_dependency_failure task = Ignore"
      "cascade_each d0 f rest fs (fst (ignore_failed_dependency now dep d)) d' x"
    for f dep rest fs d d' x task
    using that by (intro cascade_each_skip [OF ok _ _ _ that(3)]) (auto intro: cascade_ignore)
  show "cascade_each d0 f (dep # rest) fs d d' (Inl e)" for f dep rest fs d d' e
    by (simp add: cascade_each_def)
  then show "cascade_each d0 f (dep # rest) fs d d' (Inl e)" for f dep rest fs d d' e .
qed (auto intro: cascade_inner_step cascade_each_rem)

lemma doomed_vulnerable: "doomed d f i \<Longrightarrow> vulnerable d i"
  by (induction rule: doomed.induct) auto

text \<open>What the cascade does to the tasks it leaves behind: a row is the one it was, or it was
  blocked and no open dependency keeps it blocked any more.\<close>

definition unblocked_from :: "db \<Rightarrow> task_record \<Rightarrow> bool" where
  "unblocked_from d0 r \<longleftrightarrow>
     t_status r \<in> {Pending, Paused} \<and> (\<exists>q \<in> set (tasks d0). t_id q = t_id r \<and> t_status q = Blocked)"

definition survivors :: "db \<Rightarrow> db \<Rightarrow> bool" where
  "survivors d0 d \<longleftrightarrow>
     (\<forall>r \<in> set (tasks d). r \<in> set (tasks d0) \<or> unblocked_from d0 r \<and> \<not> has_edge_from (t_id r) d)"

lemma survivors_del_deps: "survivors d0 d \<Longrightarrow> survivors d0 (del_deps p d)"
  by (auto simp: survivors_def has_edge_from_iff set_sql_delete)

lemma survivors_remove: "survivors d0 d \<Longrightarrow> survivors d0 (fst (remove_failed_dependent now f task d))"
proof (rule keepsD)
  show "keeps (survivors d0) (remove_failed_dependent now f task)"
    unfolding remove_failed_dependent_def
    by (rule keeps_andThen)
       (auto simp: keeps_def survivors_def has_edge_from_iff set_sql_delete delete_task_tags_def)
qed

lemma upd_tasks_rowE:
  assumes "r \<in> set (tasks (upd_tasks p f d))"
  obtains q where "q \<in> set (tasks d)" "p q" "r = f q" | "r \<in> set (tasks d)" "\<not> p r"
  using assms by (auto simp: set_sql_update split: if_splits)

lemma survivors_ignore: "survivors d0 d \<Longrightarrow> survivors d0 (fst (ignore_failed_dependency now i d))"
proof -
  assume s: "survivors d0 d"
  let ?p = "\<lambda>r. t_id r = i \<and> t_status r = Blocked"
  let ?d1 = "upd_tasks ?p (\<lambda>r. r\<lparr>t_status := Pending\<rparr>) d"
  show ?thesis
  proof (cases "\<not> has_edge_from i d \<and> sql_exists ?p (tasks d)")
    case True
    then obtain b where b: "b \<in> set (tasks d)" "t_id b = i" "t_status b = Blocked"
      by (auto simp: sql_exists_iff)
    then have b0: "b \<in> set (tasks d0)" using s by (auto simp: survivors_def unblocked_from_def)
    have edges: "has_edge_from j (pause_unblocked now i ?d1) = has_edge_from j d" for j
      by (simp add: pause_unblocked_def)
    have "r \<in> set (tasks d0) \<or> unblocked_from d0 r \<and> \<not> has_edge_from (t_id r) d"
      if r: "r \<in> set (tasks (pause_unblocked now i ?d1))" for r
    proof -
      have "r \<in> set (tasks d) \<or> t_id r = i \<and> t_status r \<in> {Pending, Paused}"
        using r unfolding pause_unblocked_def by (elim upd_tasks_rowE) auto
      moreover have "unblocked_from d0 r" if "t_id r = i" "t_status r \<in> {Pending, Paused}"
        using that b b0 by (auto simp: unblocked_from_def)
      ultimately show ?thesis using s True unfolding survivors_def by blast
    qed
    then have "survivors d0 (pause_unblocked now i ?d1)" by (simp add: survivors_def edges)
    with True show ?thesis by (simp add: ignore_failed_dependency_def Let_def)
  next
    case False
    have "tasks ?d1 = tasks d" if "\<not> sql_exists ?p (tasks d)"
      using that by (auto simp: sql_update_def sql_exists_iff intro: map_idI)
    with False s show ?thesis
      by (auto simp: ignore_failed_dependency_def Let_def survivors_def has_edge_from_iff)
  qed
qed

lemma cascade_survivors:
  assumes "fail_dependents_inner n now f d = Some (d', x)"
  shows "survivors d d'"
proof -
  have "survivors d d" by (simp add: survivors_def)
  from fail_dependents_keeps [where Q = "survivors d", OF _ _ _ assms this] show ?thesis
    by (blast intro: survivors_del_deps survivors_ignore survivors_remove)
qed

lemma fail_dependents_inner_exact:
  assumes ok: "db_ok d" and run: "fail_dependents_inner n now f d = Some (d', Inr (fs, us))"
  shows "distinct fs \<and> set fs = {i. doomed d f i}
    \<and> t_id ` set (tasks d') = t_id ` set (tasks d) - {i. doomed d f i}
    \<and> set (task_deps d') = {(a, b) \<in> set (task_deps d). \<not> doomed d f a \<and> b \<noteq> f \<and> \<not> doomed d f b}
    \<and> survivors d d'
    \<and> (\<exists>hs. history d' = history d @ hs \<and> length hs = length fs \<and> (\<forall>h \<in> set hs. h_status h = HDependencyFailed))"
proof -
  note C = cascade_innerD [OF cascade_correct [OF ok run] cascade_start]
  have "i \<in> set fs" if "doomed d f i" for i
    using that
  proof (induction rule: doomed.induct)
    case (doomed_direct i)
    then show ?case using C(3) by simp
  next
    case (doomed_via j i)
    then show ?case
      using C(1) C(3) [of i] unfolding cascade_post_def by (cases "j = f") auto
  qed
  with C(2) have fs: "set fs = {i. doomed d f i}" by auto
  have state: "cascade_state d (set fs) (insert f (set fs)) d'"
    using C(1) by (simp add: cascade_post_def)
  then have "set (task_deps d') = {(a, b) \<in> set (task_deps d). \<not> doomed d f a \<and> b \<noteq> f \<and> \<not> doomed d f b}"
    by (auto simp: cascade_state_def fs)
  with cascade_ids [OF state] cascade_survivors [OF run] fs C(1) show ?thesis by (simp add: cascade_post_def)
qed


definition cascade_example :: task_store where
  "cascade_example = open_memory\<lparr>st_db := empty_db
     \<lparr>tasks := [sample_row 1 ''a'' Running, sample_row 2 ''b'' Blocked,
               (sample_row 3 ''c'' Blocked)\<lparr>t_on_dependency_failure := Ignore\<rparr>],
      task_deps := [(2, 1), (3, 2)]\<rparr>\<rparr>"


end
