(* ===== verification/Store_Invariant.thy ===== *)
theory Store_Invariant
  imports Store_Submit Dependency_Cascade
begin

text \<open>
  The contract between an invariant of the database and the operations of the store.

  \<open>db_invariant\<close> lists what an invariant has to promise: it survives each form of
  statement that the store executes. Every operation of the store is then proved once,
  inside the locale, to keep any such invariant. \<open>db_invariant_partial\<close> is the stronger
  contract of an invariant that also survives a submission that fails half-way, which is
  what the coalesced submit path commits. The four invariants of the store are
  interpretations: the schema's uniqueness constraints (\<open>db_ok\<close>), no blocked task without
  a dependency (\<open>blocked_ok\<close>), no paused task without a reason (\<open>paused_ok\<close>), and
  acyclicity of the dependency graph (\<open>deps_acyclic\<close>).
\<close>

section \<open>The contracts\<close>

text \<open>A column update that an invariant tolerates: identity stays, no row becomes blocked,
  and a row that is paused has a reason or was paused for the same reasons before.\<close>

definition row_step :: "task_record \<Rightarrow> task_record \<Rightarrow> bool" where
  "row_step r s \<longleftrightarrow> t_id s = t_id r \<and> t_key s = t_key r \<and> t_tags s = t_tags r
     \<and> t_dependencies s = t_dependencies r \<and> (t_status s = Blocked \<longrightarrow> t_status r = Blocked)
     \<and> (t_status s = Paused \<longrightarrow> t_pause_reasons s \<noteq> 0
           \<or> t_status r = Paused \<and> t_pause_reasons s = t_pause_reasons r)"

text \<open>A row that can be inserted.\<close>

definition plain_row :: "task_record \<Rightarrow> bool" where
  "plain_row r \<longleftrightarrow> t_tags r = [] \<and> t_dependencies r = [] \<and> t_status r \<noteq> Blocked \<and> t_status r \<noteq> Paused"

definition drop_task :: "int \<Rightarrow> db \<Rightarrow> db" where
  "drop_task i d =
     del_tasks (\<lambda>r. t_id r = i) (delete_task_tags i (del_deps (\<lambda>(t, _). t = i) d))"

locale db_invariant =
  fixes P :: "db \<Rightarrow> bool"
  assumes P_upd: "P d \<Longrightarrow> (\<And>r. p r \<Longrightarrow> row_step r (f r)) \<Longrightarrow> P (upd_tasks p f d)"
    and P_del: "P d \<Longrightarrow> P (del_tasks p d)"
    and P_delete_tags: "P d \<Longrightarrow> P (delete_task_tags i d)"
    and P_insert_tag: "keeps P (insert_tag i kv)"
    and P_insert_history: "keeps P (insert_history now task s m dur e skip)"
    and P_insert_task: "plain_row row \<Longrightarrow> keeps P (insert_task row)"
    and P_insert_or_ignore: "plain_row row \<Longrightarrow> keeps P (insert_or_ignore_task row)"
    and P_prune: "P d \<Longrightarrow> P (d\<lparr>history := sql_delete q (history d)\<rparr>)"
    and P_history_tags: "P d \<Longrightarrow> P (d\<lparr>history_tags := sql_delete q' (history_tags d)\<rparr>)"
    and P_pause_group: "P d \<Longrightarrow> g \<notin> fst ` set (paused_groups d) \<Longrightarrow>
          P (d\<lparr>paused_groups := paused_groups d @ [(g, x)]\<rparr>)"
    and P_resume_group: "P d \<Longrightarrow> P (d\<lparr>paused_groups := sql_delete q'' (paused_groups d)\<rparr>)"
    and P_drop: "P d \<Longrightarrow> P (drop_task i d)"
    and P_batch_resolve: "P d \<Longrightarrow> P (fst (batch_resolve now ids d))"
    and P_fail: "fail_dependents_inner n now j d = Some (d', Inr y) \<Longrightarrow> P d \<Longrightarrow> P d'"
    and P_recover: "P d \<Longrightarrow> P (recover_running now d)"
    and P_insert_deps: "insert_dependencies i sub d = (d', Inr u) \<Longrightarrow> P d \<Longrightarrow> P d'"

locale db_invariant_partial = db_invariant +
  assumes P_insert_deps_partial: "keeps P (insert_dependencies i sub)"

text \<open>Pausing a row gives it a reason.\<close>

lemma pr_with_nonzero: "b \<noteq> 0 \<Longrightarrow> pr_with a b \<noteq> 0"
  by (auto simp: pr_with_def bit_eq_iff bit_simps)

lemma GROUP_nonzero [simp]: "GROUP \<noteq> 0"
  by (simp add: GROUP_def)

lemma row_step_pause [simp]: "b \<noteq> 0 \<Longrightarrow> row_step r (pause_row now b r)"
  by (simp add: row_step_def pause_row_def pr_with_nonzero)

section \<open>Submission\<close>

lemma keeps_on_db: "keeps P m \<Longrightarrow> keeps (\<lambda>st. P (st_db st)) (on_db m)"
  by (fastforce simp: keeps_def on_db_def split: prod.splits)

lemma st_db_flags [simp]:
  "st_db (if b then st\<lparr>st_has_tags := True\<rparr> else st) = st_db st"
  "st_db (if b then st\<lparr>st_has_hierarchy := True\<rparr> else st) = st_db st"
  by simp_all

lemma plain_base_row [simp]: "plain_row (base_row now sub k)" "plain_row (submission_row now sub k)"
  by (simp_all add: plain_row_def base_row_def submission_row_def)

lemma in_transaction_keeps:
  assumes "P (st_db st)" and "\<And>st' x. m st = (st', Inr x) \<Longrightarrow> P (st_db st')"
  shows "P (st_db (fst (in_transaction m st)))"
  using assms by (auto simp: in_transaction_def split: prod.splits sum.splits)

context db_invariant
begin

lemma P_resolve: "P d \<Longrightarrow> P (fst (resolve_dependents_inner now j d))"
  by (simp add: resolve_is_batch P_batch_resolve)

lemma keeps_P_insert_tags: "keeps P (insert_tags i tags)"
  unfolding insert_tags_def by (intro keeps_for_each P_insert_tag)

lemma keeps_P_skip: "keeps P (skip_existing key prio skip)"
proof (rule keepsI)
  fix d assume "P d"
  then show "P (fst (skip_existing key prio skip d))"
    unfolding skip_existing_def Let_def
    by (auto intro!: P_upd simp: row_step_def split: option.splits)
qed

lemma P_supersede_update:
  "P d \<Longrightarrow> P (delete_task_tags i (upd_tasks (\<lambda>r. t_id r = i) (supersede_row now sub) d))"
  by (intro P_delete_tags P_upd) (simp_all add: row_step_def supersede_row_def)

lemma keeps_P_supersede: "keeps P (supersede_existing now sub key)"
proof (rule keepsI)
  fix d assume d: "P d"
  have "keeps P (andThen (insert_history now ex HSuperseded io_default (compute_duration_ms now ex) None False)
      (\<lambda>_. if t_status ex \<in> {Pending, Paused, Blocked}
            then andThen (exec (\<lambda>d. delete_task_tags (t_id ex)
                   (upd_tasks (\<lambda>r. t_id r = t_id ex) (supersede_row now sub) d)))
                 (\<lambda>_. andThen (insert_tags (t_id ex) (sub_tags sub)) (\<lambda>_. ok (Superseded (t_id ex) (t_id ex))))
            else andThen (exec (\<lambda>d. del_tasks (\<lambda>r. t_id r = t_id ex) (delete_task_tags (t_id ex) d)))
                 (\<lambda>_. andThen (insert_task (base_row now sub key))
                 (\<lambda>i. andThen (insert_tags i (sub_tags sub)) (\<lambda>_. ok (Superseded i (t_id ex)))))))" for ex
    by (intro keeps_andThen P_insert_history)
       (simp add: keeps_andThen keeps_exec keeps_ok keeps_P_insert_tags P_supersede_update P_del
         P_delete_tags P_insert_task)
  from keepsD [OF this d] d show "P (fst (supersede_existing now sub key d))"
    unfolding supersede_existing_def Let_def by (cases "task_by_rowkey key d") simp_all
qed

lemma keeps_P_duplicate: "keeps P (submit_duplicate now skip sub key)"
  unfolding submit_duplicate_def
  by (cases "sub_on_duplicate sub") (simp_all add: keeps_ok keeps_P_skip keeps_P_supersede)

lemma P_pause_inserted: "P d \<Longrightarrow> P (pause_inserted now i d)"
  unfolding pause_inserted_def by (rule P_upd) simp_all

lemma keeps_P_tags_flagged: "keeps (\<lambda>st. P (st_db st)) (insert_tags_flagged i tags)"
  unfolding insert_tags_flagged_def
  by (intro keeps_andThen keeps_exec keeps_on_db keeps_P_insert_tags) simp

lemma keeps_P_finish_insert:
  "keeps (\<lambda>st. P (st_db st)) (andThen (fetch (\<lambda>st. group_is_paused g (st_db st)))
     (\<lambda>b. andThen (on_db (exec (if b then pause_inserted now i else id))) (\<lambda>_. ok (Inserted i b))))"
  by (intro keeps_andThen keeps_fetch keeps_on_db keeps_exec keeps_ok) (simp add: P_pause_inserted)

lemma success_insert_deps: "keeps_success (\<lambda>st. P (st_db st)) (on_db (insert_dependencies i sub))"
  by (rule keeps_successI) (auto simp: on_db_def intro: P_insert_deps split: prod.splits)

lemma success_submit_inserted: "keeps_success (\<lambda>st. P (st_db st)) (submit_inserted now sub i)"
  unfolding submit_inserted_def
  by (intro keeps_success_andThen success_insert_deps keeps_imp_success keeps_P_finish_insert
      keeps_P_tags_flagged keeps_exec) simp

lemma success_submit_one: "keeps_success (\<lambda>st. P (st_db st)) (submit_one sha256_hex now skip sub)"
proof -
  have "keeps_success (\<lambda>st. P (st_db st))
      (case x of None \<Rightarrow> on_db (submit_duplicate now skip sub key) | Some i \<Rightarrow> submit_inserted now sub i)"
    for x key
    by (cases x) (auto intro: success_submit_inserted keeps_imp_success keeps_on_db keeps_P_duplicate)
  moreover have "keeps_success (\<lambda>st. P (st_db st)) (on_db (insert_or_ignore_task (submission_row now sub key)))"
    for key by (intro keeps_imp_success keeps_on_db P_insert_or_ignore) simp
  ultimately show ?thesis
    unfolding submit_one_def Let_def
    by (auto intro!: keeps_success_andThen intro: keeps_imp_success keeps_err split: option.split sum.split)
qed

lemma P_in_transaction:
  "keeps_success (\<lambda>st. P (st_db st)) m \<Longrightarrow> keeps (\<lambda>st. P (st_db st)) (in_transaction m)"
  by (rule keepsI) (auto intro: in_transaction_keeps dest: keeps_successD)

lemma P_submit_direct: "P (st_db st) \<Longrightarrow> P (st_db (fst (submit_direct sha256_hex now sub st)))"
  unfolding submit_direct_def by (rule keepsD [OF P_in_transaction [OF success_submit_one]])

lemma P_submit_batch: "P (st_db st) \<Longrightarrow> P (st_db (fst (submit_batch sha256_hex now subs st)))"
proof -
  assume st: "P (st_db st)"
  have "keeps_success (\<lambda>st. P (st_db st)) (submit_indexed sha256_hex now skip occ x)" for skip occ x
    unfolding submit_indexed_def by (auto intro: success_submit_one keeps_imp_success keeps_ok)
  then have "keeps (\<lambda>st. P (st_db st)) (andThen (collect_each
        (\<lambda>chunk. in_transaction (collect_each (submit_indexed sha256_hex now skip occ) chunk)) cs)
        (\<lambda>rs. ok (concat rs)))" for skip occ cs
    by (intro keeps_andThen keeps_collect_each keeps_ok P_in_transaction keeps_success_collect)
  from keepsD [OF this st] st show ?thesis
    by (auto simp: submit_batch_def Let_def split: sum.split)
qed

end

context db_invariant_partial
begin

lemma keeps_P_submit_one: "keeps (\<lambda>st. P (st_db st)) (submit_one sha256_hex now skip sub)"
proof -
  have "keeps (\<lambda>st. P (st_db st)) (submit_inserted now sub i)" for i
    unfolding submit_inserted_def
    by (intro keeps_andThen keeps_on_db P_insert_deps_partial keeps_P_finish_insert
        keeps_P_tags_flagged keeps_exec) simp
  then have "keeps (\<lambda>st. P (st_db st))
      (case x of None \<Rightarrow> on_db (submit_duplicate now skip sub key) | Some i \<Rightarrow> submit_inserted now sub i)"
    for x key
    by (cases x) (auto intro: keeps_on_db keeps_P_duplicate)
  moreover have "keeps (\<lambda>st. P (st_db st)) (on_db (insert_or_ignore_task (submission_row now sub key)))"
    for key by (intro keeps_on_db P_insert_or_ignore) simp
  ultimately show ?thesis
    unfolding submit_one_def Let_def
    by (auto intro!: keeps_andThen intro: keeps_err split: option.split sum.split)
qed

lemma P_process_messages:
  "P (st_db st) \<Longrightarrow> P (st_db (fst (process_messages sha256_hex now skip subs st)))"
proof (induction subs arbitrary: st)
  case (Cons sub subs)
  then have "P (st_db (fst (submit_one sha256_hex now skip sub st)))"
    using keepsD [OF keeps_P_submit_one] by blast
  with Cons.IH show ?case by (fastforce split: prod.splits)
qed simp

lemma P_submit: "P (st_db st) \<Longrightarrow> P (st_db (fst (submit sha256_hex now stranded sub st)))"
  using P_submit_direct [of st sha256_hex now sub] P_process_messages [of st]
  by (simp add: submit_def process_submit_batch_def case_prod_beta split: sum.split)

end

section \<open>The invariants of the store\<close>

text \<open>What a successful dependency check writes.\<close>

lemma insert_deps_success:
  assumes "insert_dependencies i sub d = (d', Inr u)"
  obtains act where "distinct (map (Pair i) act)" "set (task_deps d) \<inter> set (map (Pair i) act) = {}"
    "\<forall>j \<in> set act. (j, i) \<notin> (set (task_deps d @ map (Pair i) act))\<^sup>*"
    "d' = (if act = [] then d else upd_tasks (\<lambda>r. t_id r = i) (\<lambda>r. r\<lparr>t_status := Blocked\<rparr>)
             (d\<lparr>task_deps := task_deps d @ map (Pair i) act\<rparr>))"
proof (cases "sub_dependencies sub = []")
  case True
  then have "d' = d" using assms by (simp add: insert_dependencies_def)
  then show ?thesis by (intro that [of "[]"]) simp_all
next
  case False
  then obtain d1 act status where
    res: "resolve_dependency_edges i (sub_dependencies sub) (sub_on_dependency_failure sub) d = (d1, Inr (act, status))"
    and rest: "andThen (if act = [] then ok () else detect_cycle i act)
       (\<lambda>_. if status = Blocked then exec (upd_tasks (\<lambda>r. t_id r = i) (\<lambda>r. r\<lparr>t_status := Blocked\<rparr>)) else ok ()) d1
       = (d', Inr u)"
    using assms by (auto simp: insert_dependencies_def andThen_eq_Inr)
  note r = resolve_edges_result [OF res]
  show ?thesis
  proof (cases "act = []")
    case True
    with rest r have "d' = d" by simp
    then show ?thesis by (intro that [of "[]"]) simp_all
  next
    case False
    obtain d2 v where c: "detect_cycle i act d1 = (d2, Inr v)"
      using rest False by (auto simp: andThen_eq_Inr)
    then have "d2 = d1" and chk: "\<forall>j \<in> set act. (j, i) \<notin> (set (task_deps d1))\<^sup>*"
      using detect_cycle_state [of i act d1] detect_cycle_iff [of i act d1] by (metis fst_conv, simp)
    with rest c r False have "d' = upd_tasks (\<lambda>r. t_id r = i) (\<lambda>r. r\<lparr>t_status := Blocked\<rparr>) d1"
      by (simp add: andThen_def)
    with r chk False show ?thesis by (intro that [of act]) simp_all
  qed
qed

lemma insert_deps_error:
  assumes "insert_dependencies i sub d = (d', Inl e)"
  shows "\<exists>act. d' = d\<lparr>task_deps := task_deps d @ map (Pair i) act\<rparr>"
proof -
  let ?res = "resolve_dependency_edges i (sub_dependencies sub) (sub_on_dependency_failure sub) d"
  have "d' = fst ?res"
    using assms detect_cycle_state
    by (auto simp: insert_dependencies_def andThen_def detect_cycle_def split: if_splits prod.splits sum.splits)
  with resolve_edges_state show ?thesis by metis
qed

lemma keeps_db_ok_insert_deps: "keeps db_ok (insert_dependencies i sub)"
  unfolding insert_dependencies_def
  by (auto intro!: wf_intros split: prod.split)

lemma blocked_append_edges: "blocked_ok d \<Longrightarrow> blocked_ok (d\<lparr>task_deps := task_deps d @ es\<rparr>)"
  by (auto simp: blocked_ok_def has_edge_from_iff)

lemma keeps_blocked_insert_deps: "keeps blocked_ok (insert_dependencies i sub)"
proof (rule keepsI)
  fix d assume d: "blocked_ok d"
  obtain d' r where run: "insert_dependencies i sub d = (d', r)" by force
  show "blocked_ok (fst (insert_dependencies i sub d))"
  proof (cases r)
    case (Inl e)
    with run d insert_deps_error show ?thesis by (fastforce intro: blocked_append_edges)
  next
    case (Inr u)
    with run obtain act where "d' = (if act = [] then d else upd_tasks (\<lambda>r. t_id r = i)
        (\<lambda>r. r\<lparr>t_status := Blocked\<rparr>) (d\<lparr>task_deps := task_deps d @ map (Pair i) act\<rparr>))"
      using insert_deps_success by metis
    with run blocked_append_edges [OF d, of "map (Pair i) act"] d show ?thesis
      by (cases act) (auto simp: blocked_ok_def set_sql_update has_edge_from_iff)
  qed
qed

lemma acyclic_insert_deps:
  assumes "insert_dependencies i sub d = (d', Inr u)" and "deps_acyclic d"
  shows "deps_acyclic d'"
proof -
  from assms(1) obtain act where chk: "\<forall>j \<in> set act. (j, i) \<notin> (set (task_deps d @ map (Pair i) act))\<^sup>*"
    and d': "task_deps d' = task_deps d @ map (Pair i) act"
    by (rule insert_deps_success) (auto split: if_splits)
  have "set (task_deps d @ map (Pair i) act) = set (task_deps d) \<union> {i} \<times> set act" by auto
  with acyclic_add_checked [of "set (task_deps d)" "set act" i] chk assms(2) show ?thesis
    by (simp add: deps_acyclic_def d')
qed

lemma deps_acyclic_subset: "deps_acyclic d \<Longrightarrow> set (task_deps d') \<subseteq> set (task_deps d) \<Longrightarrow> deps_acyclic d'"
  unfolding deps_acyclic_def by (rule acyclic_subset)

lemma db_ok_drop_task: "db_ok d \<Longrightarrow> db_ok (drop_task i d)"
  unfolding drop_task_def by (intro wf_intros)

interpretation db_ok: db_invariant_partial db_ok
proof
  show "db_ok d \<Longrightarrow> db_ok (d\<lparr>history_tags := sql_delete q (history_tags d)\<rparr>)" for q d
    by (simp add: db_ok_def distinct_map_sql_delete)
  show "db_ok d \<Longrightarrow> db_ok (d\<lparr>paused_groups := sql_delete q (paused_groups d)\<rparr>)" for q d
    by (simp add: db_ok_def distinct_map_sql_delete)
  show "db_ok d \<Longrightarrow> g \<notin> fst ` set (paused_groups d) \<Longrightarrow> db_ok (d\<lparr>paused_groups := paused_groups d @ [(g, x)]\<rparr>)"
    for g x d by (simp add: db_ok_def)
  show "insert_dependencies i sub d = (d', Inr u) \<Longrightarrow> db_ok d \<Longrightarrow> db_ok d'" for i sub d d' and u :: unit
    by (rule keeps_eq [OF keeps_db_ok_insert_deps])
qed (auto intro: db_ok_upd_tasks db_ok_del_tasks db_ok_delete_task_tags keeps_insert_tag
    keeps_insert_history keeps_insert_task keeps_insert_or_ignore_task db_ok_history_del
    db_ok_drop_task db_ok_batch_resolve db_ok_fail_dependents_inner
    db_ok_recover_running keeps_db_ok_insert_deps simp: row_step_def plain_row_def)

text \<open>Operations that leave tasks and edges alone keep every invariant of these two tables.\<close>

lemma blocked_ok_cong:
  "tasks d' = tasks d \<Longrightarrow> task_deps d' = task_deps d \<Longrightarrow> blocked_ok d' = blocked_ok d"
  by (simp add: blocked_ok_def has_edge_from_iff)

lemma keeps_blocked_frame:
  assumes "\<And>d. tasks (fst (m d)) = tasks d" and "\<And>d. task_deps (fst (m d)) = task_deps d"
  shows "keeps blocked_ok m"
  using blocked_ok_cong [OF assms] by (simp add: keeps_def)

lemma insert_tag_frame [simp]:
  "tasks (fst (insert_tag i kv d)) = tasks d" "task_deps (fst (insert_tag i kv d)) = task_deps d"
  by (simp_all add: insert_tag_def)

lemma insert_task_frame [simp]:
  "task_deps (fst (insert_task row d)) = task_deps d"
  "task_deps (fst (insert_or_ignore_task row d)) = task_deps d"
  by (simp_all add: insert_task_def insert_or_ignore_task_def Let_def)

lemma blocked_upd_tasks:
  assumes "blocked_ok d" and "\<And>r. p r \<Longrightarrow> row_step r (f r)"
  shows "blocked_ok (upd_tasks p f d)"
  using assms by (fastforce simp: blocked_ok_def set_sql_update row_step_def)

lemma blocked_batch_resolve: "blocked_ok d \<Longrightarrow> blocked_ok (fst (batch_resolve now ids d))"
proof -
  assume "blocked_ok d"
  let ?d1 = "del_deps (\<lambda>(_, dep). dep \<in> set ids) d"
  let ?D = "fst ` set (sql_select (\<lambda>(_, dep). dep \<in> set ids) (task_deps d))"
  let ?d2 = "upd_tasks (\<lambda>r. t_status r = Blocked \<and> t_id r \<in> ?D \<and> \<not> has_edge_from (t_id r) ?d1)
      (\<lambda>r. r\<lparr>t_status := Pending\<rparr>) ?d1"
  have ex: "blocked_ok_except ?D ?d1"
    using blocked_del_edges_to [of "{}" d "set ids"] \<open>blocked_ok d\<close> by (simp add: blocked_ok_empty)
  then have "blocked_ok ?d2"
    by (auto simp: blocked_ok_except_def blocked_ok_def set_sql_update)
  then have "blocked_ok (fold (pause_unblocked now) js ?d2)" for js
    unfolding fold_pause_unblocked by (rule blocked_upd_tasks) simp
  with ex show ?thesis
    by (auto simp: batch_resolve_def Let_def blocked_ok_empty)
qed

lemma blocked_recover: "blocked_ok d \<Longrightarrow> blocked_ok (recover_running now d)"
proof -
  assume d: "blocked_ok d"
  define d2 where "d2 = upd_tasks (\<lambda>r. t_status r = Paused \<and> t_paused_at_ms r \<noteq> None)
     (\<lambda>r. r\<lparr>t_pause_duration_ms := t_pause_duration_ms r + (now - the (t_paused_at_ms r)), t_paused_at_ms := None\<rparr>)
     (upd_tasks (\<lambda>r. t_status r = Running) (\<lambda>r. r\<lparr>t_status := Pending, t_started_at := None\<rparr>) d)"
  have "blocked_ok d2"
    unfolding d2_def using d by (intro blocked_upd_tasks) (auto simp: row_step_def)
  then show ?thesis
    unfolding recover_running_def Let_def d2_def [symmetric]
    by (auto simp: blocked_ok_def set_sql_update has_edge_from_iff del_deps_def sql_delete_none)
qed

interpretation blocked: db_invariant_partial blocked_ok
proof
  show "blocked_ok d \<Longrightarrow> (\<And>r. p r \<Longrightarrow> row_step r (f r)) \<Longrightarrow> blocked_ok (upd_tasks p f d)" for p f d
    by (rule blocked_upd_tasks)
  show "blocked_ok d \<Longrightarrow> blocked_ok (del_tasks p d)" for p d
    by (auto simp: blocked_ok_def set_sql_delete)
  show "keeps blocked_ok (insert_tag i kv)" for i kv
    by (rule keeps_blocked_frame) simp_all
  show "keeps blocked_ok (insert_history now task s m dur e skip)" for now task s m dur e skip
    by (rule keeps_blocked_frame) simp_all
  show "plain_row row \<Longrightarrow> keeps blocked_ok (insert_task row)" for row
    by (auto simp: keeps_def insert_task_def plain_row_def blocked_ok_def has_edge_from_iff Let_def)
  show "plain_row row \<Longrightarrow> keeps blocked_ok (insert_or_ignore_task row)" for row
    by (auto simp: keeps_def insert_or_ignore_task_def plain_row_def blocked_ok_def has_edge_from_iff Let_def)
  show "blocked_ok d \<Longrightarrow> blocked_ok (drop_task i d)" for i d
    by (fastforce simp: drop_task_def blocked_ok_def has_edge_from_iff set_sql_delete image_iff)
  show "fail_dependents_inner n now j d = Some (d', Inr y) \<Longrightarrow> blocked_ok d \<Longrightarrow> blocked_ok d'" for n now j d d' y
    unfolding blocked_ok_empty by (rule blocked_fail_dependents_inner)
  show "insert_dependencies i sub d = (d', Inr u) \<Longrightarrow> blocked_ok d \<Longrightarrow> blocked_ok d'" for i sub d d' and u :: unit
    by (rule keeps_eq [OF keeps_blocked_insert_deps])
  show "blocked_ok d \<Longrightarrow> blocked_ok (fst (batch_resolve now ids d))" for now ids d
    by (rule blocked_batch_resolve)
  show "blocked_ok d \<Longrightarrow> blocked_ok (recover_running now d)" for now d
    by (rule blocked_recover)
  show "keeps blocked_ok (insert_dependencies i sub)" for i sub
    by (rule keeps_blocked_insert_deps)
qed (simp_all add: blocked_ok_def has_edge_from_iff)

lemma deps_subset_fail:
  assumes "fail_dependents_inner n now j d = Some (d', x)"
  shows "set (task_deps d') \<subseteq> set (task_deps d)"
proof -
  have rem: "set (task_deps (fst (remove_failed_dependent now f task y))) \<subseteq> set (task_deps y)" for f task y
    by (auto simp: remove_failed_dependent_def andThen_def set_sql_delete split: prod.splits sum.splits)
       (metis insert_history_frame(2) fst_conv)+
  have "set (task_deps d) \<subseteq> set (task_deps d) \<Longrightarrow> set (task_deps d') \<subseteq> set (task_deps d)"
    by (rule fail_dependents_keeps [where Q = "\<lambda>y. set (task_deps y) \<subseteq> set (task_deps d)", OF _ _ _ assms])
       (auto simp: set_sql_delete intro: order_trans [OF rem, THEN subsetD])
  then show ?thesis by simp
qed

interpretation acyclic_deps: db_invariant deps_acyclic
proof
  show "deps_acyclic d \<Longrightarrow> deps_acyclic (fst (batch_resolve now ids d))" for now ids d
    by (erule deps_acyclic_subset)
       (auto simp: batch_resolve_def Let_def fold_pause_unblocked set_sql_delete)
  show "deps_acyclic d \<Longrightarrow> deps_acyclic (recover_running now d)" for now d
    by (erule deps_acyclic_subset) (auto simp: recover_running_def Let_def set_sql_delete)
  show "fail_dependents_inner n now j d = Some (d', Inr y) \<Longrightarrow> deps_acyclic d \<Longrightarrow> deps_acyclic d'" for n now j d d' y
    by (erule deps_acyclic_subset [OF _ deps_subset_fail])
  show "deps_acyclic d \<Longrightarrow> deps_acyclic (drop_task i d)" for i d
    by (erule deps_acyclic_subset) (auto simp: drop_task_def set_sql_delete)
qed (auto simp: keeps_def deps_acyclic_def acyclic_insert_deps [unfolded deps_acyclic_def])


section \<open>No paused task without a reason\<close>

text \<open>A paused task always carries a pause reason, so that clearing reasons can resume it.\<close>

definition paused_ok :: "db \<Rightarrow> bool" where
  "paused_ok d \<longleftrightarrow> (\<forall>r \<in> set (tasks d). t_status r = Paused \<longrightarrow> t_pause_reasons r \<noteq> 0)"

lemma paused_upd_tasks:
  assumes "paused_ok d" and "\<And>r. p r \<Longrightarrow> row_step r (f r)"
  shows "paused_ok (upd_tasks p f d)"
  using assms by (fastforce simp: paused_ok_def set_sql_update row_step_def)

lemma paused_ok_subset: "paused_ok d \<Longrightarrow> set (tasks d') \<subseteq> set (tasks d) \<Longrightarrow> paused_ok d'"
  by (auto simp: paused_ok_def)

lemma row_step_unblock [simp]: "row_step r (r\<lparr>t_status := Pending\<rparr>)"
  by (simp add: row_step_def)

lemma paused_pause_unblocked: "paused_ok d \<Longrightarrow> paused_ok (pause_unblocked now i d)"
  unfolding pause_unblocked_def by (rule paused_upd_tasks) simp_all

lemma paused_ignore: "paused_ok d \<Longrightarrow> paused_ok (fst (ignore_failed_dependency now i d))"
  by (simp add: ignore_failed_dependency_def Let_def paused_pause_unblocked paused_upd_tasks)

lemma paused_remove_failed: "paused_ok d \<Longrightarrow> paused_ok (fst (remove_failed_dependent now f task d))"
  by (erule paused_ok_subset)
     (auto simp: remove_failed_dependent_def andThen_def set_sql_delete split: prod.splits sum.splits
       dest!: arg_cong [of _ _ "\<lambda>x. tasks (fst x)"])

lemma paused_fold: "(\<And>i d. paused_ok d \<Longrightarrow> paused_ok (f i d)) \<Longrightarrow> paused_ok d \<Longrightarrow> paused_ok (fold f is d)"
  by (induction "is" arbitrary: d) simp_all

lemma paused_batch_resolve: "paused_ok d \<Longrightarrow> paused_ok (fst (batch_resolve now ids d))"
proof -
  assume "paused_ok d"
  then have "paused_ok (del_deps p d)" for p by (simp add: paused_ok_def)
  then show ?thesis
    by (simp add: batch_resolve_def Let_def paused_fold paused_pause_unblocked paused_upd_tasks)
qed

lemma paused_recover: "paused_ok d \<Longrightarrow> paused_ok (recover_running now d)"
proof -
  assume d: "paused_ok d"
  have dd: "paused_ok e \<Longrightarrow> paused_ok (del_deps q e)" for q e by (simp add: paused_ok_def)
  show ?thesis
    unfolding recover_running_def Let_def
    by (auto intro!: paused_upd_tasks dd d simp: row_step_def)
qed

lemma paused_insert_deps: "keeps paused_ok (insert_dependencies i sub)"
proof (rule keepsI)
  fix d assume d: "paused_ok d"
  obtain d' r where run: "insert_dependencies i sub d = (d', r)" by force
  show "paused_ok (fst (insert_dependencies i sub d))"
  proof (cases r)
    case (Inl e)
    with run d insert_deps_error show ?thesis by (fastforce simp: paused_ok_def)
  next
    case (Inr u)
    with run obtain act where "d' = (if act = [] then d else upd_tasks (\<lambda>r. t_id r = i)
        (\<lambda>r. r\<lparr>t_status := Blocked\<rparr>) (d\<lparr>task_deps := task_deps d @ map (Pair i) act\<rparr>))"
      using insert_deps_success by metis
    with run d show ?thesis by (auto simp: paused_ok_def set_sql_update)
  qed
qed

lemma keeps_paused_frame: "(\<And>d. tasks (fst (m d)) = tasks d) \<Longrightarrow> keeps paused_ok m"
  by (simp add: keeps_def paused_ok_def)

interpretation paused: db_invariant_partial paused_ok
proof
  show "keeps paused_ok (insert_tag i kv)" for i kv
    by (rule keeps_paused_frame) simp
  show "keeps paused_ok (insert_history now task s m dur e skip)" for now task s m dur e skip
    by (rule keeps_paused_frame) simp
  show "paused_ok d \<Longrightarrow> (\<And>r. p r \<Longrightarrow> row_step r (f r)) \<Longrightarrow> paused_ok (upd_tasks p f d)" for p f d
    by (rule paused_upd_tasks)
  show "plain_row row \<Longrightarrow> keeps paused_ok (insert_task row)" for row
    by (auto simp: keeps_def insert_task_def plain_row_def paused_ok_def Let_def)
  show "plain_row row \<Longrightarrow> keeps paused_ok (insert_or_ignore_task row)" for row
    by (auto simp: keeps_def insert_or_ignore_task_def plain_row_def paused_ok_def Let_def)
  show "fail_dependents_inner n now j d = Some (d', Inr y) \<Longrightarrow> paused_ok d \<Longrightarrow> paused_ok d'" for n now j d d' y
    by (rule fail_dependents_keeps [where Q = paused_ok])
       (auto intro: paused_ignore paused_remove_failed paused_ok_subset)
  show "insert_dependencies i sub d = (d', Inr u) \<Longrightarrow> paused_ok d \<Longrightarrow> paused_ok d'" for i sub d d' and u :: unit
    by (rule keeps_eq [OF paused_insert_deps])
qed (auto simp: drop_task_def set_sql_delete
    intro: paused_batch_resolve paused_recover paused_insert_deps paused_ok_subset keepsI)

end
