(* ===== verification/Aging.thy ===== *)
theory Aging
  imports Task_Types
begin

text \<open>
  Priority aging: \<open>src/src/scheduler/aging.rs\<close>, and the aging expression that the
  dispatch queries of \<open>src/src/store/lifecycle/transitions.rs\<close> and
  \<open>src/src/store/query/scheduling.rs\<close> put in their \<open>ORDER BY\<close> clause.

  The clock is the argument \<open>now\<close>. Millisecond arithmetic is exact (it stays far
  from the bounds of \<open>i64\<close>), but the casts of durations to \<open>i64\<close> and of the number
  of promotions to \<open>u8\<close> are the casts of the source.
\<close>

record aging_config =
  grace_period :: duration
  aging_interval :: duration
  max_effective_priority :: priority
  urgent_threshold :: "priority option"

definition aging_default :: aging_config where
  "aging_default = \<lparr>grace_period = from_secs 300, aging_interval = from_secs 60,
                    max_effective_priority = HIGH, urgent_threshold = None\<rparr>"

definition aging_validate :: "aging_config \<Rightarrow> string + unit" where
  "aging_validate c =
     (if aging_interval c = 0 then Inl ''aging_interval must be non-zero''
      else case urgent_threshold c of
             None \<Rightarrow> Inr ()
           | Some urgent \<Rightarrow>
               if pvalue urgent < pvalue (max_effective_priority c)
               then Inl ''urgent_threshold is higher priority than max_effective_priority''
               else Inr ())"

record aging_params =
  ap_now_ms :: int
  ap_grace_period_ms :: int
  ap_aging_interval_ms :: int
  ap_max_effective_priority :: int

definition aging_params_from_config :: "timestamp \<Rightarrow> aging_config \<Rightarrow> aging_params" where
  "aging_params_from_config now c =
     \<lparr>ap_now_ms = now,
      ap_grace_period_ms = as_i64 (as_millis (grace_period c)),
      ap_aging_interval_ms = as_i64 (max (as_millis (aging_interval c)) 1),
      ap_max_effective_priority = uint (pvalue (max_effective_priority c))\<rparr>"

definition effective_priority ::
    "timestamp \<Rightarrow> priority \<Rightarrow> int \<Rightarrow> int \<Rightarrow> aging_config \<Rightarrow> priority" where
  "effective_priority now base created_at_ms pause_duration_ms c =
     (let age_ms = now - created_at_ms - pause_duration_ms;
          grace_ms = as_i64 (as_millis (grace_period c));
          interval_ms = as_i64 (max (as_millis (aging_interval c)) 1);
          promotions = word_of_int (min (trunc_div (max (age_ms - grace_ms) 0) interval_ms) 255);
          effective = saturating_sub8 (pvalue base) promotions;
          floor = pvalue (max_effective_priority c)
      in Priority (max effective floor))"

definition record_effective_priority ::
    "timestamp \<Rightarrow> aging_config option \<Rightarrow> task_record \<Rightarrow> priority" where
  "record_effective_priority now config r =
     (case config of
        None \<Rightarrow> t_priority r
      | Some c \<Rightarrow> effective_priority now (t_priority r) (t_created_at r) (t_pause_duration_ms r) c)"

text \<open>The SQL expression \<open>MAX(priority - MAX(0, (now - created_at - pause_duration_ms -
  grace) / interval), floor)\<close>; without aging the queries order by the stored priority.\<close>

definition aged_priority_sql :: "aging_params \<Rightarrow> task_record \<Rightarrow> int" where
  "aged_priority_sql ap r =
     max (priority_col (t_priority r)
          - max 0 (trunc_div (ap_now_ms ap - t_created_at r - t_pause_duration_ms r
                              - ap_grace_period_ms ap) (ap_aging_interval_ms ap)))
         (ap_max_effective_priority ap)"

definition order_priority :: "aging_params option \<Rightarrow> task_record \<Rightarrow> int" where
  "order_priority aging r =
     (case aging of None \<Rightarrow> priority_col (t_priority r) | Some ap \<Rightarrow> aged_priority_sql ap r)"

section \<open>Lemmas\<close>

text \<open>A configuration whose durations fit in the millisecond columns.\<close>

definition aging_config_ok :: "aging_config \<Rightarrow> bool" where
  "aging_config_ok c \<longleftrightarrow>
     as_millis (grace_period c) < 2 ^ 63 \<and> as_millis (aging_interval c) < 2 ^ 63"

definition aging_interval_ms :: "aging_config \<Rightarrow> int" where
  "aging_interval_ms c = max (int (as_millis (aging_interval c))) 1"

lemma aging_interval_pos: "0 < aging_interval_ms c"
  by (simp add: aging_interval_ms_def)

definition promotions_of :: "timestamp \<Rightarrow> int \<Rightarrow> int \<Rightarrow> aging_config \<Rightarrow> int" where
  "promotions_of now created pause c =
     max (now - created - pause - int (as_millis (grace_period c))) 0 div aging_interval_ms c"

lemma promotions_nonneg: "0 \<le> promotions_of now created pause c"
  by (simp add: promotions_of_def pos_imp_zdiv_nonneg_iff aging_interval_pos)

lemma promotions_mono: "now \<le> now' \<Longrightarrow> promotions_of now created pause c \<le> promotions_of now' created pause c"
  unfolding promotions_of_def by (rule zdiv_mono1) (auto simp: aging_interval_pos)

lemma uint_sat_sub: "uint (saturating_sub8 a b) = max (uint a - uint b) 0"
  unfolding uint_nat unat_saturating_sub8 by arith

lemma clamp_promotions:
  fixes p q f :: int
  shows "0 \<le> q \<Longrightarrow> p \<le> 255 \<Longrightarrow> 0 \<le> f \<Longrightarrow> max (max (p - min q 255) 0) f = max (p - q) f"
  by (auto simp: max_def min_def)

text \<open>What the Rust function computes, with the word arithmetic resolved.\<close>

lemma effective_priority_col:
  assumes "aging_config_ok c"
  shows "priority_col (effective_priority now base created pause c)
    = max (priority_col base - promotions_of now created pause c)
          (priority_col (max_effective_priority c))"
proof -
  let ?q = "promotions_of now created pause c"
  have iv: "as_i64 (max (as_millis (aging_interval c)) 1) = aging_interval_ms c"
    using assms by (simp add: aging_config_ok_def aging_interval_ms_def)
  have q: "trunc_div (max (now - created - pause - as_i64 (as_millis (grace_period c))) 0)
             (as_i64 (max (as_millis (aging_interval c)) 1)) = ?q"
    unfolding iv using assms
    by (simp add: trunc_div_nonneg aging_interval_pos promotions_of_def aging_config_ok_def)
  have w: "uint (word_of_int (min ?q 255) :: 8 word) = min ?q 255"
    using promotions_nonneg [of now created pause c] by (simp add: uint_word_of_int)
  have "uint (max a b) = max (uint a) (uint b)" for a b :: "8 word"
    by (simp add: max_def word_le_def)
  then show ?thesis
    using promotions_nonneg [of now created pause c] priority_col_range [of base]
      priority_col_range [of "max_effective_priority c"]
    unfolding effective_priority_def Let_def q priority_col_def
    by (simp add: uint_sat_sub w clamp_promotions)
qed

lemma effective_priority_monotone:
  assumes "aging_config_ok c" and "now \<le> now'"
  shows "effective_priority now base created pause c \<le> effective_priority now' base created pause c"
proof -
  have "priority_col (effective_priority now' base created pause c)
        \<le> priority_col (effective_priority now base created pause c)"
    using promotions_mono [OF assms(2), of created pause c]
    by (simp add: effective_priority_col [OF assms(1)] del: priority_col_le)
  then show ?thesis by simp
qed

text \<open>C39: the SQL expression that orders the dispatch queries and the Rust function that
  events and snapshots use compute the same priority, for every task and every
  configuration whose durations fit in 64-bit milliseconds.\<close>

theorem aging_sql_matches_rust:
  assumes "aging_config_ok c"
  shows "aged_priority_sql (aging_params_from_config now c) r
    = priority_col (record_effective_priority now (Some c) r)"
proof -
  have g: "as_i64 (as_millis (grace_period c)) = int (as_millis (grace_period c))"
    and iv: "as_i64 (max (as_millis (aging_interval c)) 1) = aging_interval_ms c"
    using assms by (simp_all add: aging_config_ok_def aging_interval_ms_def)
  have "max 0 (trunc_div (now - t_created_at r - t_pause_duration_ms r
          - int (as_millis (grace_period c))) (aging_interval_ms c))
        = promotions_of now (t_created_at r) (t_pause_duration_ms r) c"
    by (simp add: trunc_div_max aging_interval_pos promotions_of_def max.commute)
  then show ?thesis
    unfolding aged_priority_sql_def aging_params_from_config_def record_effective_priority_def g iv
    by (simp add: effective_priority_col [OF assms] flip: priority_col_def)
qed

theorem aging_sql_matches_rust_witness:
  "aging_config_ok aging_default
   \<and> (\<forall>r. aged_priority_sql (aging_params_from_config 1000000 aging_default) r
          = priority_col (record_effective_priority 1000000 (Some aging_default) r))"
proof -
  have ok: "aging_config_ok aging_default"
    by (simp add: aging_config_ok_def aging_default_def from_secs_def as_millis_def)
  with aging_sql_matches_rust [OF ok] show ?thesis by simp
qed



text \<open>A task above the ceiling is demoted to it, already within the grace period.\<close>

lemma realtime_demoted:
  "effective_priority 0 REALTIME 0 0 aging_default = HIGH"
  by (simp add: effective_priority_def Let_def REALTIME_def HIGH_def aging_default_def
      saturating_sub8_def from_secs_def as_millis_def trunc_div_def)

text \<open>A validated urgent threshold is reachable: it is not above the ceiling.\<close>

lemma validate_urgent:
  "aging_validate c = Inr () \<longleftrightarrow>
     0 < aging_interval c \<and> (\<forall>u. urgent_threshold c = Some u \<longrightarrow> u \<le> max_effective_priority c)"
  by (auto simp: aging_validate_def priority_le_iff not_less split: option.splits)

end
