(* ===== verification/Retry.thy ===== *)
theory Retry
  imports Task_Types
begin

text \<open>
  Executor errors and retry policies: \<open>src/src/task/error.rs\<close> and
  \<open>src/src/task/retry.rs\<close>.

  The fields of the enum variants keep the source's order (\<open>initial, increment, max\<close> and
  \<open>initial, max, multiplier\<close>). \<open>delay_for\<close> returns \<open>None\<close> where the Rust code panics: \<open>Duration\<close> arithmetic
  that leaves the range of \<open>Duration\<close>. The \<open>f64\<close> multiplier is an exact rational,
  and \<open>mul_f64\<close> rounds the exact product to whole nanoseconds. The random number
  of the jitter strategy is a parameter: \<open>rnd n\<close> stands for
  \<open>fastrand::u64(0..=n)\<close>.
\<close>

section \<open>Task errors\<close>

record task_error =
  err_message :: string
  err_retryable :: bool
  err_cancelled :: bool
  err_retry_after_ms :: "nat option"

definition error_new :: "string \<Rightarrow> task_error" where
  "error_new m = \<lparr>err_message = m, err_retryable = False, err_cancelled = False, err_retry_after_ms = None\<rparr>"

definition error_permanent :: "string \<Rightarrow> task_error" where
  "error_permanent m = error_new m"

definition error_retryable :: "string \<Rightarrow> task_error" where
  "error_retryable m = \<lparr>err_message = m, err_retryable = True, err_cancelled = False, err_retry_after_ms = None\<rparr>"

definition error_cancelled :: task_error where
  "error_cancelled =
     \<lparr>err_message = ''task cancelled'', err_retryable = False, err_cancelled = True, err_retry_after_ms = None\<rparr>"

definition is_cancelled :: "task_error \<Rightarrow> bool" where
  "is_cancelled e = err_cancelled e"

definition retry_after :: "duration \<Rightarrow> task_error \<Rightarrow> task_error" where
  "retry_after delay e = e\<lparr>err_retry_after_ms := Some (as_millis delay mod 2 ^ 64)\<rparr>"

definition retry_delay :: "task_error \<Rightarrow> duration option" where
  "retry_delay e = map_option from_millis (err_retry_after_ms e)"

lemma retry_delay_after:
  "as_millis d < 2 ^ 64 \<Longrightarrow> retry_delay (retry_after d e) = Some (d - d mod 1000000)"
  by (simp add: retry_delay_def retry_after_def as_millis_def from_millis_def minus_mod_eq_div_mult)

section \<open>Backoff\<close>

datatype backoff_strategy =
    Constant duration
  | Linear duration duration duration
  | Exponential duration duration rat
  | ExponentialJitter duration duration rat

definition DURATION_MAX :: duration where
  "DURATION_MAX = (2 ^ 64 - 1) * 1000000000 + 999999999"

definition duration_checked :: "nat \<Rightarrow> duration option" where
  "duration_checked n = (if n \<le> DURATION_MAX then Some n else None)"

definition as_u32 :: "int \<Rightarrow> nat" where
  "as_u32 i = nat (i mod 2 ^ 32)"

definition mul_f64 :: "duration \<Rightarrow> rat \<Rightarrow> duration option" where
  "mul_f64 d x =
     (if of_nat d * x < 0 then None else duration_checked (nat (round (of_nat d * x))))"

definition delay_for :: "(nat \<Rightarrow> nat) \<Rightarrow> backoff_strategy \<Rightarrow> int \<Rightarrow> duration option" where
  "delay_for rnd strategy retry_count =
     (case strategy of
        Constant d \<Rightarrow> Some d
      | Linear ini inc mx \<Rightarrow>
          (case duration_checked (inc * as_u32 retry_count) of
             None \<Rightarrow> None
           | Some step \<Rightarrow>
               (case duration_checked (ini + step) of
                  None \<Rightarrow> None
                | Some d \<Rightarrow> Some (min d mx)))
      | Exponential ini mx mul \<Rightarrow>
          (case mul_f64 ini (power_int mul retry_count) of
             None \<Rightarrow> None
           | Some d \<Rightarrow> Some (min d mx))
      | ExponentialJitter ini mx mul \<Rightarrow>
          (case mul_f64 ini (power_int mul retry_count) of
             None \<Rightarrow> None
           | Some d \<Rightarrow>
               let base_ms = as_millis (min d mx) mod 2 ^ 64
               in if base_ms = 0 then Some 0 else Some (from_millis (rnd base_ms))))"

fun max_delay_of :: "backoff_strategy \<Rightarrow> duration" where
  "max_delay_of (Constant d) = d"
| "max_delay_of (Linear _ _ mx) = mx"
| "max_delay_of (Exponential _ mx _) = mx"
| "max_delay_of (ExponentialJitter _ mx _) = mx"

section \<open>Retry policies\<close>

record retry_policy =
  rp_strategy :: backoff_strategy
  rp_max_retries :: int

definition as_i32 :: "nat \<Rightarrow> int" where
  "as_i32 n = (let m = int n mod 2 ^ 32 in if m < 2 ^ 31 then m else m - 2 ^ 32)"

definition backoff_default :: backoff_strategy where
  "backoff_default = Constant 0"

definition policy_constant :: "nat \<Rightarrow> duration \<Rightarrow> retry_policy" where
  "policy_constant n d = \<lparr>rp_strategy = Constant d, rp_max_retries = as_i32 n\<rparr>"

definition policy_linear :: "nat \<Rightarrow> duration \<Rightarrow> duration \<Rightarrow> duration \<Rightarrow> retry_policy" where
  "policy_linear n ini inc mx = \<lparr>rp_strategy = Linear ini inc mx, rp_max_retries = as_i32 n\<rparr>"

definition policy_exponential :: "nat \<Rightarrow> duration \<Rightarrow> duration \<Rightarrow> retry_policy" where
  "policy_exponential n ini mx = \<lparr>rp_strategy = Exponential ini mx 2, rp_max_retries = as_i32 n\<rparr>"

definition policy_exponential_jitter :: "nat \<Rightarrow> duration \<Rightarrow> duration \<Rightarrow> retry_policy" where
  "policy_exponential_jitter n ini mx =
     \<lparr>rp_strategy = ExponentialJitter ini mx 2, rp_max_retries = as_i32 n\<rparr>"

definition policy_default :: retry_policy where
  "policy_default = \<lparr>rp_strategy = backoff_default, rp_max_retries = 3\<rparr>"

section \<open>Lemmas\<close>

lemma from_as_millis_le: "from_millis (as_millis d) \<le> d"
  by (simp add: from_millis_def as_millis_def div_times_less_eq_dividend)

lemma mul_f64_mono:
  assumes "0 \<le> x" and "x \<le> y" and "mul_f64 d y = Some b"
  shows "\<exists>a. mul_f64 d x = Some a \<and> a \<le> b"
proof -
  have xy: "of_nat d * x \<le> of_nat d * y" using assms(2) by (simp add: mult_left_mono)
  have nn: "0 \<le> of_nat d * x" using assms(1) by simp
  have "nat (round (of_nat d * x)) \<le> nat (round (of_nat d * y))"
    using round_mono [OF xy] by simp
  with assms(3) nn xy show ?thesis
    by (auto simp: mul_f64_def duration_checked_def split: if_splits)
qed

text \<open>The delay a strategy returns never exceeds its cap, whatever the random source.\<close>

lemma jitter_le_base:
  assumes "rnd (as_millis b mod 2 ^ 64) \<le> as_millis b mod 2 ^ 64"
  shows "from_millis (rnd (as_millis b mod 2 ^ 64)) \<le> b"
proof -
  have "rnd (as_millis b mod 2 ^ 64) \<le> as_millis b"
    using assms by (meson le_trans mod_less_eq_dividend)
  then have "from_millis (rnd (as_millis b mod 2 ^ 64)) \<le> from_millis (as_millis b)"
    by (simp add: from_millis_def)
  then show ?thesis using from_as_millis_le by (rule le_trans)
qed

text \<open>A computed retry delay never exceeds the cap of its strategy (for a
  constant strategy, the delay itself), for every random source that stays in its
  range.\<close>

theorem delay_for_le_max:
  assumes rnd: "\<forall>n. rnd n \<le> n"
    and delay: "delay_for rnd s k = Some d"
  shows "d \<le> max_delay_of s"
proof (cases s)
  case (ExponentialJitter ini mx mul)
  obtain b where b: "mul_f64 ini (power_int mul k) = Some b"
    using delay ExponentialJitter by (auto simp: delay_for_def split: option.splits)
  have "from_millis (rnd (as_millis (min b mx) mod 2 ^ 64)) \<le> min b mx"
    using rnd by (intro jitter_le_base) simp
  with delay ExponentialJitter b show ?thesis
    by (auto simp: delay_for_def Let_def split: if_splits)
qed (use delay in \<open>auto simp: delay_for_def split: option.splits\<close>)

theorem delay_for_le_max_witness:
  "delay_for (\<lambda>n. n div 2) (Exponential 1000000000 60000000000 2) 3 = Some 8000000000
   \<and> (8000000000::nat) \<le> max_delay_of (Exponential 1000000000 60000000000 2)"
proof -
  have d: "delay_for (\<lambda>n. n div 2) (Exponential 1000000000 60000000000 2) 3 = Some 8000000000"
    by (simp add: delay_for_def mul_f64_def duration_checked_def DURATION_MAX_def)
  moreover have "8000000000 \<le> max_delay_of (Exponential 1000000000 60000000000 2)"
    by (rule delay_for_le_max [OF _ d]) simp
  ultimately show ?thesis by simp
qed

text \<open>With a multiplier of at least one, a later retry never waits less than
  an earlier one: the exponential delay grows with the retry count until it
  reaches its cap.\<close>

theorem exponential_delay_mono:
  assumes "1 \<le> m" and "0 \<le> i" and "i \<le> j"
    and "delay_for rnd (Exponential ini mx m) j = Some b"
  shows "\<exists>a. delay_for rnd (Exponential ini mx m) i = Some a \<and> a \<le> b"
proof -
  obtain b' where b': "mul_f64 ini (power_int m j) = Some b'" and b: "b = min b' mx"
    using assms(4) by (auto simp: delay_for_def split: option.splits)
  have "0 \<le> power_int m i" using assms(1) by simp
  moreover have "power_int m i \<le> power_int m j"
    using assms(1,3) by (simp add: power_int_increasing)
  ultimately obtain a' where "mul_f64 ini (power_int m i) = Some a'" and "a' \<le> b'"
    using mul_f64_mono b' by blast
  with b show ?thesis by (auto simp: delay_for_def)
qed

theorem exponential_delay_mono_witness:
  "delay_for id (Exponential 1000000000 60000000000 2) 5 = Some 32000000000
   \<and> (\<exists>a. delay_for id (Exponential 1000000000 60000000000 2) 1 = Some a \<and> a \<le> 32000000000)"
proof -
  have d: "delay_for id (Exponential 1000000000 60000000000 2) 5 = Some 32000000000"
    by (simp add: delay_for_def mul_f64_def duration_checked_def DURATION_MAX_def)
  moreover have "\<exists>a. delay_for id (Exponential 1000000000 60000000000 2) 1 = Some a \<and> a \<le> 32000000000"
    by (rule exponential_delay_mono [OF _ _ _ d]) simp_all
  ultimately show ?thesis by simp
qed

text \<open>The product is computed before the cap is applied, so a large retry count
  panics although the capped delay is small.\<close>

lemma exponential_overflow:
  "delay_for rnd (Exponential 1000000000 60000000000 2) 65 = None"
  by (simp add: delay_for_def mul_f64_def duration_checked_def DURATION_MAX_def)

end
