(* ===== verification/Store_Lifecycle.thy ===== *)
theory Store_Lifecycle
  imports Store_Invariant Aging Retry
begin

text \<open>
  The state machine of a task: \<open>src/src/store/lifecycle/transitions.rs\<close>.

  The \<open>UPDATE ... WHERE id = (SELECT ... ORDER BY ... LIMIT 1)\<close> of the dispatch queries
  orders by the (aged) priority and the rowid. \<open>fail_inner\<close> returns \<open>None\<close> when the
  backoff computation panics, which happens before anything is written. Rows that a
  batch statement returns come in table order.
\<close>

section \<open>Pop, peek, requeue\<close>

definition eligible :: "timestamp \<Rightarrow> task_record \<Rightarrow> bool" where
  "eligible now r \<longleftrightarrow> t_status r = Pending \<and> (case t_run_after r of None \<Rightarrow> True | Some t \<Rightarrow> t \<le> now)"

definition unexpired :: "timestamp \<Rightarrow> task_record \<Rightarrow> bool" where
  "unexpired now r \<longleftrightarrow> (case t_expires_at r of None \<Rightarrow> True | Some t \<Rightarrow> t > now)"

definition dispatch_key :: "aging_params option \<Rightarrow> task_record \<Rightarrow> int \<times> int" where
  "dispatch_key aging r = (order_priority aging r, t_id r)"

definition run_row :: "timestamp \<Rightarrow> task_record \<Rightarrow> task_record" where
  "run_row now r =
     r\<lparr>t_status := Running, t_started_at := Some now,
       t_expires_at :=
         (case t_ttl_seconds r of
            Some ttl \<Rightarrow> if t_ttl_from r = FirstAttempt \<and> t_expires_at r = None
                        then Some (now + ttl * 1000) else t_expires_at r
          | None \<Rightarrow> t_expires_at r)\<rparr>"

definition peek_next :: "timestamp \<Rightarrow> aging_params option \<Rightarrow> db \<Rightarrow> task_record option" where
  "peek_next now aging d =
     first_row (order_by (dispatch_key aging) (sql_select (eligible now) (tasks d)))"

definition dispatch_queue :: "timestamp \<Rightarrow> aging_params option \<Rightarrow> db \<Rightarrow> task_record list" where
  "dispatch_queue now aging d =
     order_by (dispatch_key aging) (sql_select (\<lambda>r. eligible now r \<and> unexpired now r) (tasks d))"

definition populate_tags :: "task_store \<Rightarrow> task_record \<Rightarrow> task_record" where
  "populate_tags st r =
     (if \<not> st_has_tags st then r
      else case load_task_tags (t_id r) (st_db st) of [] \<Rightarrow> r | tags \<Rightarrow> r\<lparr>t_tags := tags\<rparr>)"

definition pop_by_id :: "timestamp \<Rightarrow> int \<Rightarrow> task_store \<Rightarrow> task_store \<times> task_record option" where
  "pop_by_id now i st =
     (let p = (\<lambda>r. t_id r = i \<and> t_status r = Pending);
          st' = st\<lparr>st_db := upd_tasks p (run_row now) (st_db st)\<rparr>
      in (st', map_option (\<lambda>r. populate_tags st' (run_row now r)) (first_row (sql_select p (tasks (st_db st))))))"

definition claim_task :: "timestamp \<Rightarrow> int \<Rightarrow> task_store \<Rightarrow> task_store \<times> bool" where
  "claim_task now i st =
     (let p = (\<lambda>r. t_id r = i \<and> t_status r = Pending);
          claimed = sql_exists p (tasks (st_db st));
          st' = st\<lparr>st_db := upd_tasks p (run_row now) (st_db st)\<rparr>
      in (if claimed then st'\<lparr>st_has_running := True\<rparr> else st', claimed))"

definition pop_next :: "timestamp \<Rightarrow> aging_params option \<Rightarrow> task_store \<Rightarrow> task_store \<times> task_record option" where
  "pop_next now aging st =
     (case first_row (dispatch_queue now aging (st_db st)) of
        None \<Rightarrow> (st, None)
      | Some r \<Rightarrow> (st\<lparr>st_db := upd_tasks (\<lambda>x. t_id x = t_id r) (run_row now) (st_db st), st_has_running := True\<rparr>,
                   Some (run_row now r)))"

definition pop_next_batch ::
    "timestamp \<Rightarrow> nat \<Rightarrow> aging_params option \<Rightarrow> task_store \<Rightarrow> task_store \<times> task_record list" where
  "pop_next_batch now limit aging st =
     (if limit = 0 then (st, [])
      else if limit = 1
      then (case pop_next now aging st of (st', r) \<Rightarrow> (st', case r of None \<Rightarrow> [] | Some x \<Rightarrow> [x]))
      else let ids = map t_id (take limit (dispatch_queue now aging (st_db st)));
               p = (\<lambda>r. t_id r \<in> set ids);
               records = map (run_row now) (sql_select p (tasks (st_db st)));
               st' = st\<lparr>st_db := upd_tasks p (run_row now) (st_db st)\<rparr>
           in (if records \<noteq> [] then st'\<lparr>st_has_running := True\<rparr> else st', records))"

definition requeue :: "int \<Rightarrow> db \<Rightarrow> db" where
  "requeue i = upd_tasks (\<lambda>r. t_id r = i \<and> t_status r = Running)
                 (\<lambda>r. r\<lparr>t_status := Pending, t_started_at := None\<rparr>)"

section \<open>Complete\<close>

text \<open>The common end of the transitions: commit the transaction, then maybe prune.\<close>

definition commit_and_prune :: "timestamp \<Rightarrow> 'a db_stmt \<Rightarrow> 'a store_stmt" where
  "commit_and_prune now m st =
     (case transact m st of
        (st', Inl e) \<Rightarrow> (st', Inl e)
      | (st', Inr x) \<Rightarrow> (maybe_prune now st', Inr x))"

definition map_result :: "('a \<Rightarrow> 'b) \<Rightarrow> task_store \<times> (store_error + 'a) \<Rightarrow> task_store \<times> (store_error + 'b)" where
  "map_result f r = (fst r, case snd r of Inl e \<Rightarrow> Inl e | Inr x \<Rightarrow> Inr (f x))"

definition requeue_row :: "task_record \<Rightarrow> task_record" where
  "requeue_row r =
     r\<lparr>t_status := Pending,
       t_priority := (case t_requeue_priority r of Some p \<Rightarrow> p | None \<Rightarrow> t_priority r),
       t_started_at := None, t_retry_count := 0, t_last_error := None,
       t_requeue := False, t_requeue_priority := None\<rparr>"

definition recurring_row :: "timestamp \<Rightarrow> task_record \<Rightarrow> int \<Rightarrow> int \<Rightarrow> task_record" where
  "recurring_row now task interval execution_count =
     \<lparr>t_id = 0, t_task_type = t_task_type task, t_key = t_key task, t_label = t_label task,
      t_priority = t_priority task, t_status = Pending, t_payload = t_payload task,
      t_expected_io = t_expected_io task, t_retry_count = 0, t_last_error = None,
      t_created_at = now, t_started_at = None, t_requeue = False, t_requeue_priority = None,
      t_parent_id = t_parent_id task, t_fail_fast = t_fail_fast task,
      t_group_key = t_group_key task, t_ttl_seconds = t_ttl_seconds task,
      t_ttl_from = t_ttl_from task,
      t_expires_at = (case (t_ttl_seconds task, t_ttl_from task) of
                        (Some ttl, Submission) \<Rightarrow> Some (now + ttl * 1000) | _ \<Rightarrow> None),
      t_run_after = Some (now + interval * 1000),
      t_recurring_interval_secs = t_recurring_interval_secs task,
      t_recurring_max_executions = t_recurring_max_executions task,
      t_recurring_execution_count = execution_count, t_recurring_paused = False,
      t_dependencies = [], t_on_dependency_failure = Cancel, t_tags = [],
      t_max_retries = t_max_retries task, t_memo = None, t_pause_reasons = 0,
      t_pause_duration_ms = 0, t_paused_at_ms = None\<rparr>"

definition create_next_instance ::
    "timestamp \<Rightarrow> task_record \<Rightarrow> (string, string) assoc \<Rightarrow> (timestamp \<times> int) option db_stmt" where
  "create_next_instance now task saved_tags =
     (case t_recurring_interval_secs task of
        None \<Rightarrow> ok None
      | Some interval \<Rightarrow>
          let execution_count = t_recurring_execution_count task + 1
          in if t_recurring_paused task then ok None
             else if (case t_recurring_max_executions task of None \<Rightarrow> False | Some mx \<Rightarrow> \<not> execution_count < mx)
             then ok None
             else andThen (fetch (\<lambda>d. sql_exists (\<lambda>r. t_key r = t_key task \<and> t_status r = Pending) (tasks d)))
                    (\<lambda>existing. if existing then ok None
                       else andThen (insert_task (recurring_row now task interval execution_count))
                              (\<lambda>next_id. andThen (insert_tags next_id saved_tags)
                              (\<lambda>_. andThen (exec (\<lambda>d. if group_is_paused (t_group_key task) d
                                                        then upd_tasks (\<lambda>r. t_id r = next_id) (pause_row now GROUP) d
                                                        else d))
                              (\<lambda>_. ok (Some (now + interval * 1000, execution_count)))))))"

definition complete_inner ::
    "timestamp \<Rightarrow> task_record \<Rightarrow> io_budget \<Rightarrow> bool \<Rightarrow> (timestamp \<times> int) option db_stmt" where
  "complete_inner now task metrics skip_tags =
     andThen (insert_history now task HCompleted metrics (compute_duration_ms now task) (t_last_error task) skip_tags)
       (\<lambda>_. andThen (fetch (\<lambda>d. if t_recurring_interval_secs task \<noteq> None then load_task_tags (t_id task) d else []))
       (\<lambda>saved_tags. andThen (fetch (\<lambda>d. sql_exists (\<lambda>r. t_id r = t_id task \<and> \<not> t_requeue r) (tasks d)))
       (\<lambda>deleted. andThen (exec (del_tasks (\<lambda>r. t_id r = t_id task \<and> \<not> t_requeue r)))
       (\<lambda>_. if \<not> deleted
             then andThen (exec (upd_tasks (\<lambda>r. t_id r = t_id task) requeue_row)) (\<lambda>_. ok None)
             else andThen (exec (if skip_tags then id else delete_task_tags (t_id task)))
                    (\<lambda>_. create_next_instance now task saved_tags)))))"

definition complete :: "timestamp \<Rightarrow> int \<Rightarrow> io_budget \<Rightarrow> unit store_stmt" where
  "complete now i metrics st =
     (case task_by_rowid i (st_db st) of
        None \<Rightarrow> (st, Inr ())
      | Some task \<Rightarrow>
          map_result (\<lambda>_. ()) (commit_and_prune now (complete_inner now task metrics (\<not> st_has_tags st)) st))"

definition complete_with_record ::
    "timestamp \<Rightarrow> task_record \<Rightarrow> io_budget \<Rightarrow> (timestamp \<times> int) option store_stmt" where
  "complete_with_record now task metrics st =
     commit_and_prune now (complete_inner now task metrics (\<not> st_has_tags st)) st"

definition complete_and_resolve ::
    "timestamp \<Rightarrow> bool \<Rightarrow> task_record \<times> io_budget \<Rightarrow> (int \<times> (timestamp \<times> int) option \<times> int list) db_stmt" where
  "complete_and_resolve now skip_tags item =
     andThen (complete_inner now (fst item) (snd item) skip_tags)
       (\<lambda>recurring. \<lambda>d. case resolve_dependents_inner now (t_id (fst item)) d of
          (d', unblocked) \<Rightarrow> (d', Inr (t_id (fst item), recurring, unblocked)))"

definition complete_with_record_and_resolve ::
    "timestamp \<Rightarrow> task_record \<Rightarrow> io_budget \<Rightarrow> ((timestamp \<times> int) option \<times> int list) store_stmt" where
  "complete_with_record_and_resolve now task metrics st =
     map_result snd (commit_and_prune now (complete_and_resolve now (\<not> st_has_tags st) (task, metrics)) st)"

text \<open>The batched path for tasks without a recurring schedule.\<close>

definition batch_delete :: "bool \<Rightarrow> int list \<Rightarrow> db \<Rightarrow> db" where
  "batch_delete skip_tags ids d =
     (let p = (\<lambda>r. t_id r \<in> set ids \<and> \<not> t_requeue r);
          deleted = map t_id (sql_select p (tasks d));
          d1 = del_tasks p d;
          d2 = fold (\<lambda>i d. if i \<in> set deleted then d else upd_tasks (\<lambda>r. t_id r = i) requeue_row d) ids d1
      in if skip_tags \<or> deleted = [] then d2
         else d2\<lparr>task_tags := sql_delete (\<lambda>(t, _). t \<in> set deleted) (task_tags d2)\<rparr>)"

definition complete_batch_fast ::
    "timestamp \<Rightarrow> bool \<Rightarrow> (task_record \<times> io_budget) list \<Rightarrow> int list db_stmt" where
  "complete_batch_fast now skip_tags items =
     andThen (for_each (\<lambda>(task, metrics). insert_history now task HCompleted metrics
                (compute_duration_ms now task) (t_last_error task) skip_tags) items)
       (\<lambda>_. andThen (exec (batch_delete skip_tags (map (t_id \<circ> fst) items)))
       (\<lambda>_ d. case batch_resolve now (map (t_id \<circ> fst) items) d of (d', unblocked) \<Rightarrow> (d', Inr unblocked)))"

definition complete_batch_with_resolve ::
    "timestamp \<Rightarrow> (task_record \<times> io_budget) list \<Rightarrow> (int \<times> (timestamp \<times> int) option \<times> int list) list store_stmt" where
  "complete_batch_with_resolve now items st =
     (case items of
        [] \<Rightarrow> (st, Inr [])
      | [(task, metrics)] \<Rightarrow>
          map_result (\<lambda>x. [(t_id task, x)]) (complete_with_record_and_resolve now task metrics st)
      | _ \<Rightarrow>
          let skip_tags = (\<not> st_has_tags st)
          in if list_ex (\<lambda>(t, _). t_recurring_interval_secs t \<noteq> None) items
             then commit_and_prune now (collect_each (complete_and_resolve now skip_tags) items) st
             else map_result (\<lambda>unblocked. map (\<lambda>(t, _). (t_id t, None, [])) (butlast items)
                                            @ [(t_id (fst (last items)), None, unblocked)])
                    (commit_and_prune now (complete_batch_fast now skip_tags items) st))"

section \<open>Fail\<close>

record fail_backoff =
  fb_strategy :: "backoff_strategy option"
  fb_executor_retry_after_ms :: "nat option"

definition fail_backoff_default :: fail_backoff where
  "fail_backoff_default = \<lparr>fb_strategy = None, fb_executor_retry_after_ms = None\<rparr>"

definition fail_delay :: "(nat \<Rightarrow> nat) \<Rightarrow> fail_backoff \<Rightarrow> int \<Rightarrow> duration option" where
  "fail_delay rnd backoff retry_count =
     (case fb_executor_retry_after_ms backoff of
        Some ms \<Rightarrow> Some (from_millis ms)
      | None \<Rightarrow> (case fb_strategy backoff of
                   Some strategy \<Rightarrow> delay_for rnd strategy retry_count
                 | None \<Rightarrow> Some 0))"

definition retry_row :: "timestamp \<Rightarrow> string \<Rightarrow> duration \<Rightarrow> task_record \<Rightarrow> task_record" where
  "retry_row now error delay r =
     (let r' = r\<lparr>t_status := Pending, t_started_at := None, t_retry_count := t_retry_count r + 1,
                 t_last_error := Some error\<rparr>
      in if delay = 0 then r' else r'\<lparr>t_run_after := Some (now + as_i64 (as_millis delay))\<rparr>)"

definition terminal_status :: "bool \<Rightarrow> history_status" where
  "terminal_status retryable = (if retryable then HDeadLetter else HFailed)"

definition fail_terminal :: "timestamp \<Rightarrow> task_record \<Rightarrow> string \<Rightarrow> bool \<Rightarrow> io_budget \<Rightarrow> unit db_stmt" where
  "fail_terminal now task error retryable metrics =
     andThen (insert_history now task (terminal_status retryable) metrics (compute_duration_ms now task) (Some error) False)
       (\<lambda>_. exec (\<lambda>d. del_tasks (\<lambda>r. t_id r = t_id task) (delete_task_tags (t_id task) d)))"

definition fail_inner ::
    "(nat \<Rightarrow> nat) \<Rightarrow> timestamp \<Rightarrow> task_record \<Rightarrow> string \<Rightarrow> bool \<Rightarrow> int \<Rightarrow> io_budget \<Rightarrow> fail_backoff
     \<Rightarrow> unit db_stmt option" where
  "fail_inner rnd now task error retryable max_retries metrics backoff =
     (if retryable \<and> t_retry_count task < max_retries
      then case fail_delay rnd backoff (t_retry_count task) of
             None \<Rightarrow> None
           | Some delay \<Rightarrow> Some (exec (upd_tasks (\<lambda>r. t_id r = t_id task) (retry_row now error delay)))
      else Some (fail_terminal now task error retryable metrics))"

definition fail_with_record ::
    "(nat \<Rightarrow> nat) \<Rightarrow> timestamp \<Rightarrow> task_record \<Rightarrow> string \<Rightarrow> bool \<Rightarrow> int \<Rightarrow> io_budget \<Rightarrow> fail_backoff
     \<Rightarrow> task_store \<Rightarrow> (task_store \<times> (store_error + unit)) option" where
  "fail_with_record rnd now task error retryable max_retries metrics backoff st =
     (case fail_inner rnd now task error retryable max_retries metrics backoff of
        None \<Rightarrow> None
      | Some m \<Rightarrow> Some (commit_and_prune now m st))"

definition fail ::
    "(nat \<Rightarrow> nat) \<Rightarrow> timestamp \<Rightarrow> int \<Rightarrow> string \<Rightarrow> bool \<Rightarrow> int \<Rightarrow> io_budget \<Rightarrow> fail_backoff
     \<Rightarrow> task_store \<Rightarrow> (task_store \<times> (store_error + unit)) option" where
  "fail rnd now i error retryable max_retries metrics backoff st =
     (case task_by_rowid i (st_db st) of
        None \<Rightarrow> Some (st, Inr ())
      | Some task \<Rightarrow> fail_with_record rnd now task error retryable max_retries metrics backoff st)"

definition fail_batch_inner ::
    "timestamp \<Rightarrow> bool \<Rightarrow> (task_record \<times> string \<times> bool \<times> io_budget) list \<Rightarrow> unit db_stmt" where
  "fail_batch_inner now skip_tags items =
     (let ids = map (t_id \<circ> fst) items
      in andThen (for_each (\<lambda>(task, error, retryable, metrics).
                    insert_history now task (terminal_status retryable) metrics
                      (compute_duration_ms now task) (Some error) skip_tags) items)
           (\<lambda>_. andThen (exec (del_tasks (\<lambda>r. t_id r \<in> set ids)))
           (\<lambda>_. exec (\<lambda>d. if skip_tags then d
                          else d\<lparr>task_tags := sql_delete (\<lambda>(t, _). t \<in> set ids) (task_tags d)\<rparr>))))"

definition fail_batch ::
    "(nat \<Rightarrow> nat) \<Rightarrow> timestamp \<Rightarrow> (task_record \<times> string \<times> bool \<times> io_budget) list
     \<Rightarrow> task_store \<Rightarrow> (task_store \<times> (store_error + unit)) option" where
  "fail_batch rnd now items st =
     (case items of
        [] \<Rightarrow> Some (st, Inr ())
      | [(task, error, retryable, metrics)] \<Rightarrow>
          fail_with_record rnd now task error retryable 0 metrics fail_backoff_default st
      | _ \<Rightarrow> Some (commit_and_prune now (fail_batch_inner now (\<not> st_has_tags st) items) st))"

definition increment_retry :: "int \<Rightarrow> string \<Rightarrow> db \<Rightarrow> db" where
  "increment_retry task_id error =
     upd_tasks (\<lambda>r. t_id r = task_id) (\<lambda>r. r\<lparr>t_retry_count := t_retry_count r + 1, t_last_error := Some error\<rparr>)"

definition requeue_for_retry :: "timestamp \<Rightarrow> int \<Rightarrow> string \<Rightarrow> duration \<Rightarrow> db \<Rightarrow> db" where
  "requeue_for_retry now task_id error delay = upd_tasks (\<lambda>r. t_id r = task_id) (retry_row now error delay)"

end
