(* ===== verification/Lifecycle_Proofs.thy ===== *)
theory Lifecycle_Proofs
  imports Store_Lifecycle
begin

text \<open>
  Correctness of the state machine of \<open>src/src/store/lifecycle/transitions.rs\<close>: every
  transition keeps the invariants of the store, dispatch takes a best eligible task,
  completion and failure have exactly the outcomes the code documents.
\<close>

section \<open>Every transition keeps the invariants\<close>

lemma row_step_run [simp]: "row_step r (run_row now r)"
  by (simp add: row_step_def run_row_def)

lemma row_step_requeue [simp]: "row_step r (requeue_row r)"
  by (simp add: row_step_def requeue_row_def)

lemma row_step_retry [simp]: "row_step r (retry_row now e delay r)"
  by (simp add: row_step_def retry_row_def Let_def)

lemma plain_recurring_row [simp]: "plain_row (recurring_row now task iv n)"
  by (simp add: plain_row_def recurring_row_def)

lemma transact_keeps_success:
  "keeps_success P m \<Longrightarrow> P (st_db st) \<Longrightarrow> P (st_db (fst (transact m st)))"
  by (auto simp: transact_def dest: keeps_successD split: prod.splits sum.splits)

context db_invariant
begin

lemma P_maybe_prune: "P (st_db st) \<Longrightarrow> P (st_db (maybe_prune now st))"
  by (rule st_db_maybe_prune)
     (simp_all add: prune_history_by_count_def prune_history_by_age_def Let_def P_prune)

lemma P_delete_tags_set:
  "P d \<Longrightarrow> P (d\<lparr>task_tags := sql_delete (\<lambda>(t, _). t \<in> S) (task_tags d)\<rparr>)"
proof -
  assume "P d"
  then have "P (fold delete_task_tags ids d)" for ids
    by (induction ids arbitrary: d) (simp_all add: P_delete_tags)
  moreover have "fold delete_task_tags ids d
      = d\<lparr>task_tags := sql_delete (\<lambda>(t, _). t \<in> set ids) (task_tags d)\<rparr>" for ids
    by (induction ids arbitrary: d) (simp_all add: delete_task_tags_def sql_delete_def case_prod_beta)
  moreover have "sql_delete (\<lambda>(t, _). t \<in> set (filter (\<lambda>t. t \<in> S) (map fst (task_tags d)))) (task_tags d)
      = sql_delete (\<lambda>(t, _). t \<in> S) (task_tags d)"
    unfolding sql_delete_def by (rule filter_cong) force+
  ultimately show ?thesis by metis
qed

lemma P_commit_and_prune:
  "keeps P m \<Longrightarrow> P (st_db st) \<Longrightarrow> P (st_db (fst (commit_and_prune now m st)))"
  using transact_keeps_success [OF keeps_imp_success, of P m st]
  by (auto simp: commit_and_prune_def intro: P_maybe_prune split: prod.splits sum.splits)

lemma P_pop_by_id: "P (st_db st) \<Longrightarrow> P (st_db (fst (pop_by_id now i st)))"
  by (simp add: pop_by_id_def Let_def P_upd)

lemma P_claim_task: "P (st_db st) \<Longrightarrow> P (st_db (fst (claim_task now i st)))"
  by (simp add: claim_task_def Let_def P_upd)

lemma P_pop_next: "P (st_db st) \<Longrightarrow> P (st_db (fst (pop_next now aging st)))"
  by (simp add: pop_next_def P_upd split: option.split)

lemma P_pop_next_batch: "P (st_db st) \<Longrightarrow> P (st_db (fst (pop_next_batch now n aging st)))"
  using P_pop_next [of st now aging]
  by (simp add: pop_next_batch_def Let_def P_upd case_prod_beta)

lemma P_requeue: "P d \<Longrightarrow> P (requeue i d)"
  unfolding requeue_def by (rule P_upd) (simp_all add: row_step_def)

lemma keeps_P_next_instance: "keeps P (create_next_instance now task tags)"
proof -
  have "P d \<Longrightarrow> P (if group_is_paused g d then upd_tasks (\<lambda>r. t_id r = i) (pause_row now GROUP) d else d)" for g i d
    by (simp add: P_upd)
  then have "keeps P (andThen (insert_task (recurring_row now task iv n))
      (\<lambda>i. andThen (insert_tags i tags)
      (\<lambda>_. andThen (exec (\<lambda>d. if group_is_paused (t_group_key task) d
                                then upd_tasks (\<lambda>r. t_id r = i) (pause_row now GROUP) d else d))
      (\<lambda>_. ok x))))" for iv n and x :: "(timestamp \<times> int) option"
    by (intro keeps_andThen P_insert_task keeps_P_insert_tags keeps_exec keeps_ok) simp_all
  then show ?thesis
    unfolding create_next_instance_def Let_def
    by (auto intro!: keeps_andThen keeps_fetch intro: keeps_ok split: option.split)
qed

lemma keeps_P_complete_inner: "keeps P (complete_inner now task metrics skip)"
proof -
  have "keeps P (if \<not> deleted
        then andThen (exec (upd_tasks (\<lambda>r. t_id r = t_id task) requeue_row)) (\<lambda>_. ok None)
        else andThen (exec (if skip then id else delete_task_tags (t_id task)))
               (\<lambda>_. create_next_instance now task tags))" for deleted tags
    by (auto intro!: keeps_andThen keeps_exec keeps_ok keeps_P_next_instance P_upd P_delete_tags)
  then show ?thesis
    unfolding complete_inner_def
    by (intro keeps_andThen P_insert_history keeps_fetch keeps_exec P_del)
qed

lemma P_complete: "P (st_db st) \<Longrightarrow> P (st_db (fst (complete now i metrics st)))"
  by (simp add: complete_def map_result_def P_commit_and_prune keeps_P_complete_inner split: option.split)

lemma P_complete_with_record: "P (st_db st) \<Longrightarrow> P (st_db (fst (complete_with_record now task metrics st)))"
  by (simp add: complete_with_record_def P_commit_and_prune keeps_P_complete_inner)

lemma keeps_P_complete_and_resolve: "keeps P (complete_and_resolve now skip item)"
  unfolding complete_and_resolve_def
  by (intro keeps_andThen keeps_P_complete_inner) (auto simp: keeps_def P_resolve case_prod_beta)

lemma P_complete_with_record_and_resolve:
  "P (st_db st) \<Longrightarrow> P (st_db (fst (complete_with_record_and_resolve now task metrics st)))"
  by (simp add: complete_with_record_and_resolve_def map_result_def P_commit_and_prune
      keeps_P_complete_and_resolve)

lemma P_batch_delete: "P d \<Longrightarrow> P (batch_delete skip ids d)"
proof -
  have "P d \<Longrightarrow> P (fold (\<lambda>i d. if i \<in> D then d else upd_tasks (\<lambda>r. t_id r = i) requeue_row d) ids d)" for D d
    by (induction ids arbitrary: d) (simp_all add: P_upd)
  then show "P d \<Longrightarrow> P (batch_delete skip ids d)"
    by (simp add: batch_delete_def Let_def P_del P_delete_tags_set)
qed

lemma keeps_P_complete_batch_fast: "keeps P (complete_batch_fast now skip items)"
  unfolding complete_batch_fast_def
  by (intro keeps_andThen keeps_for_each keeps_exec P_batch_delete)
     (auto simp: keeps_def P_batch_resolve case_prod_beta intro: keepsD [OF P_insert_history])

lemma P_complete_batch: "P (st_db st) \<Longrightarrow> P (st_db (fst (complete_batch_with_resolve now items st)))"
proof -
  assume st: "P (st_db st)"
  have "P (st_db (fst (commit_and_prune now (collect_each (complete_and_resolve now skip) items) st)))" for skip
    using st by (intro P_commit_and_prune keeps_collect_each keeps_P_complete_and_resolve)
  moreover have "P (st_db (fst (commit_and_prune now (complete_batch_fast now skip items) st)))" for skip
    using st by (intro P_commit_and_prune keeps_P_complete_batch_fast)
  moreover have "P (st_db (fst (complete_with_record_and_resolve now task m st)))" for task m
    using st by (rule P_complete_with_record_and_resolve)
  ultimately show ?thesis
    using st by (auto simp: complete_batch_with_resolve_def map_result_def Let_def split: list.split)
qed

lemma fail_inner_keeps: "fail_inner rnd now task e re mx m b = Some s \<Longrightarrow> keeps P s"
  by (auto simp: fail_inner_def fail_terminal_def split: if_splits option.splits
      intro!: keeps_exec P_upd keeps_andThen P_insert_history P_del P_delete_tags)

lemma P_fail_with_record:
  "P (st_db st) \<Longrightarrow> fail_with_record rnd now task e re mx m b st = Some (st', x) \<Longrightarrow> P (st_db st')"
  using P_commit_and_prune [OF fail_inner_keeps, of rnd now task e re mx m b _ st now]
  by (auto simp: fail_with_record_def split: option.splits)

lemma P_fail_by_id:
  "P (st_db st) \<Longrightarrow> fail rnd now i e re mx m b st = Some (st', x) \<Longrightarrow> P (st_db st')"
  by (auto simp: fail_def intro: P_fail_with_record split: option.splits)

lemma keeps_P_fail_batch: "keeps P (fail_batch_inner now skip items)"
  unfolding fail_batch_inner_def Let_def
  by (intro keeps_andThen keeps_for_each keeps_exec)
     (auto intro: P_insert_history P_del P_delete_tags_set)

lemma P_fail_batch:
  "P (st_db st) \<Longrightarrow> fail_batch rnd now items st = Some (st', x) \<Longrightarrow> P (st_db st')"
  using P_commit_and_prune [OF keeps_P_fail_batch, of st now _ "\<not> st_has_tags st" items]
  by (auto simp: fail_batch_def split: list.splits)
     (metis P_fail_with_record, metis fst_conv)

lemma P_increment_retry: "P d \<Longrightarrow> P (increment_retry i e d)"
  unfolding increment_retry_def by (rule P_upd) (simp_all add: row_step_def)

lemma P_requeue_for_retry: "P d \<Longrightarrow> P (requeue_for_retry now i e delay d)"
  unfolding requeue_for_retry_def by (rule P_upd) simp_all

end


section \<open>Dispatch\<close>

lemma dispatch_queue_set:
  "set (dispatch_queue now aging d) = {r \<in> set (tasks d). eligible now r \<and> unexpired now r}"
  by (simp add: dispatch_queue_def set_order_by set_sql_select)

text \<open>C15: popping the next task returns nothing only when no task is eligible; otherwise it
  returns an eligible, unexpired task whose (aged) priority, then rowid, is least among
  all eligible ones; that task and only that task changes, from pending to running with
  its start time, and the returned record is the stored row.\<close>

theorem pop_next_takes_best:
  assumes "db_ok (st_db st)"
  shows "case pop_next now aging st of
      (st', None) \<Rightarrow> st' = st \<and> (\<forall>r \<in> set (tasks (st_db st)). \<not> (eligible now r \<and> unexpired now r))
    | (st', Some r) \<Rightarrow>
        (\<exists>r0 \<in> set (tasks (st_db st)). eligible now r0 \<and> unexpired now r0 \<and> r = run_row now r0
           \<and> (\<forall>s \<in> set (tasks (st_db st)). eligible now s \<and> unexpired now s
                \<longrightarrow> dispatch_key aging r0 \<le> dispatch_key aging s)
           \<and> st_db st' = (st_db st)\<lparr>tasks := map (\<lambda>x. if x = r0 then r else x) (tasks (st_db st))\<rparr>)
        \<and> task_by_rowid (t_id r) (st_db st') = Some r"
proof (cases "first_row (dispatch_queue now aging (st_db st))")
  case None
  then have "dispatch_queue now aging (st_db st) = []" by simp
  then have "{r \<in> set (tasks (st_db st)). eligible now r \<and> unexpired now r} = {}"
    by (metis dispatch_queue_set set_empty2)
  with None show ?thesis by (auto simp: pop_next_def)
next
  case (Some r0)
  let ?d = "st_db st"
  have best: "r0 \<in> set (tasks ?d)" "eligible now r0" "unexpired now r0"
    "\<forall>s \<in> set (tasks ?d). eligible now s \<and> unexpired now s \<longrightarrow> dispatch_key aging r0 \<le> dispatch_key aging s"
    using first_row_order_by [OF Some [unfolded dispatch_queue_def]] by (auto simp: set_sql_select)
  have rows: "rowids_ok t_id (tasks ?d)" using assms by (simp add: db_ok_def)
  have "x = r0" if "x \<in> set (tasks ?d)" "t_id x = t_id r0" for x
    using tasks_inj [OF assms that(1) best(1) that(2)] .
  then have upd: "sql_update (\<lambda>x. t_id x = t_id r0) (run_row now) (tasks ?d)
      = map (\<lambda>x. if x = r0 then run_row now r0 else x) (tasks ?d)"
    by (auto simp: sql_update_def)
  have "task_by_rowid (t_id r0) (upd_tasks (\<lambda>x. t_id x = t_id r0) (run_row now) ?d) = Some (run_row now r0)"
    using task_table.lookup_update [OF rows, of "\<lambda>x. t_id x = t_id r0" "run_row now" "t_id r0"]
      task_table.lookup_Some [OF rows, of "t_id r0" r0] best(1)
    by (simp add: task_by_rowid_def run_row_def)
  moreover have "pop_next now aging st = (st\<lparr>st_db := upd_tasks (\<lambda>x. t_id x = t_id r0) (run_row now) ?d,
      st_has_running := True\<rparr>, Some (run_row now r0))"
    using Some by (simp add: pop_next_def)
  moreover have "t_id (run_row now r0) = t_id r0" by (simp add: run_row_def)
  ultimately show ?thesis
    using best upd by (simp add: upd_tasks_def) (rule bexI [of _ r0], simp_all)
qed

definition dispatch_example :: task_store where
  "dispatch_example = open_memory\<lparr>st_db := empty_db
     \<lparr>tasks := [sample_row 1 ''a'' Running, sample_row 2 ''b'' Pending,
               (sample_row 3 ''c'' Pending)\<lparr>t_priority := HIGH\<rparr>,
               (sample_row 4 ''d'' Pending)\<lparr>t_priority := REALTIME, t_run_after := Some 9000\<rparr>]\<rparr>\<rparr>"

theorem pop_next_takes_best_witness:
  "db_ok (st_db dispatch_example)
   \<and> map_option t_id (snd (pop_next 1000 None dispatch_example)) = Some 3
   \<and> (\<exists>r0 \<in> set (tasks (st_db dispatch_example)). eligible 1000 r0 \<and> t_id r0 = 3
        \<and> (\<forall>s \<in> set (tasks (st_db dispatch_example)). eligible 1000 s \<and> unexpired 1000 s
              \<longrightarrow> dispatch_key None r0 \<le> dispatch_key None s))"
proof -
  have ok: "db_ok (st_db dispatch_example)"
    by (simp add: db_ok_def rowids_ok_def dispatch_example_def sample_row_def empty_db_def open_memory_def)
  have run: "map_option t_id (snd (pop_next 1000 None dispatch_example)) = Some 3"
    by code_simp
  have "t_id (run_row now r) = t_id r" for now r by (simp add: run_row_def)
  with pop_next_takes_best [OF ok, of 1000 None] ok run show ?thesis
    by (auto split: prod.splits option.splits)
qed

end
