(* ===== verification/Sql_Like.thy ===== *)
theory Sql_Like
  imports Prelude
begin

text \<open>
  The \<open>LIKE\<close> operator of SQLite on ASCII strings, as the store's prefix queries use it:
  \<open>%\<close> matches any sequence, \<open>_\<close> one character, letters match regardless of case, and an
  escape character makes the next pattern character literal
  (\<open>src/src/store/query/tags.rs\<close>, \<open>src/src/store/lifecycle/cancel_expire.rs\<close>).
\<close>

section \<open>Definitions\<close>

definition fold_case :: "char \<Rightarrow> char" where
  "fold_case c = (let n = of_char c :: nat in if 65 \<le> n \<and> n \<le> 90 then char_of (n + 32) else c)"

function sql_like :: "char option \<Rightarrow> string \<Rightarrow> string \<Rightarrow> bool" where
  "sql_like esc [] s = (s = [])"
| "sql_like esc (c # p) s =
     (if c = CHR ''%'' then sql_like esc p s \<or> (case s of [] \<Rightarrow> False | _ # s' \<Rightarrow> sql_like esc (c # p) s')
      else if esc = Some c
      then (case p of [] \<Rightarrow> False
            | l # p' \<Rightarrow> (case s of [] \<Rightarrow> False | x # s' \<Rightarrow> fold_case l = fold_case x \<and> sql_like esc p' s'))
      else (case s of [] \<Rightarrow> False
            | x # s' \<Rightarrow> (c = CHR ''_'' \<or> fold_case c = fold_case x) \<and> sql_like esc p s'))"
  by pat_completeness auto

termination
  by (relation "measure (\<lambda>(_, p, s). length p + length s)") auto

declare sql_like.simps(2) [simp del]

text \<open>\<open>format!("{prefix}%")\<close>, and the escaped pattern of the tag queries.\<close>

definition prefix_pattern :: "string \<Rightarrow> string" where
  "prefix_pattern prefix = prefix @ ''%''"

definition escape_like_prefix :: "string \<Rightarrow> string" where
  "escape_like_prefix prefix =
     concat (map (\<lambda>ch. if ch \<in> {CHR ''%'', CHR ''_'', CHR 0x5C} then [CHR 0x5C, ch] else [ch]) prefix) @ ''%''"

definition like_prefix :: "string \<Rightarrow> string \<Rightarrow> bool" where
  "like_prefix prefix s = sql_like None (prefix_pattern prefix) s"

section \<open>Prefix patterns\<close>

definition folded_prefix :: "string \<Rightarrow> string \<Rightarrow> bool" where
  "folded_prefix p s \<longleftrightarrow> length p \<le> length s \<and> map fold_case p = map fold_case (take (length p) s)"

lemma folded_prefix_simps [simp]:
  "folded_prefix [] s"
  "\<not> folded_prefix (c # p) []"
  "folded_prefix (c # p) (x # s) \<longleftrightarrow> fold_case c = fold_case x \<and> folded_prefix p s"
  by (auto simp: folded_prefix_def)

lemma like_any [simp]: "sql_like esc ''%'' s"
  by (induction s) (simp_all add: sql_like.simps(2))

lemma like_escaped:
  "sql_like (Some (CHR 0x5C)) (CHR 0x5C # l # p) s
   = (case s of [] \<Rightarrow> False | x # s' \<Rightarrow> fold_case l = fold_case x \<and> sql_like (Some (CHR 0x5C)) p s')"
  by (simp add: sql_like.simps(2))

lemma like_literal:
  "c \<noteq> CHR ''%'' \<Longrightarrow> esc \<noteq> Some c \<Longrightarrow> sql_like esc (c # p) s
   = (case s of [] \<Rightarrow> False | x # s' \<Rightarrow> (c = CHR ''_'' \<or> fold_case c = fold_case x) \<and> sql_like esc p s')"
  by (simp add: sql_like.simps(2))

text \<open>The escaped prefix pattern of the tag queries matches a key exactly when the
  prefix, taken literally, is a prefix of the key up to the case of ASCII letters:
  \<open>%\<close>, \<open>_\<close> and the escape character in the prefix have no special meaning.\<close>

theorem escaped_prefix_literal:
  "sql_like (Some (CHR 0x5C)) (escape_like_prefix p) s \<longleftrightarrow> folded_prefix p s"
proof (induction p arbitrary: s)
  case Nil
  show ?case by (simp add: escape_like_prefix_def)
next
  case (Cons c p)
  have step: "escape_like_prefix (c # p)
      = (if c \<in> {CHR ''%'', CHR ''_'', CHR 0x5C} then [CHR 0x5C, c] else [c]) @ escape_like_prefix p"
    by (simp add: escape_like_prefix_def)
  show ?case
  proof (cases "c \<in> {CHR ''%'', CHR ''_'', CHR 0x5C}")
    case True
    then show ?thesis by (cases s) (simp_all add: step like_escaped Cons.IH)
  next
    case False
    then have c: "c \<noteq> CHR ''%''" "Some (CHR 0x5C) \<noteq> Some c" "c \<noteq> CHR ''_''" by auto
    show ?thesis using False by (cases s) (simp_all add: step like_literal [OF c(1,2)] c(3) Cons.IH)
  qed
qed

text \<open>The unescaped pattern of the task-type queries matches at least the literal prefixes.\<close>

lemma prefix_pattern_complete: "folded_prefix p s \<Longrightarrow> CHR ''%'' \<notin> set p \<Longrightarrow> like_prefix p s"
  unfolding like_prefix_def prefix_pattern_def
proof (induction p arbitrary: s)
  case (Cons c p)
  then have "c \<noteq> CHR ''%''" by auto
  with Cons show ?case by (cases s) (simp_all add: like_literal)
qed simp

text \<open>A prefix with an underscore also matches other task types.\<close>

lemma underscore_overmatch:
  "like_prefix ''a_b::'' ''axb::t''" "\<not> folded_prefix ''a_b::'' ''axb::t''"
  by code_simp+

end
