(* ===== verification/Store_Pause.thy ===== *)
theory Store_Pause
  imports Lifecycle_Proofs Sql_Like
begin

text \<open>
  Pausing and resuming: the first half of \<open>src/src/store/lifecycle/cancel_expire.rs\<close>.

  A paused task carries a bitmask of reasons (preemption, module, global, group); it
  becomes pending again only when the last reason is cleared. The three bulk operations
  that clear a reason run the same two statements on different selections of rows.
\<close>

section \<open>Operations\<close>

definition suspend_row :: "timestamp \<Rightarrow> pause_reasons \<Rightarrow> task_record \<Rightarrow> task_record" where
  "suspend_row now reason r = (pause_row now reason r)\<lparr>t_started_at := None\<rparr>"

definition resume_row :: "timestamp \<Rightarrow> task_record \<Rightarrow> task_record" where
  "resume_row now r =
     r\<lparr>t_status := Pending, t_pause_reasons := 0,
       t_pause_duration_ms := t_pause_duration_ms r
         + (case t_paused_at_ms r of None \<Rightarrow> 0 | Some t \<Rightarrow> now - t),
       t_paused_at_ms := None\<rparr>"

definition pause :: "timestamp \<Rightarrow> int \<Rightarrow> pause_reasons \<Rightarrow> db \<Rightarrow> db" where
  "pause now i reason d = upd_tasks (\<lambda>r. t_id r = i) (suspend_row now reason) d"

definition resume :: "timestamp \<Rightarrow> int \<Rightarrow> db \<Rightarrow> db" where
  "resume now i d = upd_tasks (\<lambda>r. t_id r = i \<and> t_status r = Paused) (resume_row now) d"

definition preemption_paused_tasks :: "task_store \<Rightarrow> task_record list" where
  "preemption_paused_tasks st =
     map (populate_tags st)
       (order_by (dispatch_key None)
         (sql_select (\<lambda>r. t_status r = Paused \<and> t_pause_reasons r AND 1 \<noteq> 0) (tasks (st_db st))))"

definition resume_preempted :: "timestamp \<Rightarrow> int \<Rightarrow> db \<Rightarrow> db" where
  "resume_preempted now i d =
     (let p = (\<lambda>r. t_id r = i \<and> t_status r = Paused \<and> t_pause_reasons r = 1)
      in if sql_exists p (tasks d) then upd_tasks p (resume_row now) d
         else upd_tasks (\<lambda>r. t_id r = i \<and> t_status r = Paused \<and> t_pause_reasons r AND 1 \<noteq> 0)
                (\<lambda>r. r\<lparr>t_pause_reasons := pr_without (t_pause_reasons r) 1\<rparr>) d)"

text \<open>Resume the selected rows whose only reason is the given one, then remove the reason
  from the rows that keep others; the count is of the rows resumed.\<close>

definition clear_reason ::
    "timestamp \<Rightarrow> (task_record \<Rightarrow> bool) \<Rightarrow> pause_reasons \<Rightarrow> db \<Rightarrow> db \<times> nat" where
  "clear_reason now sel reason d =
     (let p = (\<lambda>r. sel r \<and> t_status r = Paused \<and> t_pause_reasons r = reason);
          d1 = upd_tasks p (resume_row now) d
      in (upd_tasks (\<lambda>r. sel r \<and> t_status r = Paused \<and> t_pause_reasons r AND reason \<noteq> 0)
            (\<lambda>r. r\<lparr>t_pause_reasons := pr_without (t_pause_reasons r) reason\<rparr>) d1,
          sql_count p (tasks d)))"

definition clear_pause_bit :: "timestamp \<Rightarrow> pause_reasons \<Rightarrow> db \<Rightarrow> db \<times> nat" where
  "clear_pause_bit now reason = clear_reason now (\<lambda>_. True) reason"

subsection \<open>Groups\<close>

definition pause_group_state :: "timestamp \<Rightarrow> string \<Rightarrow> timestamp option \<Rightarrow> db \<Rightarrow> db \<times> bool" where
  "pause_group_state now g resume_at d =
     (if g \<in> fst ` set (paused_groups d) then (d, False)
      else (d\<lparr>paused_groups := paused_groups d @ [(g, now, resume_at)]\<rparr>, True))"

definition resume_group_state :: "string \<Rightarrow> db \<Rightarrow> db \<times> bool" where
  "resume_group_state g d =
     (d\<lparr>paused_groups := sql_delete (\<lambda>x. fst x = g) (paused_groups d)\<rparr>,
      sql_count (\<lambda>x. fst x = g) (paused_groups d) > 0)"

definition list_paused_groups :: "db \<Rightarrow> (string \<times> timestamp) list" where
  "list_paused_groups d = map (\<lambda>(g, t, _). (g, t)) (order_by (fst \<circ> snd) (paused_groups d))"

definition is_group_paused :: "string \<Rightarrow> db \<Rightarrow> bool" where
  "is_group_paused g d = sql_exists (\<lambda>x. fst x = g) (paused_groups d)"

definition groups_due_for_resume :: "timestamp \<Rightarrow> db \<Rightarrow> string list" where
  "groups_due_for_resume now d =
     map fst (sql_select (\<lambda>(_, _, resume_at). case resume_at of None \<Rightarrow> False | Some t \<Rightarrow> t \<le> now) (paused_groups d))"

definition pause_tasks_in_group :: "timestamp \<Rightarrow> string \<Rightarrow> db \<Rightarrow> db \<times> nat" where
  "pause_tasks_in_group now g d =
     (let d1 = upd_tasks (\<lambda>r. t_group_key r = Some g \<and> t_status r = Paused \<and> t_pause_reasons r AND 8 = 0)
                 (\<lambda>r. r\<lparr>t_pause_reasons := pr_with (t_pause_reasons r) 8\<rparr>) d;
          p = (\<lambda>r. t_group_key r = Some g \<and> t_status r = Pending)
      in (upd_tasks p (pause_row now 8) d1, sql_count p (tasks d1)))"

definition resume_paused_by_group :: "timestamp \<Rightarrow> string \<Rightarrow> db \<Rightarrow> db \<times> nat" where
  "resume_paused_by_group now g = clear_reason now (\<lambda>r. t_group_key r = Some g) 8"

subsection \<open>Modules\<close>

definition pause_pending_by_type_prefix :: "timestamp \<Rightarrow> string \<Rightarrow> db \<Rightarrow> db \<times> nat" where
  "pause_pending_by_type_prefix now prefix d =
     (let p = (\<lambda>r. like_prefix prefix (t_task_type r) \<and> (t_status r = Pending \<or> t_status r = Paused))
      in (upd_tasks p (pause_row now 2) d, sql_count p (tasks d)))"

definition resume_paused_by_type_prefix :: "timestamp \<Rightarrow> string \<Rightarrow> db \<Rightarrow> db \<times> nat" where
  "resume_paused_by_type_prefix now prefix =
     clear_reason now (\<lambda>r. like_prefix prefix (t_task_type r)) 2"

section \<open>Every operation keeps the invariants\<close>

lemma row_step_resume [simp]: "row_step r (resume_row now r)"
  by (simp add: row_step_def resume_row_def)

lemma row_step_suspend [simp]: "b \<noteq> 0 \<Longrightarrow> row_step r (suspend_row now b r)"
  using row_step_pause [of b r now] by (simp add: row_step_def suspend_row_def)

text \<open>Removing one reason of a mask that has another leaves a reason, when the reason is a
  single bit, as all of them are.\<close>

definition single_reason :: "pause_reasons \<Rightarrow> bool" where
  "single_reason b \<longleftrightarrow> b \<in> {PREEMPTION, MODULE, GLOBAL, GROUP}"

lemma single_reason_bit: "single_reason b \<Longrightarrow> \<exists>n. b = push_bit n 1"
  unfolding single_reason_def PREEMPTION_def MODULE_def GLOBAL_def GROUP_def
  by (elim insertE emptyE) (rule exI [of _ 0] exI [of _ 1] exI [of _ 2] exI [of _ 3]; simp)+

lemma single_reason_nonzero: "single_reason b \<Longrightarrow> b \<noteq> 0"
  by (auto simp: single_reason_def PREEMPTION_def MODULE_def GLOBAL_def GROUP_def)

lemma without_leaves_reason:
  assumes "single_reason b" and "r \<noteq> b" and "r AND b \<noteq> 0"
  shows "pr_without r b \<noteq> 0"
proof
  assume z: "pr_without r b = 0"
  obtain n where b: "b = push_bit n 1" using single_reason_bit [OF assms(1)] by blast
  have "bit r m \<longrightarrow> bit b m" for m
    using z bit_imp_le_length [of r m] by (auto simp: pr_without_def bit_eq_iff bit_simps)
  moreover obtain m where "bit r m" "bit b m"
    using assms(3) by (auto simp: bit_eq_iff bit_simps)
  ultimately have "r = b"
    by (intro bit_word_eqI) (auto simp: b bit_simps)
  with assms(2) show False by simp
qed


text \<open>The two statements that clear a reason, as one.\<close>

definition clear_row :: "timestamp \<Rightarrow> pause_reasons \<Rightarrow> task_record \<Rightarrow> task_record" where
  "clear_row now b r =
     (if t_pause_reasons r = b then resume_row now r
      else r\<lparr>t_pause_reasons := pr_without (t_pause_reasons r) b\<rparr>)"

lemma clear_reason_eq:
  assumes "b \<noteq> 0"
  shows "fst (clear_reason now sel b d)
    = upd_tasks (\<lambda>r. sel r \<and> t_status r = Paused \<and> t_pause_reasons r AND b \<noteq> 0) (clear_row now b) d"
proof -
  have "sql_update (\<lambda>r. sel r \<and> t_status r = Paused \<and> t_pause_reasons r AND b \<noteq> 0)
          (\<lambda>r. r\<lparr>t_pause_reasons := pr_without (t_pause_reasons r) b\<rparr>)
          (sql_update (\<lambda>r. sel r \<and> t_status r = Paused \<and> t_pause_reasons r = b) (resume_row now) (tasks d))
      = sql_update (\<lambda>r. sel r \<and> t_status r = Paused \<and> t_pause_reasons r AND b \<noteq> 0) (clear_row now b) (tasks d)"
  proof (rule sql_update_comp)
    fix r
    let ?r = "if sel r \<and> t_status r = Paused \<and> t_pause_reasons r = b then resume_row now r else r"
    show "(if sel ?r \<and> t_status ?r = Paused \<and> t_pause_reasons ?r AND b \<noteq> 0
           then ?r\<lparr>t_pause_reasons := pr_without (t_pause_reasons ?r) b\<rparr> else ?r)
        = (if sel r \<and> t_status r = Paused \<and> t_pause_reasons r AND b \<noteq> 0 then clear_row now b r else r)"
      using assms
      by (cases "sel r \<and> t_status r = Paused \<and> t_pause_reasons r = b")
         (simp_all add: clear_row_def resume_row_def)
  qed
  then show ?thesis by (simp add: clear_reason_def Let_def upd_tasks_def)
qed

lemma row_step_clear:
  assumes "single_reason b" and "t_pause_reasons r AND b \<noteq> 0"
  shows "row_step r (clear_row now b r)"
  using without_leaves_reason [OF assms(1) _ assms(2)] row_step_resume [of r now]
  by (auto simp: clear_row_def row_step_def)

lemma single_reasons [simp]: "single_reason 1" "single_reason 2" "single_reason 4" "single_reason 8"
  by (simp_all add: single_reason_def PREEMPTION_def MODULE_def GLOBAL_def GROUP_def)

lemma resume_preempted_eq:
  assumes "db_ok d"
  shows "resume_preempted now i d
    = upd_tasks (\<lambda>r. t_id r = i \<and> t_status r = Paused \<and> t_pause_reasons r AND 1 \<noteq> 0) (clear_row now 1) d"
proof -
  have "sql_update (\<lambda>r. t_id r = i \<and> t_status r = Paused \<and> t_pause_reasons r = 1) (resume_row now) (tasks d)
      = sql_update (\<lambda>r. t_id r = i \<and> t_status r = Paused \<and> t_pause_reasons r AND 1 \<noteq> 0) (clear_row now 1) (tasks d)"
    if "s \<in> set (tasks d)" "t_id s = i" "t_status s = Paused" "t_pause_reasons s = 1" for s
  proof (rule sql_update_cong)
    fix r assume "r \<in> set (tasks d)"
    then have "t_id r = i \<Longrightarrow> r = s" using tasks_inj [OF assms _ that(1)] that(2) by simp
    then show "(if t_id r = i \<and> t_status r = Paused \<and> t_pause_reasons r = 1 then resume_row now r else r)
        = (if t_id r = i \<and> t_status r = Paused \<and> t_pause_reasons r AND 1 \<noteq> 0 then clear_row now 1 r else r)"
      using that(4) by (auto simp: clear_row_def)
  qed
  moreover have "sql_update (\<lambda>r. t_id r = i \<and> t_status r = Paused \<and> t_pause_reasons r AND 1 \<noteq> 0)
        (\<lambda>r. r\<lparr>t_pause_reasons := pr_without (t_pause_reasons r) 1\<rparr>) (tasks d)
      = sql_update (\<lambda>r. t_id r = i \<and> t_status r = Paused \<and> t_pause_reasons r AND 1 \<noteq> 0) (clear_row now 1) (tasks d)"
    if "\<not> (\<exists>s \<in> set (tasks d). t_id s = i \<and> t_status s = Paused \<and> t_pause_reasons s = 1)"
    using that by (intro sql_update_cong) (auto simp: clear_row_def)
  ultimately show ?thesis
    unfolding resume_preempted_def Let_def sql_exists_iff upd_tasks_def by auto
qed

context db_invariant
begin

lemma P_pause: "b \<noteq> 0 \<Longrightarrow> P d \<Longrightarrow> P (pause now i b d)"
  unfolding pause_def by (rule P_upd) simp_all

lemma P_resume: "P d \<Longrightarrow> P (resume now i d)"
  unfolding resume_def by (rule P_upd) simp_all

lemma P_clear_reason: "single_reason b \<Longrightarrow> P d \<Longrightarrow> P (fst (clear_reason now sel b d))"
  unfolding clear_reason_eq [OF single_reason_nonzero] by (rule P_upd) (simp_all add: row_step_clear)

lemma P_resume_preempted: "db_ok d \<Longrightarrow> P d \<Longrightarrow> P (resume_preempted now i d)"
  unfolding resume_preempted_eq by (rule P_upd) (simp_all add: row_step_clear)

lemma P_clear_pause_bit: "single_reason b \<Longrightarrow> P d \<Longrightarrow> P (fst (clear_pause_bit now b d))"
  unfolding clear_pause_bit_def by (rule P_clear_reason)

lemma P_pause_group_state: "P d \<Longrightarrow> P (fst (pause_group_state now g at' d))"
  by (simp add: pause_group_state_def P_pause_group)

lemma P_resume_group_state: "P d \<Longrightarrow> P (fst (resume_group_state g d))"
  by (simp add: resume_group_state_def P_resume_group)

lemma P_pause_tasks_in_group: "P d \<Longrightarrow> P (fst (pause_tasks_in_group now g d))"
proof -
  have "row_step r (r\<lparr>t_pause_reasons := pr_with (t_pause_reasons r) 8\<rparr>)" for r
    by (simp add: row_step_def pr_with_nonzero)
  then show "P d \<Longrightarrow> P (fst (pause_tasks_in_group now g d))"
    by (simp add: pause_tasks_in_group_def Let_def P_upd)
qed

lemma P_resume_paused_by_group: "P d \<Longrightarrow> P (fst (resume_paused_by_group now g d))"
  unfolding resume_paused_by_group_def by (rule P_clear_reason) simp_all

lemma P_pause_by_prefix: "P d \<Longrightarrow> P (fst (pause_pending_by_type_prefix now p d))"
  by (simp add: pause_pending_by_type_prefix_def Let_def P_upd)

lemma P_resume_by_prefix: "P d \<Longrightarrow> P (fst (resume_paused_by_type_prefix now p d))"
  unfolding resume_paused_by_type_prefix_def by (rule P_clear_reason) simp_all

end


section \<open>A task resumes when its last reason is cleared\<close>

lemma lookup_upd:
  "(\<And>r. p r \<Longrightarrow> t_id (f r) = t_id r) \<Longrightarrow> db_ok d \<Longrightarrow>
   task_by_rowid i (upd_tasks p f d) = map_option (\<lambda>r. if p r then f r else r) (task_by_rowid i d)"
  unfolding task_by_rowid_def by (simp add: db_ok_def task_table.lookup_update)

lemma lookup_pause:
  assumes "db_ok d"
  shows "task_by_rowid i (pause now i b d) = map_option (suspend_row now b) (task_by_rowid i d)"
proof -
  have "t_id r = i" if "task_by_rowid i d = Some r" for r
    using that assms by (simp add: task_by_rowid_def db_ok_def task_table.lookup_Some)
  then show ?thesis
    unfolding pause_def
    by (cases "task_by_rowid i d") (simp_all add: lookup_upd [OF _ assms] suspend_row_def)
qed

lemma lookup_clear:
  assumes "db_ok d" and "b \<noteq> 0"
  shows "task_by_rowid i (fst (clear_pause_bit now b d))
    = map_option (\<lambda>r. if t_status r = Paused \<and> t_pause_reasons r AND b \<noteq> 0 then clear_row now b r else r)
        (task_by_rowid i d)"
  unfolding clear_pause_bit_def clear_reason_eq [OF assms(2)]
  using assms by (subst lookup_upd) (auto simp: clear_row_def resume_row_def)

text \<open>The mask of a list of reasons.\<close>

definition reason_mask :: "pause_reasons list \<Rightarrow> pause_reasons" where
  "reason_mask bs = foldr pr_with bs 0"

lemma bit_reason_mask: "bit (reason_mask bs) n \<longleftrightarrow> (\<exists>b \<in> set bs. bit b n)"
  by (induction bs) (auto simp: reason_mask_def pr_with_def bit_simps)

lemma reason_mask_set: "set bs = set cs \<Longrightarrow> reason_mask bs = reason_mask cs"
  by (rule bit_word_eqI) (simp add: bit_reason_mask)

lemma single_reasons_disjoint:
  assumes "single_reason a" and "single_reason b" and "bit a n" and "bit b n"
  shows "a = b"
proof -
  from assms(1,2) obtain k m where "a = push_bit k 1" "b = push_bit m 1"
    using single_reason_bit by metis
  with assms(3,4) show ?thesis by (auto simp: bit_simps)
qed

lemma single_has_bit: "single_reason a \<Longrightarrow> \<exists>n. bit a n"
  using single_reason_nonzero [of a] by (auto simp: bit_eq_iff)

lemma reason_mask_Cons:
  assumes "\<forall>b \<in> set (c # cs). single_reason b" and "c \<notin> set cs"
  shows "reason_mask (c # cs) AND c \<noteq> 0" and "cs \<noteq> [] \<Longrightarrow> reason_mask (c # cs) \<noteq> c"
    and "pr_without (reason_mask (c # cs)) c = reason_mask cs"
proof -
  obtain n where n: "bit c n" using single_has_bit assms(1) by auto
  then show "reason_mask (c # cs) AND c \<noteq> 0"
    by (auto simp: bit_eq_iff bit_simps bit_reason_mask dest: bit_imp_le_length intro!: exI [of _ n])
  show "reason_mask (c # cs) \<noteq> c" if "cs \<noteq> []"
  proof
    assume eq: "reason_mask (c # cs) = c"
    from that obtain b where b: "b \<in> set cs" by (cases cs) auto
    then obtain m where m: "bit b m" using single_has_bit assms(1) by auto
    then have "bit c m" using b eq bit_reason_mask [of "c # cs" m] by auto
    then have "b = c" using single_reasons_disjoint [of b c m] m b assms(1) by auto
    with b assms(2) show False by simp
  qed
  show "pr_without (reason_mask (c # cs)) c = reason_mask cs"
  proof (rule bit_word_eqI)
    fix m :: nat
    assume "m < LENGTH(64)"
    then show "bit (pr_without (reason_mask (c # cs)) c) m = bit (reason_mask cs) m"
      using single_reasons_disjoint [of _ c m] assms
      by (auto simp: pr_without_def bit_simps bit_reason_mask)
  qed
qed

definition apply_pauses :: "int \<Rightarrow> (timestamp \<times> pause_reasons) list \<Rightarrow> db \<Rightarrow> db" where
  "apply_pauses i = fold (\<lambda>(t, b). pause t i b)"

definition apply_clears :: "(timestamp \<times> pause_reasons) list \<Rightarrow> db \<Rightarrow> db" where
  "apply_clears = fold (\<lambda>(t, b) d. fst (clear_pause_bit t b d))"

definition paused_row :: "timestamp \<Rightarrow> pause_reasons \<Rightarrow> task_record \<Rightarrow> task_record" where
  "paused_row t m r = r\<lparr>t_status := Paused, t_started_at := None, t_pause_reasons := m, t_paused_at_ms := Some t\<rparr>"

lemma suspend_paused: "suspend_row t b (paused_row t0 m r) = paused_row t0 (pr_with m b) r"
  by (simp add: suspend_row_def pause_row_def paused_row_def)

lemma apply_pauses_paused:
  assumes "db_ok d" and "task_by_rowid i d = Some (paused_row t0 m r)" and "\<forall>x \<in> set bs. snd x \<noteq> 0"
  shows "db_ok (apply_pauses i bs d)
    \<and> task_by_rowid i (apply_pauses i bs d) = Some (paused_row t0 (pr_with m (reason_mask (map snd bs))) r)"
  using assms
proof (induction bs arbitrary: d m)
  case Nil
  then show ?case by (simp add: apply_pauses_def reason_mask_def pr_with_def)
next
  case (Cons x bs)
  obtain t b where x: "x = (t, b)" by force
  have "db_ok (pause t i b d)" using Cons.prems x by (intro db_ok.P_pause) auto
  moreover have "task_by_rowid i (pause t i b d) = Some (paused_row t0 (pr_with m b) r)"
    using Cons.prems by (simp add: lookup_pause suspend_paused)
  moreover have "pr_with (pr_with m b) (reason_mask (map snd bs)) = pr_with m (reason_mask (map snd (x # bs)))"
    by (simp add: x reason_mask_def pr_with_def or.assoc)
  ultimately show ?case using Cons.IH Cons.prems x by (simp add: apply_pauses_def)
qed

lemma apply_clears_paused:
  assumes "db_ok d" and "task_by_rowid i d = Some (paused_row t0 (reason_mask (map snd cs)) r)"
    and "distinct (map snd cs)" and "\<forall>x \<in> set cs. single_reason (snd x)" and "cs \<noteq> []"
  shows "(\<forall>k < length cs. map_option t_status (task_by_rowid i (apply_clears (take k cs) d)) = Some Paused)
    \<and> task_by_rowid i (apply_clears cs d) = Some (resume_row (fst (last cs)) (paused_row t0 (snd (last cs)) r))"
  using assms
proof (induction cs arbitrary: d)
  case (Cons x cs)
  obtain t c where x: "x = (t, c)" by force
  let ?d = "fst (clear_pause_bit t c d)"
  have c: "single_reason c" "c \<noteq> 0" "c \<notin> set (map snd cs)" "\<forall>b \<in> set (c # map snd cs). single_reason b"
    using Cons.prems single_reason_nonzero by (auto simp: x)
  note mask = reason_mask_Cons [OF c(4,3)]
  have ok: "db_ok ?d" using Cons.prems(1) c(1) by (rule db_ok.P_clear_pause_bit [rotated])
  have row: "task_by_rowid i ?d = Some (clear_row t c (paused_row t0 (reason_mask (c # map snd cs)) r))"
    using Cons.prems mask(1) by (simp add: lookup_clear c(2) x paused_row_def)
  have first: "map_option t_status (task_by_rowid i d) = Some Paused"
    using Cons.prems by (simp add: paused_row_def)
  show ?case
  proof (cases "cs = []")
    case True
    then have "reason_mask (c # map snd cs) = c" by (simp add: reason_mask_def pr_with_def)
    with row True first show ?thesis
      by (simp add: x apply_clears_def clear_row_def paused_row_def)
  next
    case False
    then have "task_by_rowid i ?d = Some (paused_row t0 (reason_mask (map snd cs)) r)"
      using row mask(2,3) by (simp add: clear_row_def paused_row_def)
    from Cons.IH [OF ok this] Cons.prems False
    have IH: "\<forall>k < length cs. map_option t_status (task_by_rowid i (apply_clears (take k cs) ?d)) = Some Paused"
      "task_by_rowid i (apply_clears cs ?d) = Some (resume_row (fst (last cs)) (paused_row t0 (snd (last cs)) r))"
      by auto
    have "map_option t_status (task_by_rowid i (apply_clears (take k (x # cs)) d)) = Some Paused"
      if "k < length (x # cs)" for k
      using that first IH(1) by (cases k) (simp_all add: apply_clears_def x)
    with IH(2) False show ?thesis by (simp add: apply_clears_def x)
  qed
qed simp

text \<open>C17: a task that several parties pause, each for its own reason, stays paused until
  every one of these reasons has been cleared, in whatever order; clearing the last one
  makes it pending, with no reason left, and adds to its paused time exactly the span from
  the first pause to the last clearing. Pausing twice for the same reason counts once.\<close>

theorem resumes_after_last_reason:
  assumes "db_ok d" and "task_by_rowid i d = Some r" and "t_pause_reasons r = 0" and "t_paused_at_ms r = None"
    and "\<forall>x \<in> set ((t0, b0) # bs). single_reason (snd x)"
    and "distinct (map snd cs)" and "set (map snd cs) = set (map snd ((t0, b0) # bs))"
  shows "(\<forall>k < length cs. map_option t_status (task_by_rowid i
              (apply_clears (take k cs) (apply_pauses i ((t0, b0) # bs) d))) = Some Paused)
    \<and> task_by_rowid i (apply_clears cs (apply_pauses i ((t0, b0) # bs) d))
        = Some (r\<lparr>t_status := Pending, t_started_at := None,
                  t_pause_duration_ms := t_pause_duration_ms r + (fst (last cs) - t0)\<rparr>)"
proof -
  let ?d1 = "pause t0 i b0 d" and ?bs = "(t0, b0) # bs"
  have ok: "db_ok ?d1" using assms(1,5) single_reason_nonzero by (intro db_ok.P_pause) auto
  have "task_by_rowid i ?d1 = Some (paused_row t0 b0 r)"
    using assms(2,3,4) by (simp add: lookup_pause [OF assms(1)] suspend_row_def pause_row_def paused_row_def pr_with_def)
  then have p: "db_ok (apply_pauses i ?bs d)"
    "task_by_rowid i (apply_pauses i ?bs d) = Some (paused_row t0 (pr_with b0 (reason_mask (map snd bs))) r)"
    using apply_pauses_paused [OF ok, of i t0 b0 r bs] assms(5) single_reason_nonzero
    by (auto simp: apply_pauses_def)
  have m: "pr_with b0 (reason_mask (map snd bs)) = reason_mask (map snd cs)"
    using reason_mask_set [OF assms(7)] by (simp add: reason_mask_def)
  have ne: "cs \<noteq> []" using assms(7) by auto
  have cs: "\<forall>x \<in> set cs. single_reason (snd x)"
  proof
    fix x assume "x \<in> set cs"
    then have "snd x \<in> set (map snd ((t0, b0) # bs))" unfolding assms(7) [symmetric] by simp
    then show "single_reason (snd x)" using assms(5) by auto
  qed
  have "resume_row u (paused_row t0 b r) = r\<lparr>t_status := Pending, t_started_at := None,
      t_pause_duration_ms := t_pause_duration_ms r + (u - t0)\<rparr>" for u b
    by (rule task_record.equality) (simp_all add: assms(3,4) resume_row_def paused_row_def)
  with apply_clears_paused [OF p(1) p(2) [unfolded m] assms(6) cs ne] show ?thesis
    by simp
qed

definition pause_example :: db where
  "pause_example = empty_db\<lparr>tasks := [sample_row 1 ''a'' Running]\<rparr>"

theorem resumes_after_last_reason_witness:
  "task_by_rowid 1 (apply_clears [(50, MODULE), (70, PREEMPTION)]
      (apply_pauses 1 [(10, PREEMPTION), (20, MODULE), (30, PREEMPTION)] pause_example))
   = Some ((sample_row 1 ''a'' Running)\<lparr>t_status := Pending, t_started_at := None, t_pause_duration_ms := 60\<rparr>)"
proof -
  have ok: "db_ok pause_example"
    by (simp add: db_ok_def rowids_ok_def pause_example_def sample_row_def empty_db_def)
  have row: "task_by_rowid 1 pause_example = Some (sample_row 1 ''a'' Running)"
    by (simp add: task_by_rowid_def sql_lookup_def pause_example_def sample_row_def)
  have "task_by_rowid 1 (apply_clears [(50, MODULE), (70, PREEMPTION)]
      (apply_pauses 1 ((10, PREEMPTION) # [(20, MODULE), (30, PREEMPTION)]) pause_example))
      = Some ((sample_row 1 ''a'' Running)\<lparr>t_status := Pending, t_started_at := None,
          t_pause_duration_ms := t_pause_duration_ms (sample_row 1 ''a'' Running)
            + (fst (last [(50, MODULE), (70, PREEMPTION)]) - 10)\<rparr>)"
    by (rule resumes_after_last_reason [OF ok row, THEN conjunct2])
       (auto simp: sample_row_def single_reason_def MODULE_def PREEMPTION_def)
  then show ?thesis by (simp add: sample_row_def)
qed

end
