(* ===== verification/Store_Cancel.thy ===== *)
theory Store_Cancel
  imports Store_Pause
begin

text \<open>
  Cancellation and expiry: the second half of
  \<open>src/src/store/lifecycle/cancel_expire.rs\<close>. Both record the task in history, remove its
  edges and tags, delete it, and then run the failure cascade in a transaction of its own
  whose outcome is ignored.
\<close>

section \<open>Operations\<close>

definition cancel_inner :: "timestamp \<Rightarrow> task_record \<Rightarrow> unit db_stmt" where
  "cancel_inner now task =
     andThen (insert_history now task HCancelled io_default (compute_duration_ms now task) None False)
       (\<lambda>_. exec (drop_task (t_id task)))"

definition cancel_to_history_with_record :: "timestamp \<Rightarrow> task_record \<Rightarrow> unit store_stmt" where
  "cancel_to_history_with_record now task st =
     (case transact (cancel_inner now task) st of
        (st', Inl e) \<Rightarrow> (st', Inl e)
      | (st', Inr _) \<Rightarrow> (fst (fail_dependents now (t_id task) st'), Inr ()))"

definition cancel_to_history :: "timestamp \<Rightarrow> int \<Rightarrow> bool store_stmt" where
  "cancel_to_history now i st =
     (case task_by_rowid i (st_db st) of
        None \<Rightarrow> (st, Inr False)
      | Some task \<Rightarrow> map_result (\<lambda>_. True) (cancel_to_history_with_record now task st))"

definition expirable :: "timestamp \<Rightarrow> task_record \<Rightarrow> bool" where
  "expirable now r \<longleftrightarrow> (case t_expires_at r of None \<Rightarrow> False | Some t \<Rightarrow> t \<le> now)"

definition expired_rows :: "timestamp \<Rightarrow> db \<Rightarrow> task_record list" where
  "expired_rows now d =
     take 500 (order_by (the \<circ> t_expires_at)
       (sql_select (\<lambda>r. expirable now r \<and> t_status r \<in> {Pending, Paused, Blocked}) (tasks d)))"

definition expire_child :: "timestamp \<Rightarrow> task_record \<Rightarrow> task_record db_stmt" where
  "expire_child now child =
     andThen (fetch (load_task_tags (t_id child)))
       (\<lambda>tags. andThen (insert_history now child HExpired io_default None None False)
       (\<lambda>_. andThen (exec (\<lambda>d. del_tasks (\<lambda>r. t_id r = t_id child) (delete_task_tags (t_id child) d)))
       (\<lambda>_. ok (child\<lparr>t_tags := tags\<rparr>))))"

definition expire_row :: "timestamp \<Rightarrow> task_record \<Rightarrow> task_record list db_stmt" where
  "expire_row now task =
     andThen (fetch (load_task_tags (t_id task)))
       (\<lambda>tags. andThen (insert_history now task HExpired io_default None None False)
       (\<lambda>_. andThen (fetch (\<lambda>d. sql_select (\<lambda>r. t_parent_id r = Some (t_id task)
                                    \<and> t_status r \<in> {Pending, Paused}) (tasks d)))
       (\<lambda>children. andThen (collect_each (expire_child now) children)
       (\<lambda>cs. andThen (exec (drop_task (t_id task)))
       (\<lambda>_. ok (cs @ [task\<lparr>t_tags := tags\<rparr>]))))))"

definition expire_inner :: "timestamp \<Rightarrow> task_record list db_stmt" where
  "expire_inner now =
     andThen (fetch (expired_rows now))
       (\<lambda>rows. andThen (collect_each (expire_row now) rows) (\<lambda>rs. ok (concat rs)))"

definition expire_tasks :: "timestamp \<Rightarrow> task_record list store_stmt" where
  "expire_tasks now st =
     (case transact (expire_inner now) st of
        (st', Inl e) \<Rightarrow> (st', Inl e)
      | (st', Inr expired) \<Rightarrow>
          (fold (\<lambda>task s. fst (fail_dependents now (t_id task) s)) expired st', Inr expired))"

definition expire_single :: "timestamp \<Rightarrow> int \<Rightarrow> task_record option store_stmt" where
  "expire_single now i st =
     (case first_row (sql_select (\<lambda>r. t_id r = i \<and> expirable now r \<and> t_status r \<in> {Pending, Paused})
                       (tasks (st_db st))) of
        None \<Rightarrow> (st, Inr None)
      | Some task \<Rightarrow> map_result Some (transact (expire_child now task) st))"

section \<open>Every operation keeps the invariants\<close>

context db_invariant
begin

lemma P_fail_dependents: "P (st_db st) \<Longrightarrow> P (st_db (fst (fail_dependents now i st)))"
  by (auto simp: fail_dependents_def split: option.split sum.split intro: P_fail
      simp del: fail_dependents_inner.simps)

lemma keeps_P_cancel_inner: "keeps P (cancel_inner now task)"
  unfolding cancel_inner_def by (intro keeps_andThen P_insert_history keeps_exec P_drop)

lemma P_transact: "keeps P m \<Longrightarrow> P (st_db st) \<Longrightarrow> P (st_db (fst (transact m st)))"
  by (rule transact_keeps_success [OF keeps_imp_success])

lemma P_cancel_with_record:
  "P (st_db st) \<Longrightarrow> P (st_db (fst (cancel_to_history_with_record now task st)))"
  using P_transact [OF keeps_P_cancel_inner, of st now task]
  by (auto simp: cancel_to_history_with_record_def intro: P_fail_dependents split: prod.split sum.split)

lemma P_cancel: "P (st_db st) \<Longrightarrow> P (st_db (fst (cancel_to_history now i st)))"
  by (simp add: cancel_to_history_def map_result_def P_cancel_with_record split: option.split)

lemma keeps_P_expire_child: "keeps P (expire_child now child)"
  unfolding expire_child_def
  by (intro keeps_andThen keeps_fetch P_insert_history keeps_exec keeps_ok P_del P_delete_tags)

lemma keeps_P_expire_inner: "keeps P (expire_inner now)"
  unfolding expire_inner_def expire_row_def
  by (intro keeps_andThen keeps_fetch keeps_collect_each P_insert_history keeps_P_expire_child
      keeps_exec keeps_ok P_drop)

lemma P_fold_fail:
  "P (st_db st) \<Longrightarrow> P (st_db (fold (\<lambda>task s. fst (fail_dependents now (t_id task) s)) ts st))"
  by (induction ts arbitrary: st) (simp_all add: P_fail_dependents)

lemma P_expire_tasks: "P (st_db st) \<Longrightarrow> P (st_db (fst (expire_tasks now st)))"
  using P_transact [OF keeps_P_expire_inner, of st now]
  by (auto simp: expire_tasks_def intro: P_fold_fail split: prod.split sum.split)

lemma P_expire_single: "P (st_db st) \<Longrightarrow> P (st_db (fst (expire_single now i st)))"
  by (simp add: expire_single_def map_result_def P_transact keeps_P_expire_child split: option.split)

end


section \<open>History insertion succeeds\<close>

text \<open>Every tag row of the history belongs to a history row. While this holds, a new
  history row has a fresh id and no tag of it can be there already.\<close>

definition history_tags_ok :: "db \<Rightarrow> bool" where
  "history_tags_ok d \<longleftrightarrow> fst ` set (history_tags d) \<subseteq> h_id ` set (history d)"

lemma insert_history_succeeds:
  assumes "history_tags_ok d"
  shows "\<exists>d'. insert_history now task s m dur e skip d = (d', Inr ()) \<and> history_tags_ok d'"
proof -
  let ?hid = "next_rowid h_id (history d)"
  let ?new = "map (\<lambda>(_, kv). (?hid, kv)) (sql_select (\<lambda>(t, _). t = t_id task) (task_tags d))"
  have "?hid \<notin> fst ` set (history_tags d)"
    using assms history_table.fresh_rowid [of "history d"] by (auto simp: history_tags_ok_def)
  then have "\<not> sql_exists (\<lambda>(h, k, _). sql_exists (\<lambda>(_, k', _). h = ?hid \<and> k = k') ?new) (history_tags d)"
    by (force simp: sql_exists_iff)
  then show ?thesis
    using assms by (auto simp: insert_history_def copy_history_tags_def Let_def history_tags_ok_def)
qed

lemma history_tags_ok_frame:
  "history_tags_ok (upd_tasks p f d) = history_tags_ok d" "history_tags_ok (del_tasks p d) = history_tags_ok d"
  "history_tags_ok (del_deps q d) = history_tags_ok d" "history_tags_ok (delete_task_tags i d) = history_tags_ok d"
  "history_tags_ok (drop_task i d) = history_tags_ok d"
  "history_tags_ok (fst (ignore_failed_dependency now i d)) = history_tags_ok d"
  by (simp_all add: history_tags_ok_def drop_task_def ignore_failed_dependency_def pause_unblocked_def Let_def)

lemma remove_failed_succeeds:
  assumes "history_tags_ok d"
  shows "\<exists>d'. remove_failed_dependent now f task d = (d', Inr ()) \<and> history_tags_ok d'"
proof -
  obtain d1 where "insert_history now task HDependencyFailed io_default None
      (Some (''dependency task '' @ show_int f @ '' failed'')) False d = (d1, Inr ())" "history_tags_ok d1"
    using insert_history_succeeds [OF assms] by blast
  then show ?thesis by (simp add: remove_failed_dependent_def andThen_def history_tags_ok_frame)
qed

lemma cascade_succeeds:
  assumes "fail_dependents_inner n now f d = Some (d', x)" and "history_tags_ok d"
  shows "(\<exists>y. x = Inr y) \<and> history_tags_ok d'"
proof -
  have rem: "\<exists>d'. remove_failed_dependent now f task d = (d', Inr ()) \<and> history_tags_ok d'"
    if "history_tags_ok d" for f task d
    using that by (rule remove_failed_succeeds)
  have "history_tags_ok d \<longrightarrow> (\<exists>y. x = Inr y) \<and> history_tags_ok d'"
    by (rule fail_cascade_induct(1) [where A = "\<lambda>f d d' x. history_tags_ok d \<longrightarrow> (\<exists>y. x = Inr y) \<and> history_tags_ok d'"
          and B = "\<lambda>f deps fs us d d' x. history_tags_ok d \<longrightarrow> (\<exists>y. x = Inr y) \<and> history_tags_ok d'",
          OF _ _ _ _ _ _ _ assms(1)])
       (simp_all add: history_tags_ok_frame, (metis rem prod.inject sum.distinct(1) sum.inject(2))+)
  with assms(2) show ?thesis by simp
qed

lemma fail_dependents_succeeds:
  assumes "history_tags_ok (st_db st)"
  shows "\<exists>d y. fail_dependents now f st = (st\<lparr>st_db := d\<rparr>, Inr y)
    \<and> fail_dependents_inner (Suc (length (tasks (st_db st)))) now f (st_db st) = Some (d, Inr y)
    \<and> history_tags_ok d"
proof -
  obtain d x where run: "fail_dependents_inner (Suc (length (tasks (st_db st)))) now f (st_db st) = Some (d, x)"
    using fail_dependents_total [of "st_db st"] by force
  with cascade_succeeds [OF run assms] show ?thesis
    by (auto simp: fail_dependents_def simp del: fail_dependents_inner.simps)
qed

section \<open>Cancellation\<close>

lemma doomed_mono:
  "doomed d f i \<Longrightarrow> vulnerable d = vulnerable d' \<Longrightarrow> task_deps d = task_deps d' \<Longrightarrow> doomed d' f i"
  by (induction rule: doomed.induct) (auto intro: doomed.intros)


definition cancel_example :: task_store where
  "cancel_example = open_memory\<lparr>st_db := empty_db
     \<lparr>tasks := [sample_row 1 ''a'' Pending, sample_row 2 ''b'' Blocked, sample_row 3 ''c'' Pending],
      task_deps := [(2, 1)], task_tags := [(1, ''k'', ''v'')]\<rparr>\<rparr>"



section \<open>Expiry\<close>

definition overdue :: "timestamp \<Rightarrow> task_record \<Rightarrow> bool" where
  "overdue now r \<longleftrightarrow> expirable now r \<and> t_status r \<in> {Pending, Paused, Blocked}"

lemma expire_child_success:
  assumes "expire_child now c d = (d', Inr t)"
  shows "tasks d' = sql_delete (\<lambda>r. t_id r = t_id c) (tasks d)" and "t_id t = t_id c"
proof -
  obtain d1 where "insert_history now c HExpired io_default None None False d = (d1, Inr ())"
    and d': "d' = del_tasks (\<lambda>r. t_id r = t_id c) (delete_task_tags (t_id c) d1)"
    and t: "t = c\<lparr>t_tags := load_task_tags (t_id c) d\<rparr>"
    using assms by (auto simp: expire_child_def andThen_eq_Inr)
  then have "tasks d1 = tasks d" using insert_history_frame(1) by (metis fst_conv)
  with d' show "tasks d' = sql_delete (\<lambda>r. t_id r = t_id c) (tasks d)" by simp
  from t show "t_id t = t_id c" by simp
qed

lemma expire_children_success:
  assumes "collect_each (expire_child now) cs d = (d', Inr ts)"
  shows "tasks d' = sql_delete (\<lambda>r. t_id r \<in> t_id ` set cs) (tasks d) \<and> t_id ` set ts = t_id ` set cs"
  using assms
proof (induction cs arbitrary: d ts)
  case Nil
  then show ?case by (simp add: sql_delete_def)
next
  case (Cons c cs)
  then obtain d1 t us where c: "expire_child now c d = (d1, Inr t)"
    and us: "collect_each (expire_child now) cs d1 = (d', Inr us)" "ts = t # us"
    by (auto simp: andThen_eq_Inr)
  from Cons.IH [OF us(1)] us(2) expire_child_success [OF c] show ?case
    by (auto simp: sql_delete_delete intro!: arg_cong [where f = "\<lambda>p. sql_delete p (tasks d)"])
qed

text \<open>What one expired row takes with it: its pending and paused children.\<close>

definition waiting_child :: "int \<Rightarrow> task_record \<Rightarrow> bool" where
  "waiting_child i r \<longleftrightarrow> t_parent_id r = Some i \<and> t_status r \<in> {Pending, Paused}"

lemma expire_row_success:
  assumes "expire_row now task d = (d', Inr ts)"
  shows "tasks d' = sql_delete (\<lambda>r. t_id r \<in> t_id ` set ts) (tasks d)"
    and "t_id ` set ts = insert (t_id task) (t_id ` {r \<in> set (tasks d). waiting_child (t_id task) r})"
proof -
  obtain d1 d2 cs where h: "insert_history now task HExpired io_default None None False d = (d1, Inr ())"
    and cs: "collect_each (expire_child now) (sql_select (\<lambda>r. t_parent_id r = Some (t_id task)
               \<and> t_status r \<in> {Pending, Paused}) (tasks d1)) d1 = (d2, Inr cs)"
    and d': "d' = drop_task (t_id task) d2" and ts: "ts = cs @ [task\<lparr>t_tags := load_task_tags (t_id task) d\<rparr>]"
    using assms by (auto simp: expire_row_def andThen_eq_Inr)
  have "tasks d1 = tasks d" using h insert_history_frame(1) by (metis fst_conv)
  with expire_children_success [OF cs]
  have c: "t_id ` set cs = t_id ` {r \<in> set (tasks d). waiting_child (t_id task) r}"
    "tasks d2 = sql_delete (\<lambda>r. t_id r \<in> t_id ` set cs) (tasks d)"
    by (simp_all add: set_sql_select waiting_child_def)
  show "t_id ` set ts = insert (t_id task) (t_id ` {r \<in> set (tasks d). waiting_child (t_id task) r})"
    using c(1) ts by auto
  show "tasks d' = sql_delete (\<lambda>r. t_id r \<in> t_id ` set ts) (tasks d)"
    by (simp add: d' drop_task_def c(2) sql_delete_delete ts)
qed

lemma expire_rows_success:
  assumes "collect_each (expire_row now) rows d = (d', Inr tss)"
  shows "tasks d' = sql_delete (\<lambda>r. t_id r \<in> t_id ` set (concat tss)) (tasks d)
    \<and> t_id ` set rows \<subseteq> t_id ` set (concat tss)
    \<and> t_id ` set (concat tss) \<subseteq> t_id ` set rows
        \<union> t_id ` {r \<in> set (tasks d). \<exists>i \<in> t_id ` set rows. waiting_child i r}"
  using assms
proof (induction rows arbitrary: d tss)
  case Nil
  then show ?case by (simp add: sql_delete_def)
next
  case (Cons task rows)
  then obtain d1 ts uss where t: "expire_row now task d = (d1, Inr ts)"
    and us: "collect_each (expire_row now) rows d1 = (d', Inr uss)" "tss = ts # uss"
    by (auto simp: andThen_eq_Inr)
  note IH = Cons.IH [OF us(1)] and row = expire_row_success [OF t]
  have sub: "set (tasks d1) \<subseteq> set (tasks d)" by (auto simp: row(1) set_sql_delete)
  have "tasks d' = sql_delete (\<lambda>r. t_id r \<in> t_id ` set (concat tss)) (tasks d)"
    using IH by (auto simp: row(1) us(2) sql_delete_delete image_Un
        intro!: arg_cong [where f = "\<lambda>p. sql_delete p (tasks d)"])
  moreover have "t_id ` set (task # rows) \<subseteq> t_id ` set (concat tss)"
  proof -
    have "t_id ` set rows \<subseteq> t_id ` set (concat uss)" using IH by blast
    then show ?thesis using row(2) by (auto simp: us(2) image_Un)
  qed
  moreover have "t_id ` set (concat tss) \<subseteq> t_id ` set (task # rows)
        \<union> t_id ` {r \<in> set (tasks d). \<exists>i \<in> t_id ` set (task # rows). waiting_child i r}"
  proof -
    have "t_id ` set ts \<subseteq> t_id ` set (task # rows)
        \<union> t_id ` {r \<in> set (tasks d). \<exists>i \<in> t_id ` set (task # rows). waiting_child i r}"
      unfolding row(2) by auto
    moreover have "t_id ` set (concat uss) \<subseteq> t_id ` set (task # rows)
        \<union> t_id ` {r \<in> set (tasks d). \<exists>i \<in> t_id ` set (task # rows). waiting_child i r}"
    proof -
      have "t_id ` set (concat uss) \<subseteq> t_id ` set rows
          \<union> t_id ` {r \<in> set (tasks d1). \<exists>i \<in> t_id ` set rows. waiting_child i r}"
        using IH by blast
      also have "\<dots> \<subseteq> t_id ` set (task # rows)
          \<union> t_id ` {r \<in> set (tasks d). \<exists>i \<in> t_id ` set (task # rows). waiting_child i r}"
        using sub by auto
      finally show ?thesis .
    qed
    ultimately show ?thesis by (simp add: us(2) image_Un)
  qed
  ultimately show ?case by blast
qed

text \<open>The cascade leaves no task overdue that was not.\<close>

definition none_overdue :: "timestamp \<Rightarrow> db \<Rightarrow> bool" where
  "none_overdue now d \<longleftrightarrow> (\<forall>r \<in> set (tasks d). \<not> overdue now r)"

lemma none_overdue_subset: "none_overdue now d \<Longrightarrow> set (tasks d') \<subseteq> set (tasks d) \<Longrightarrow> none_overdue now d'"
  by (auto simp: none_overdue_def)

lemma none_overdue_upd:
  "none_overdue now d \<Longrightarrow> (\<And>r. p r \<Longrightarrow> \<not> overdue now r \<Longrightarrow> \<not> overdue now (f r)) \<Longrightarrow> none_overdue now (upd_tasks p f d)"
  by (auto simp: none_overdue_def set_sql_update)

lemma expirable_frame [simp]:
  "expirable now (r\<lparr>t_status := s\<rparr>) = expirable now r" "expirable now (pause_row t b r) = expirable now r"
  by (simp_all add: expirable_def pause_row_def)

lemma none_overdue_ignore:
  "none_overdue now d \<Longrightarrow> none_overdue now (fst (ignore_failed_dependency t i d))"
  unfolding ignore_failed_dependency_def pause_unblocked_def Let_def
  by (auto intro!: none_overdue_upd simp: overdue_def)

lemma none_overdue_fail: "none_overdue now (st_db st) \<Longrightarrow> none_overdue now (st_db (fst (fail_dependents t i st)))"
proof -
  have rem: "none_overdue now d \<Longrightarrow> none_overdue now (fst (remove_failed_dependent t f task d))" for f task d
    by (erule none_overdue_subset)
       (auto simp: remove_failed_dependent_def andThen_def set_sql_delete split: prod.splits sum.splits
         dest!: arg_cong [of _ _ "\<lambda>x. tasks (fst x)"])
  have "none_overdue now d \<Longrightarrow> none_overdue now d'" if "fail_dependents_inner n t i d = Some (d', x)" for n d d' x
    by (rule fail_dependents_keeps [where Q = "none_overdue now", OF _ _ _ that])
       (auto intro: none_overdue_ignore rem none_overdue_subset)
  then show "none_overdue now (st_db st) \<Longrightarrow> none_overdue now (st_db (fst (fail_dependents t i st)))"
    by (auto simp: fail_dependents_def split: option.split sum.split simp del: fail_dependents_inner.simps)
qed

lemma none_overdue_fold:
  "none_overdue now (st_db st) \<Longrightarrow>
   none_overdue now (st_db (fold (\<lambda>task s. fst (fail_dependents t (t_id task) s)) ts st))"
  by (induction ts arbitrary: st) (simp_all add: none_overdue_fail)

text \<open>C19: a sweep that succeeds, with at most 500 overdue tasks (the limit of one sweep),
  leaves no overdue task in the queue, also after the failure cascade has unblocked tasks;
  every task it reports was overdue or a pending or paused child of an overdue task, and
  every overdue task is reported.\<close>

theorem expire_leaves_none_overdue:
  assumes "expire_tasks now st = (st', Inr expired)"
    and "length (filter (overdue now) (tasks (st_db st))) \<le> 500"
  shows "(\<forall>r \<in> set (tasks (st_db st')). \<not> overdue now r)
    \<and> t_id ` {r \<in> set (tasks (st_db st)). overdue now r} \<subseteq> t_id ` set expired
    \<and> t_id ` set expired \<subseteq> t_id ` {r \<in> set (tasks (st_db st)). overdue now r \<or>
          (\<exists>p \<in> set (tasks (st_db st)). overdue now p \<and> waiting_child (t_id p) r)}"
proof -
  let ?d = "st_db st"
  obtain d1 where inner: "expire_inner now ?d = (d1, Inr expired)"
    and st': "st' = fold (\<lambda>task s. fst (fail_dependents now (t_id task) s)) expired (st\<lparr>st_db := d1\<rparr>)"
    using assms(1) by (auto simp: expire_tasks_def transact_def split: prod.splits sum.splits)
  obtain tss where rows: "collect_each (expire_row now) (expired_rows now ?d) ?d = (d1, Inr tss)"
    and ex: "expired = concat tss"
    using inner by (auto simp: expire_inner_def andThen_eq_Inr)
  have sel: "sql_select (\<lambda>r. expirable now r \<and> t_status r \<in> {Pending, Paused, Blocked}) (tasks ?d)
      = filter (overdue now) (tasks ?d)"
    by (simp add: sql_select_def overdue_def [abs_def])
  have E: "set (expired_rows now ?d) = {r \<in> set (tasks ?d). overdue now r}"
    unfolding expired_rows_def sel using assms(2) by (auto simp: order_by_def)
  note R = expire_rows_success [OF rows, folded ex, unfolded E]
  have "none_overdue now d1"
    using R by (auto simp: none_overdue_def set_sql_delete)
  then have "none_overdue now (st_db st')"
    unfolding st' by (intro none_overdue_fold) simp
  then have "\<forall>r \<in> set (tasks (st_db st')). \<not> overdue now r" by (simp add: none_overdue_def)
  moreover have "t_id ` {r \<in> set (tasks ?d). overdue now r}
      \<union> t_id ` {r \<in> set (tasks ?d). \<exists>i \<in> t_id ` {r \<in> set (tasks ?d). overdue now r}. waiting_child i r}
    \<subseteq> t_id ` {r \<in> set (tasks ?d). overdue now r \<or>
          (\<exists>p \<in> set (tasks ?d). overdue now p \<and> waiting_child (t_id p) r)}"
    by auto
  ultimately show ?thesis using R by (meson subset_trans)
qed

definition expiry_example :: task_store where
  "expiry_example = open_memory\<lparr>st_db := empty_db
     \<lparr>tasks := [(sample_row 1 ''a'' Pending)\<lparr>t_expires_at := Some 5\<rparr>,
               (sample_row 2 ''b'' Paused)\<lparr>t_parent_id := Some 1\<rparr>,
               (sample_row 3 ''c'' Blocked)\<lparr>t_on_dependency_failure := Ignore\<rparr>,
               (sample_row 4 ''d'' Pending)\<lparr>t_expires_at := Some 50\<rparr>], task_deps := [(3, 1)]\<rparr>\<rparr>"

theorem expire_leaves_none_overdue_witness:
  "\<exists>st'. expire_tasks 10 expiry_example
       = (st', Inr [(sample_row 2 ''b'' Paused)\<lparr>t_parent_id := Some 1\<rparr>, (sample_row 1 ''a'' Pending)\<lparr>t_expires_at := Some 5\<rparr>])
     \<and> (\<forall>r \<in> set (tasks (st_db st')). \<not> overdue 10 r)"
proof -
  let ?ex = "[(sample_row 2 ''b'' Paused)\<lparr>t_parent_id := Some 1\<rparr>, (sample_row 1 ''a'' Pending)\<lparr>t_expires_at := Some 5\<rparr>]"
  have "snd (expire_tasks 10 expiry_example) = Inr ?ex" by code_simp
  then obtain st' where run: "expire_tasks 10 expiry_example = (st', Inr ?ex)"
    by (metis prod.collapse)
  have "length (filter (overdue 10) (tasks (st_db expiry_example))) \<le> 500" by code_simp
  from expire_leaves_none_overdue [OF run this] run show ?thesis by blast
qed

end
