(* ===== verification/Store_Hierarchy.thy ===== *)
theory Store_Hierarchy
  imports Store_Cancel
begin

text \<open>
  Parents and children: \<open>src/src/store/hierarchy.rs\<close>. A parent that has spawned children
  waits until none of them is active; the history then decides between finalising it and
  failing it.
\<close>

section \<open>Operations\<close>

definition set_waiting :: "int \<Rightarrow> bytes option \<Rightarrow> db \<Rightarrow> db" where
  "set_waiting i memo d =
     upd_tasks (\<lambda>r. t_id r = i \<and> t_status r = Running)
       (\<lambda>r. r\<lparr>t_status := Waiting, t_started_at := None, t_memo := memo\<rparr>) d"

definition set_running_for_finalize :: "timestamp \<Rightarrow> int \<Rightarrow> db \<Rightarrow> db" where
  "set_running_for_finalize now i d =
     upd_tasks (\<lambda>r. t_id r = i \<and> t_status r = Waiting) (\<lambda>r. r\<lparr>t_status := Running, t_started_at := Some now\<rparr>) d"

definition active_children_count :: "int \<Rightarrow> db \<Rightarrow> nat" where
  "active_children_count parent_id d = sql_count (\<lambda>r. t_parent_id r = Some parent_id) (tasks d)"

definition children :: "int \<Rightarrow> db \<Rightarrow> task_record list" where
  "children parent_id d = order_by t_id (sql_select (\<lambda>r. t_parent_id r = Some parent_id) (tasks d))"

definition completed_children_count :: "int \<Rightarrow> db \<Rightarrow> nat" where
  "completed_children_count parent_id d =
     sql_count (\<lambda>h. h_parent_id h = Some parent_id \<and> h_status h = HCompleted) (history d)"

definition failed_children_count :: "int \<Rightarrow> db \<Rightarrow> nat" where
  "failed_children_count parent_id d =
     sql_count (\<lambda>h. h_parent_id h = Some parent_id \<and> h_status h = HFailed) (history d)"

definition cancel_children :: "timestamp \<Rightarrow> int \<Rightarrow> int list store_stmt" where
  "cancel_children now parent_id st =
     (let running_ids = map t_id (sql_select (\<lambda>r. t_parent_id r = Some parent_id
                                     \<and> t_status r \<in> {Running, Waiting}) (tasks (st_db st)));
          p = (\<lambda>r. t_parent_id r = Some parent_id \<and> t_status r \<in> {Pending, Paused});
          pending_rows = sql_select p (tasks (st_db st))
      in if pending_rows = [] then (st, Inr running_ids)
         else map_result (\<lambda>_. running_ids)
                (transact (andThen (for_each (\<lambda>task. insert_history now task HCancelled io_default None None False)
                                     pending_rows)
                             (\<lambda>_. exec (del_tasks p))) st))"

definition try_resolve_parent :: "int \<Rightarrow> db \<Rightarrow> parent_resolution option" where
  "try_resolve_parent parent_id d =
     (case task_by_rowid parent_id d of
        None \<Rightarrow> None
      | Some parent \<Rightarrow>
          if t_status parent \<noteq> Waiting then None
          else if active_children_count parent_id d > 0 then Some StillWaiting
          else let failed_count = failed_children_count parent_id d
               in if failed_count > 0
                  then Some (ParentFailed (show_int (int failed_count) @ '' child task(s) failed''))
                  else Some ReadyToFinalize)"

section \<open>Every operation keeps the invariants\<close>

context db_invariant
begin

lemma P_set_waiting: "P d \<Longrightarrow> P (set_waiting i memo d)"
  unfolding set_waiting_def by (rule P_upd) (simp_all add: row_step_def)

lemma P_set_running: "P d \<Longrightarrow> P (set_running_for_finalize now i d)"
  unfolding set_running_for_finalize_def by (rule P_upd) (simp_all add: row_step_def)

lemma P_cancel_children: "P (st_db st) \<Longrightarrow> P (st_db (fst (cancel_children now i st)))"
  unfolding cancel_children_def Let_def map_result_def
  by (auto intro!: P_transact keeps_andThen keeps_for_each keeps_exec P_insert_history P_del)

end

section \<open>The last child decides\<close>

lemma active_count_zero: "active_children_count p d = 0 \<longleftrightarrow> (\<forall>r \<in> set (tasks d). t_parent_id r \<noteq> Some p)"
  by (simp add: active_children_count_def sql_count_def filter_empty_conv)

text \<open>Removing the only active child, after a history row for it.\<close>

lemma last_child_gone:
  assumes "db_ok d" and "task_by_rowid p d = Some parent" and "t_status parent = Waiting"
    and "\<forall>r \<in> set (tasks d). t_parent_id r = Some p \<longrightarrow> t_id r = c" and "c \<noteq> p"
    and "tasks d' = sql_delete (\<lambda>r. t_id r = c) (tasks d)"
    and "history d' = history d @ [h]" and "failed_children_count p d = 0" and "h_parent_id h = Some p"
  shows "try_resolve_parent p d'
    = Some (if h_status h = HFailed then ParentFailed ''1 child task(s) failed'' else ReadyToFinalize)"
proof -
  have "task_by_rowid p d' = Some parent"
    using assms(1,2,5) task_table.lookup_delete_other [of "tasks d" p parent "\<lambda>r. t_id r = c"]
      task_by_rowid_in [OF assms(2)]
    by (simp add: task_by_rowid_def assms(6) db_ok_def)
  moreover have "active_children_count p d' = 0"
    using assms(4) by (auto simp: active_count_zero assms(6) set_sql_delete)
  moreover have "failed_children_count p d' = (if h_status h = HFailed then 1 else 0)"
    using assms(8) by (simp add: failed_children_count_def sql_count_def assms(7,9))
  moreover have "show_int 1 = ''1''" by code_simp
  ultimately show ?thesis using assms(3) by (simp add: try_resolve_parent_def)
qed

text \<open>C24: when the only active child of a waiting parent ends, and no child of it failed
  before, the parent is resolved at once: it is ready to finalize if the child completed,
  and failed if the child failed permanently. A child that exhausted its retries does not
  fail its parent: its history status is dead letter, and only failed children count.\<close>

theorem last_child_resolves_parent:
  assumes "db_ok d" and "history_tags_ok d" and "task_by_rowid p d = Some parent" and "t_status parent = Waiting"
    and "task_by_rowid c d = Some child" and "t_parent_id child = Some p" and "\<not> t_requeue child"
    and "t_recurring_interval_secs child = None" and "failed_children_count p d = 0"
    and "\<forall>r \<in> set (tasks d). t_parent_id r = Some p \<longrightarrow> t_id r = c" and "c \<noteq> p"
  shows "(\<exists>d'. complete_inner now child metrics skip d = (d', Inr None)
            \<and> try_resolve_parent p d' = Some ReadyToFinalize)
    \<and> (\<exists>d'. fail_terminal now child e retryable metrics d = (d', Inr ())
            \<and> try_resolve_parent p d' = Some (if retryable then ReadyToFinalize
                                              else ParentFailed ''1 child task(s) failed''))"
proof (rule conjI)
  note row = task_by_rowid_in [OF assms(5)]
  have one: "t_id r = c \<and> \<not> t_requeue r \<longleftrightarrow> t_id r = c" if "r \<in> set (tasks d)" for r
    using tasks_inj [OF assms(1) that] row assms(7) by auto
  then have del: "sql_delete (\<lambda>r. t_id r = c \<and> \<not> t_requeue r) (tasks d) = sql_delete (\<lambda>r. t_id r = c) (tasks d)"
    unfolding sql_delete_def by (intro filter_cong) auto
  have ex: "sql_exists (\<lambda>r. t_id r = c \<and> \<not> t_requeue r) (tasks d)"
    using row assms(7) by (auto simp: sql_exists_iff)
  note gone = last_child_gone [OF assms(1,3,4,10,11) _ _ assms(9)]
  obtain d1 where h: "insert_history now child HCompleted metrics (compute_duration_ms now child)
      (t_last_error child) skip d = (d1, Inr ())"
    using insert_history_succeeds [OF assms(2)] by blast
  then have d1: "tasks d1 = tasks d" "history d1 = history d @ [(history_row now child HCompleted metrics
      (compute_duration_ms now child) (t_last_error child))\<lparr>h_id := next_rowid h_id (history d)\<rparr>]"
    using insert_history_frame(1) insert_history_rows by (metis fst_conv)+
  let ?d2 = "(if skip then id else delete_task_tags c) (del_tasks (\<lambda>r. t_id r = c \<and> \<not> t_requeue r) d1)"
  have "complete_inner now child metrics skip d = (?d2, Inr None)"
    using h ex row assms(8) d1(1) by (simp add: complete_inner_def andThen_def create_next_instance_def)
  moreover have "try_resolve_parent p ?d2 = Some ReadyToFinalize"
    using gone [of ?d2 "(history_row now child HCompleted metrics (compute_duration_ms now child)
        (t_last_error child))\<lparr>h_id := next_rowid h_id (history d)\<rparr>"] del d1 assms(6)
    by (simp add: history_row_def)
  ultimately show "\<exists>d'. complete_inner now child metrics skip d = (d', Inr None)
      \<and> try_resolve_parent p d' = Some ReadyToFinalize" by blast
  obtain d3 where h: "insert_history now child (terminal_status retryable) metrics (compute_duration_ms now child)
      (Some e) False d = (d3, Inr ())"
    using insert_history_succeeds [OF assms(2)] by blast
  then have d3: "tasks d3 = tasks d" "history d3 = history d @ [(history_row now child (terminal_status retryable) metrics
      (compute_duration_ms now child) (Some e))\<lparr>h_id := next_rowid h_id (history d)\<rparr>]"
    using insert_history_frame(1) insert_history_rows by (metis fst_conv)+
  let ?d4 = "del_tasks (\<lambda>r. t_id r = c) (delete_task_tags c d3)"
  have "fail_terminal now child e retryable metrics d = (?d4, Inr ())"
    using h row by (simp add: fail_terminal_def andThen_def)
  moreover have "try_resolve_parent p ?d4 = Some (if retryable then ReadyToFinalize
      else ParentFailed ''1 child task(s) failed'')"
    using gone [of ?d4 "(history_row now child (terminal_status retryable) metrics (compute_duration_ms now child)
        (Some e))\<lparr>h_id := next_rowid h_id (history d)\<rparr>"] d3 assms(6)
    by (simp add: history_row_def terminal_status_def)
  ultimately show "\<exists>d'. fail_terminal now child e retryable metrics d = (d', Inr ())
      \<and> try_resolve_parent p d' = Some (if retryable then ReadyToFinalize
           else ParentFailed ''1 child task(s) failed'')" by blast
qed

definition family_example :: db where
  "family_example = empty_db\<lparr>tasks := [sample_row 1 ''p'' Waiting,
     (sample_row 2 ''c'' Running)\<lparr>t_parent_id := Some 1\<rparr>]\<rparr>"

theorem last_child_resolves_parent_witness:
  "\<exists>d'. fail_terminal 5 ((sample_row 2 ''c'' Running)\<lparr>t_parent_id := Some 1\<rparr>) ''boom'' True io_default family_example
      = (d', Inr ()) \<and> try_resolve_parent 1 d' = Some ReadyToFinalize"
proof -
  let ?c = "(sample_row 2 ''c'' Running)\<lparr>t_parent_id := Some 1\<rparr>"
  have ok: "db_ok family_example"
    by (simp add: db_ok_def rowids_ok_def family_example_def sample_row_def empty_db_def)
  have rows: "history_tags_ok family_example" "task_by_rowid 1 family_example = Some (sample_row 1 ''p'' Waiting)"
    "task_by_rowid 2 family_example = Some ?c" "failed_children_count 1 family_example = 0"
    by (simp_all add: history_tags_ok_def task_by_rowid_def sql_lookup_def failed_children_count_def sql_count_def
        family_example_def sample_row_def empty_db_def)
  have kid: "\<forall>r \<in> set (tasks family_example). t_parent_id r = Some 1 \<longrightarrow> t_id r = 2"
    by (simp add: family_example_def sample_row_def)
  from last_child_resolves_parent [THEN conjunct2, OF ok rows(1,2) _ rows(3) _ _ _ rows(4) kid, of 5 "''boom''" True io_default]
  show ?thesis by (simp add: sample_row_def)
qed

end
