(* ===== verification/Store_Query.thy ===== *)
theory Store_Query
  imports Store_Hierarchy "HOL-Library.Char_ord" "HOL-Library.List_Lexorder"
begin

text \<open>
  The read-only queries of the store and the operations on schedules:
  \<open>src/src/store/query/\<close> (\<open>active.rs\<close>, \<open>history.rs\<close>, \<open>scheduling.rs\<close>, \<open>tags.rs\<close>).

  A query without \<open>ORDER BY\<close> returns its rows in table order; the groups of a
  \<open>GROUP BY\<close> come in the order of their first row. Averages are exact rationals. The
  value that the database driver decodes an SQL \<open>NULL\<close> in a \<open>REAL\<close> column to is the
  parameter \<open>null_real\<close>.
\<close>

section \<open>The active queue\<close>

definition by_priority :: "(task_record \<Rightarrow> bool) \<Rightarrow> task_store \<Rightarrow> task_record list" where
  "by_priority p st =
     map (populate_tags st) (order_by (dispatch_key None) (sql_select p (tasks (st_db st))))"

definition by_rowid :: "(task_record \<Rightarrow> bool) \<Rightarrow> task_store \<Rightarrow> task_record list" where
  "by_rowid p st = map (populate_tags st) (order_by t_id (sql_select p (tasks (st_db st))))"

definition running_tasks :: "task_store \<Rightarrow> task_record list" where
  "running_tasks = by_priority (\<lambda>r. t_status r = Running)"

definition running_count :: "db \<Rightarrow> nat" where
  "running_count d = sql_count (\<lambda>r. t_status r = Running) (tasks d)"

definition pending_tasks :: "int \<Rightarrow> task_store \<Rightarrow> task_record list" where
  "pending_tasks limit st =
     map (populate_tags st) (sql_limit limit
       (order_by (dispatch_key None) (sql_select (\<lambda>r. t_status r = Pending) (tasks (st_db st)))))"

definition pending_count :: "db \<Rightarrow> nat" where
  "pending_count d = sql_count (\<lambda>r. t_status r = Pending) (tasks d)"

definition pending_by_type :: "string \<Rightarrow> task_store \<Rightarrow> task_record list" where
  "pending_by_type ty = by_priority (\<lambda>r. t_status r = Pending \<and> t_task_type r = ty)"

definition paused_count :: "db \<Rightarrow> nat" where
  "paused_count d = sql_count (\<lambda>r. t_status r = Paused) (tasks d)"

definition paused_tasks :: "task_store \<Rightarrow> task_record list" where
  "paused_tasks = by_priority (\<lambda>r. t_status r = Paused)"

definition task_by_id :: "int \<Rightarrow> task_store \<Rightarrow> task_record option" where
  "task_by_id i st = map_option (populate_tags st) (task_by_rowid i (st_db st))"

definition task_by_key :: "string \<Rightarrow> task_store \<Rightarrow> task_record option" where
  "task_by_key key st = map_option (populate_tags st) (task_by_rowkey key (st_db st))"

definition running_io_totals :: "db \<Rightarrow> int \<times> int" where
  "running_io_totals d =
     (let rs = sql_select (\<lambda>r. t_status r = Running) (tasks d)
      in (sum_list (map (disk_read \<circ> t_expected_io) rs), sum_list (map (disk_write \<circ> t_expected_io) rs)))"

definition running_net_io_totals :: "db \<Rightarrow> int \<times> int" where
  "running_net_io_totals d =
     (let rs = sql_select (\<lambda>r. t_status r = Running) (tasks d)
      in (sum_list (map (net_rx \<circ> t_expected_io) rs), sum_list (map (net_tx \<circ> t_expected_io) rs)))"

definition running_count_for_group :: "string \<Rightarrow> db \<Rightarrow> nat" where
  "running_count_for_group g d = sql_count (\<lambda>r. t_group_key r = Some g \<and> t_status r = Running) (tasks d)"

definition waiting_count :: "db \<Rightarrow> nat" where
  "waiting_count d = sql_count (\<lambda>r. t_status r = Waiting) (tasks d)"

definition waiting_tasks :: "task_store \<Rightarrow> task_record list" where
  "waiting_tasks = by_priority (\<lambda>r. t_status r = Waiting)"

definition tasks_by_group :: "string \<Rightarrow> task_store \<Rightarrow> task_record list" where
  "tasks_by_group g = by_rowid (\<lambda>r. t_group_key r = Some g)"

definition tasks_by_type :: "string \<Rightarrow> task_store \<Rightarrow> task_record list" where
  "tasks_by_type ty = by_rowid (\<lambda>r. t_task_type r = ty)"

definition all_active_tasks :: "task_store \<Rightarrow> task_record list" where
  "all_active_tasks = by_rowid (\<lambda>_. True)"

definition tasks_by_type_prefix :: "string \<Rightarrow> task_store \<Rightarrow> task_record list" where
  "tasks_by_type_prefix prefix = by_priority (\<lambda>r. like_prefix prefix (t_task_type r))"

definition pending_count_by_prefix :: "string \<Rightarrow> db \<Rightarrow> nat" where
  "pending_count_by_prefix prefix d =
     sql_count (\<lambda>r. like_prefix prefix (t_task_type r) \<and> t_status r = Pending) (tasks d)"

definition paused_count_by_prefix :: "string \<Rightarrow> db \<Rightarrow> nat" where
  "paused_count_by_prefix prefix d =
     sql_count (\<lambda>r. like_prefix prefix (t_task_type r) \<and> t_status r = Paused) (tasks d)"

definition pending_count_for_group :: "string \<Rightarrow> db \<Rightarrow> nat" where
  "pending_count_for_group g d = sql_count (\<lambda>r. t_group_key r = Some g \<and> t_status r = Pending) (tasks d)"

definition paused_count_for_group :: "string \<Rightarrow> db \<Rightarrow> nat" where
  "paused_count_for_group g d = sql_count (\<lambda>r. t_group_key r = Some g \<and> t_status r = Paused) (tasks d)"

definition paused_group_info :: "db \<Rightarrow> (string \<times> timestamp \<times> timestamp option \<times> nat) list" where
  "paused_group_info d =
     order_by (fst \<circ> snd)
       (map (\<lambda>(g, paused_at, resume_at). (g, paused_at, resume_at,
               sql_count (\<lambda>r. t_group_key r = Some g \<and> t_status r = Paused \<and> t_pause_reasons r AND 8 \<noteq> 0) (tasks d)))
         (paused_groups d))"

definition task_dependencies :: "int \<Rightarrow> db \<Rightarrow> int list" where
  "task_dependencies i d = map snd (sql_select (\<lambda>(t, _). t = i) (task_deps d))"

definition task_dependents :: "int \<Rightarrow> db \<Rightarrow> int list" where
  "task_dependents i d = map fst (sql_select (\<lambda>(_, dep). dep = i) (task_deps d))"

definition blocked_tasks :: "task_store \<Rightarrow> task_record list" where
  "blocked_tasks = by_priority (\<lambda>r. t_status r = Blocked)"

definition blocked_count :: "db \<Rightarrow> nat" where
  "blocked_count d = sql_count (\<lambda>r. t_status r = Blocked) (tasks d)"

section \<open>History\<close>

definition populate_history_tags :: "db \<Rightarrow> history_record \<Rightarrow> history_record" where
  "populate_history_tags d h =
     (case map snd (sql_select (\<lambda>(i, _). i = h_id h) (history_tags d)) of
        [] \<Rightarrow> h | tags \<Rightarrow> h\<lparr>h_tags := tags\<rparr>)"

definition newest_first :: "(history_record \<Rightarrow> bool) \<Rightarrow> db \<Rightarrow> history_record list" where
  "newest_first p d = order_by (\<lambda>h. - h_completed_at h) (sql_select p (history d))"

definition sql_offset :: "int \<Rightarrow> 'r list \<Rightarrow> 'r list" where
  "sql_offset n xs = drop (nat n) xs"

definition history_by_id :: "int \<Rightarrow> db \<Rightarrow> history_record option" where
  "history_by_id i d = map_option (populate_history_tags d) (sql_lookup h_id i (history d))"

definition history_page :: "int \<Rightarrow> int \<Rightarrow> db \<Rightarrow> history_record list" where
  "history_page limit ofs d = sql_limit limit (sql_offset ofs (newest_first (\<lambda>_. True) d))"

definition history_by_type :: "string \<Rightarrow> int \<Rightarrow> db \<Rightarrow> history_record list" where
  "history_by_type ty limit d = sql_limit limit (newest_first (\<lambda>h. h_task_type h = ty) d)"

definition latest_history_by_key :: "string \<Rightarrow> db \<Rightarrow> history_record option" where
  "latest_history_by_key key d =
     map_option (populate_history_tags d) (first_row (newest_first (\<lambda>h. h_key h = key) d))"

definition history_by_key :: "string \<Rightarrow> db \<Rightarrow> history_record list" where
  "history_by_key key d = newest_first (\<lambda>h. h_key h = key) d"

definition dead_letter_tasks_by_prefix :: "string \<Rightarrow> int \<Rightarrow> int \<Rightarrow> db \<Rightarrow> history_record list" where
  "dead_letter_tasks_by_prefix prefix limit ofs d =
     sql_limit limit (sql_offset ofs
       (newest_first (\<lambda>h. h_status h = HDeadLetter \<and> like_prefix prefix (h_task_type h)) d))"

definition dead_letter_tasks :: "int \<Rightarrow> int \<Rightarrow> db \<Rightarrow> history_record list" where
  "dead_letter_tasks limit ofs d = sql_limit limit (sql_offset ofs (newest_first (\<lambda>h. h_status h = HDeadLetter) d))"

definition failed_tasks :: "int \<Rightarrow> db \<Rightarrow> history_record list" where
  "failed_tasks limit d = sql_limit limit (newest_first (\<lambda>h. h_status h = HFailed) d)"

record type_stats =
  ts_count :: nat
  ts_avg_duration_ms :: rat
  ts_avg_read_bytes :: rat
  ts_avg_write_bytes :: rat
  ts_failure_rate :: rat

definition sql_avg :: "rat list \<Rightarrow> rat option" where
  "sql_avg xs = (if xs = [] then None else Some (sum_list xs / of_nat (length xs)))"

definition coalesce :: "'a option \<Rightarrow> 'a \<Rightarrow> 'a" where
  "coalesce x d = (case x of None \<Rightarrow> d | Some v \<Rightarrow> v)"

definition history_stats :: "rat \<Rightarrow> string \<Rightarrow> db \<Rightarrow> type_stats" where
  "history_stats null_real ty d =
     (let rows = sql_select (\<lambda>h. h_task_type h = ty) (history d);
          done = filter (\<lambda>h. h_status h = HCompleted) rows;
          ios = List.map_filter h_actual_io done
      in \<lparr>ts_count = length rows,
          ts_avg_duration_ms = coalesce (sql_avg (map of_int (List.map_filter h_duration_ms done))) 0,
          ts_avg_read_bytes = coalesce (sql_avg (map (of_int \<circ> disk_read) ios)) 0,
          ts_avg_write_bytes = coalesce (sql_avg (map (of_int \<circ> disk_write) ios)) 0,
          ts_failure_rate = (if rows = [] then null_real
             else of_nat (sql_count (\<lambda>h. h_status h = HFailed) rows) / of_nat (max (length rows) 1))\<rparr>)"

definition avg_throughput :: "string \<Rightarrow> int \<Rightarrow> db \<Rightarrow> rat \<times> rat" where
  "avg_throughput ty recent_limit d =
     (let rows = sql_limit recent_limit (newest_first (\<lambda>h. h_task_type h = ty \<and> h_status h = HCompleted
                    \<and> (case h_duration_ms h of None \<Rightarrow> False | Some t \<Rightarrow> t > 0)) d);
          rate = (\<lambda>f h. case (h_actual_io h, h_duration_ms h) of
                     (Some io, Some t) \<Rightarrow> Some (of_int (f io) * 1000 / of_int t) | _ \<Rightarrow> None)
      in (coalesce (sql_avg (List.map_filter (rate disk_read) rows)) 0,
          coalesce (sql_avg (List.map_filter (rate disk_write) rows)) 0))"

definition lookup_task :: "string \<Rightarrow> task_store \<Rightarrow> task_lookup" where
  "lookup_task key st =
     (case task_by_key key st of
        Some r \<Rightarrow> Active r
      | None \<Rightarrow> (case latest_history_by_key key (st_db st) of Some h \<Rightarrow> History h | None \<Rightarrow> LookupNotFound))"

section \<open>Scheduling\<close>

definition next_run_after :: "db \<Rightarrow> timestamp option" where
  "next_run_after d =
     first_row (order_by id (List.map_filter t_run_after (sql_select (\<lambda>r. t_status r = Pending) (tasks d))))"

record recurring_schedule_info =
  rsi_task_id :: int
  rsi_task_type :: string
  rsi_label :: string
  rsi_interval_secs :: int
  rsi_next_run :: "timestamp option"
  rsi_execution_count :: int
  rsi_max_executions :: "int option"
  rsi_paused :: bool

definition recurring_schedules :: "db \<Rightarrow> recurring_schedule_info list" where
  "recurring_schedules d =
     map (\<lambda>task. \<lparr>rsi_task_id = t_id task, rsi_task_type = t_task_type task, rsi_label = t_label task,
                  rsi_interval_secs = coalesce (t_recurring_interval_secs task) 0,
                  rsi_next_run = t_run_after task, rsi_execution_count = t_recurring_execution_count task,
                  rsi_max_executions = t_recurring_max_executions task,
                  rsi_paused = t_recurring_paused task\<rparr>)
       (order_by t_id (sql_select (\<lambda>r. t_recurring_interval_secs r \<noteq> None) (tasks d)))"

definition set_run_after :: "int \<Rightarrow> timestamp \<Rightarrow> db \<Rightarrow> db" where
  "set_run_after i run_after d =
     upd_tasks (\<lambda>r. t_id r = i \<and> t_status r = Pending) (\<lambda>r. r\<lparr>t_run_after := Some run_after\<rparr>) d"

definition peek_where :: "(task_record \<Rightarrow> bool) \<Rightarrow> timestamp \<Rightarrow> aging_params option \<Rightarrow> db \<Rightarrow> task_record option" where
  "peek_where p now aging d =
     first_row (order_by (dispatch_key aging) (sql_select (\<lambda>r. p r \<and> eligible now r) (tasks d)))"

definition peek_next_in_group :: "timestamp \<Rightarrow> string \<Rightarrow> aging_params option \<Rightarrow> db \<Rightarrow> task_record option" where
  "peek_next_in_group now g = peek_where (\<lambda>r. t_group_key r = Some g) now"

definition peek_next_ungrouped :: "timestamp \<Rightarrow> aging_params option \<Rightarrow> db \<Rightarrow> task_record option" where
  "peek_next_ungrouped now = peek_where (\<lambda>r. t_group_key r = None) now"

definition peek_next_urgent ::
    "timestamp \<Rightarrow> priority \<Rightarrow> aging_params option \<Rightarrow> db \<Rightarrow> task_record option" where
  "peek_next_urgent now threshold aging d =
     (case aging of
        None \<Rightarrow> None
      | Some ap \<Rightarrow> peek_where (\<lambda>r. aged_priority_sql ap r \<le> priority_col threshold) now (Some ap) d)"

definition group_counts :: "(task_record \<Rightarrow> bool) \<Rightarrow> db \<Rightarrow> (string option \<times> nat) list" where
  "group_counts p d =
     (let rs = sql_select p (tasks d)
      in map (\<lambda>g. (g, sql_count (\<lambda>r. t_group_key r = g) rs)) (remdups (map t_group_key rs)))"

definition running_counts_per_group :: "db \<Rightarrow> (string option \<times> nat) list" where
  "running_counts_per_group = group_counts (\<lambda>r. t_status r = Running)"

definition pending_counts_per_group :: "timestamp \<Rightarrow> db \<Rightarrow> (string option \<times> nat) list" where
  "pending_counts_per_group now = group_counts (eligible now)"

definition pause_recurring :: "int \<Rightarrow> db \<Rightarrow> db" where
  "pause_recurring i d =
     upd_tasks (\<lambda>r. t_id r = i \<and> t_recurring_interval_secs r \<noteq> None) (\<lambda>r. r\<lparr>t_recurring_paused := True\<rparr>) d"

definition resume_recurring :: "int \<Rightarrow> db \<Rightarrow> db" where
  "resume_recurring i d =
     upd_tasks (\<lambda>r. t_id r = i \<and> t_recurring_interval_secs r \<noteq> None) (\<lambda>r. r\<lparr>t_recurring_paused := False\<rparr>) d"

definition cancel_recurring :: "timestamp \<Rightarrow> int \<Rightarrow> bool store_stmt" where
  "cancel_recurring now i st = cancel_to_history now i (st\<lparr>st_db := pause_recurring i (st_db st)\<rparr>)"

section \<open>Tags\<close>

text \<open>One \<open>INNER JOIN task_tags\<close> per filter: a row is repeated for each matching tag row.\<close>

fun join_tags :: "(string \<times> string) list \<Rightarrow> db \<Rightarrow> task_record list \<Rightarrow> task_record list" where
  "join_tags [] d rs = rs"
| "join_tags ((k, v) # filters) d rs =
     join_tags filters d
       (concat (map (\<lambda>r. map (\<lambda>_. r) (sql_select (\<lambda>(t, k', v'). t = t_id r \<and> k' = k \<and> v' = v) (task_tags d))) rs))"

definition status_matches :: "task_status option \<Rightarrow> task_record \<Rightarrow> bool" where
  "status_matches status r = (case status of None \<Rightarrow> True | Some s \<Rightarrow> t_status r = s)"

definition task_ids_by_tags :: "(string \<times> string) list \<Rightarrow> task_status option \<Rightarrow> db \<Rightarrow> int list" where
  "task_ids_by_tags filters status d =
     (if filters = [] then []
      else map t_id (sql_select (status_matches status) (join_tags filters d (tasks d))))"

definition count_by_tags :: "(string \<times> string) list \<Rightarrow> task_status option \<Rightarrow> db \<Rightarrow> nat" where
  "count_by_tags filters status d =
     (if filters = [] then 0 else sql_count (status_matches status) (join_tags filters d (tasks d)))"

definition task_ids_by_tags_with_prefix ::
    "string \<Rightarrow> (string \<times> string) list \<Rightarrow> task_status option \<Rightarrow> db \<Rightarrow> int list" where
  "task_ids_by_tags_with_prefix prefix filters status d =
     map t_id (sql_select (\<lambda>r. like_prefix prefix (t_task_type r) \<and> status_matches status r)
       (join_tags filters d (tasks d)))"

text \<open>\<open>SELECT value, COUNT(*) AS cnt ... GROUP BY value ORDER BY cnt DESC\<close>.\<close>

definition value_counts :: "string list \<Rightarrow> (string \<times> nat) list" where
  "value_counts vs =
     order_by (\<lambda>(_, n). - int n) (map (\<lambda>v. (v, sql_count (\<lambda>w. w = v) vs)) (remdups vs))"

text \<open>\<open>task_tags tt JOIN tasks t ON t.id = tt.task_id\<close>.\<close>

definition tags_join_tasks :: "(task_record \<Rightarrow> bool) \<Rightarrow> db \<Rightarrow> (string \<times> string) list" where
  "tags_join_tasks p d =
     concat (map (\<lambda>(i, kv). map (\<lambda>_. kv) (sql_select (\<lambda>r. t_id r = i \<and> p r) (tasks d))) (task_tags d))"

definition tag_values :: "string \<Rightarrow> db \<Rightarrow> (string \<times> nat) list" where
  "tag_values key d = value_counts (map (snd \<circ> snd) (sql_select (\<lambda>(_, k, _). k = key) (task_tags d)))"

definition joined_values :: "string \<Rightarrow> (task_record \<Rightarrow> bool) \<Rightarrow> db \<Rightarrow> (string \<times> nat) list" where
  "joined_values key p d = value_counts (map snd (sql_select (\<lambda>(k, _). k = key) (tags_join_tasks p d)))"

definition count_by_tag :: "string \<Rightarrow> task_status option \<Rightarrow> db \<Rightarrow> (string \<times> nat) list" where
  "count_by_tag key status = joined_values key (status_matches status)"

definition count_by_tag_with_prefix ::
    "string \<Rightarrow> string \<Rightarrow> task_status option \<Rightarrow> db \<Rightarrow> (string \<times> nat) list" where
  "count_by_tag_with_prefix prefix key status =
     joined_values key (\<lambda>r. like_prefix prefix (t_task_type r) \<and> status_matches status r)"

definition tag_values_with_prefix :: "string \<Rightarrow> string \<Rightarrow> db \<Rightarrow> (string \<times> nat) list" where
  "tag_values_with_prefix prefix key = joined_values key (\<lambda>r. like_prefix prefix (t_task_type r))"

definition key_like :: "string \<Rightarrow> string \<Rightarrow> bool" where
  "key_like prefix key = sql_like (Some (CHR 0x5C)) (escape_like_prefix prefix) key"

definition tag_keys_by_prefix :: "string \<Rightarrow> db \<Rightarrow> string list" where
  "tag_keys_by_prefix prefix d =
     order_by id (remdups (map (fst \<circ> snd) (sql_select (\<lambda>(_, k, _). key_like prefix k) (task_tags d))))"

definition tag_keys_by_prefix_with_prefix :: "string \<Rightarrow> string \<Rightarrow> db \<Rightarrow> string list" where
  "tag_keys_by_prefix_with_prefix task_type_prefix key_prefix d =
     order_by id (remdups (map fst (sql_select (\<lambda>(k, _). key_like key_prefix k)
       (tags_join_tasks (\<lambda>r. like_prefix task_type_prefix (t_task_type r)) d))))"

definition has_key_like :: "string \<Rightarrow> db \<Rightarrow> task_record \<Rightarrow> bool" where
  "has_key_like prefix d r = sql_exists (\<lambda>(t, k, _). t = t_id r \<and> key_like prefix k) (task_tags d)"

definition task_ids_by_tag_key_prefix :: "string \<Rightarrow> task_status option \<Rightarrow> db \<Rightarrow> int list" where
  "task_ids_by_tag_key_prefix prefix status d =
     map t_id (sql_select (\<lambda>r. has_key_like prefix d r \<and> status_matches status r) (tasks d))"

definition task_ids_by_tag_key_prefix_with_prefix ::
    "string \<Rightarrow> string \<Rightarrow> task_status option \<Rightarrow> db \<Rightarrow> int list" where
  "task_ids_by_tag_key_prefix_with_prefix task_type_prefix prefix status d =
     map t_id (sql_select (\<lambda>r. has_key_like prefix d r \<and> like_prefix task_type_prefix (t_task_type r)
                              \<and> status_matches status r) (tasks d))"

definition count_by_tag_key_prefix :: "string \<Rightarrow> task_status option \<Rightarrow> db \<Rightarrow> nat" where
  "count_by_tag_key_prefix prefix status d =
     sql_count (\<lambda>r. has_key_like prefix d r \<and> status_matches status r) (tasks d)"

definition count_by_tag_key_prefix_with_prefix ::
    "string \<Rightarrow> string \<Rightarrow> task_status option \<Rightarrow> db \<Rightarrow> nat" where
  "count_by_tag_key_prefix_with_prefix task_type_prefix prefix status d =
     sql_count (\<lambda>r. has_key_like prefix d r \<and> like_prefix task_type_prefix (t_task_type r)
                     \<and> status_matches status r) (tasks d)"

section \<open>Every operation keeps the invariants\<close>

context db_invariant
begin

lemma P_set_run_after: "P d \<Longrightarrow> P (set_run_after i t d)"
  unfolding set_run_after_def by (rule P_upd) (simp_all add: row_step_def)

lemma P_pause_recurring: "P d \<Longrightarrow> P (pause_recurring i d)"
  unfolding pause_recurring_def by (rule P_upd) (simp_all add: row_step_def)

lemma P_resume_recurring: "P d \<Longrightarrow> P (resume_recurring i d)"
  unfolding resume_recurring_def by (rule P_upd) (simp_all add: row_step_def)

lemma P_cancel_recurring: "P (st_db st) \<Longrightarrow> P (st_db (fst (cancel_recurring now i st)))"
  unfolding cancel_recurring_def by (rule P_cancel) (simp add: P_pause_recurring)

end

section \<open>Tag filters\<close>

lemma matching_tag_rows:
  assumes "distinct (map tag_key ts)"
  shows "sql_select (\<lambda>(t, k', v'). t = i \<and> k' = k \<and> v' = v) ts = (if (i, k, v) \<in> set ts then [(i, k, v)] else [])"
  using assms
proof (induction ts)
  case (Cons t ts)
  obtain a b c where t: "t = (a, b, c)" using prod_cases3 by blast
  show ?case
  proof (cases "t = (i, k, v)")
    case True
    then have "(i, k, v) \<notin> set ts" using Cons.prems by (force simp: tag_key_def)
    with Cons True show ?thesis by (simp add: sql_select_def)
  next
    case False
    with Cons t show ?thesis by (auto simp: sql_select_def)
  qed
qed (simp add: sql_select_def)

lemma join_tags_eq:
  assumes "distinct (map tag_key (task_tags d))"
  shows "join_tags filters d rs = filter (\<lambda>r. \<forall>(k, v) \<in> set filters. (t_id r, k, v) \<in> set (task_tags d)) rs"
proof (induction filters arbitrary: rs)
  case Nil
  then show ?case by simp
next
  case (Cons f filters)
  obtain k v where f: "f = (k, v)" by force
  have "concat (map (\<lambda>r. map (\<lambda>_. r) (sql_select (\<lambda>(t, k', v'). t = t_id r \<and> k' = k \<and> v' = v) (task_tags d))) rs)
      = filter (\<lambda>r. (t_id r, k, v) \<in> set (task_tags d)) rs"
    unfolding matching_tag_rows [OF assms] by (induction rs) auto
  with Cons.IH show ?case by (auto simp: f intro!: filter_cong)
qed


definition tags_example :: db where
  "tags_example = empty_db\<lparr>tasks := [sample_row 1 ''a'' Pending, sample_row 2 ''b'' Pending],
     task_tags := [(1, ''env'', ''prod''), (2, ''env'', ''prod''), (1, ''team'', ''x'')]\<rparr>"


end
