(* ===== verification/Batch_Completion.thy ===== *)
theory Batch_Completion
  imports Lifecycle_Proofs
begin

text \<open>
  The batched completion path of \<open>complete_batch_with_resolve\<close>
  (\<open>src/src/store/lifecycle/transitions.rs\<close>): one history insert per task, then one
  \<open>DELETE\<close> and one resolution for the whole batch. The theory computes what the batched
  statements do to each row, shows that deletion, resolution and history insertion of
  different tasks commute, and concludes that the batched path is the per-task path. Last,
  it follows a blocked task through any sequence of completions to the one that releases it.
\<close>


section \<open>What the batched statements do\<close>

definition not_blocked :: "int set \<Rightarrow> db \<Rightarrow> bool" where
  "not_blocked I d \<longleftrightarrow> (\<forall>r \<in> set (tasks d). t_id r \<in> I \<longrightarrow> t_status r \<noteq> Blocked)"

lemma complete_inner_plain:
  assumes "t_recurring_interval_secs task = None"
  shows "complete_inner now task metrics skip =
    andThen (insert_history now task HCompleted metrics (compute_duration_ms now task) (t_last_error task) skip)
      (\<lambda>_. andThen (exec (batch_delete skip [t_id task])) (\<lambda>_. ok None))"
proof -
  have "sql_select p xs \<noteq> [] \<longleftrightarrow> sql_exists p xs" for p and xs :: "task_record list"
    by (auto simp: sql_select_def sql_exists_iff filter_empty_conv)
  then show ?thesis
    using assms
    by (auto simp: complete_inner_def create_next_instance_def batch_delete_def Let_def fun_eq_iff
        andThen_def delete_task_tags_def set_sql_select sql_exists_iff image_iff split: prod.splits sum.splits)
qed

text \<open>History insertion commutes with a change that leaves the history tables and the
  task's own tags alone.\<close>

lemma insert_history_commute:
  assumes "\<And>d. history (g d) = history d" and "\<And>d. history_tags (g d) = history_tags d"
    and "\<And>d. sql_select (\<lambda>(t, _). t = t_id task) (task_tags (g d)) = sql_select (\<lambda>(t, _). t = t_id task) (task_tags d)"
    and "\<And>d hs. g (d\<lparr>history := hs\<rparr>) = (g d)\<lparr>history := hs\<rparr>"
    and "\<And>d hs. g (d\<lparr>history_tags := hs\<rparr>) = (g d)\<lparr>history_tags := hs\<rparr>"
  shows "insert_history now task s m dur e skip (g d)
    = map_prod g id (insert_history now task s m dur e skip d)"
  using assms(1-3) [of d] assms(4,5)
  by (simp add: insert_history_def copy_history_tags_def Let_def assms)

lemma for_each_commute:
  assumes "\<And>y d. y \<in> set ys \<Longrightarrow> m y (g d) = map_prod g id (m y d)"
  shows "for_each m ys (g d) = map_prod g id (for_each m ys d)"
  using assms
  by (induction ys arbitrary: d) (auto simp: andThen_def split: prod.splits sum.splits)


text \<open>The parts of a batch.\<close>

definition completed_ids :: "(task_record \<times> io_budget) list \<Rightarrow> int list" where
  "completed_ids items = map (t_id \<circ> fst) items"

lemma fold_requeue:
  "fold (\<lambda>i d. if i \<in> D then d else upd_tasks (\<lambda>r. t_id r = i) requeue_row d) js d
   = upd_tasks (\<lambda>r. t_id r \<in> set js - D) requeue_row d"
proof (induction js arbitrary: d)
  case (Cons j js)
  have "sql_update (\<lambda>r. t_id r \<in> set js - D) requeue_row
        (tasks (if j \<in> D then d else upd_tasks (\<lambda>r. t_id r = j) requeue_row d))
      = sql_update (\<lambda>r. t_id r \<in> set (j # js) - D) requeue_row (tasks d)"
  proof (cases "j \<in> D")
    case True
    then have "(\<lambda>r. t_id r \<in> set js - D) = (\<lambda>r. t_id r \<in> set (j # js) - D)" by auto
    then show ?thesis using True by simp
  next
    case False
    have "sql_update (\<lambda>r. t_id r \<in> set js - D) requeue_row (sql_update (\<lambda>r. t_id r = j) requeue_row (tasks d))
        = sql_update (\<lambda>r. t_id r \<in> set (j # js) - D) requeue_row (tasks d)"
      using False by (intro sql_update_comp) (auto simp: requeue_row_def)
    then show ?thesis using False by simp
  qed
  then show ?case by (auto simp: Cons.IH upd_tasks_def)
qed (simp add: upd_tasks_def sql_update_def)

text \<open>What the batched deletion does, row by row, when rowids are unique.\<close>

definition finish_rows :: "int set \<Rightarrow> task_record list \<Rightarrow> task_record list" where
  "finish_rows I ts = map (\<lambda>r. if t_id r \<in> I then requeue_row r else r)
                       (filter (\<lambda>r. t_id r \<in> I \<longrightarrow> t_requeue r) ts)"

definition finish_tags :: "bool \<Rightarrow> int set \<Rightarrow> db \<Rightarrow> (int \<times> string \<times> string) list" where
  "finish_tags skip I d =
     (if skip then task_tags d
      else filter (\<lambda>x. \<not> (fst x \<in> I \<and> fst x \<in> t_id ` {r \<in> set (tasks d). \<not> t_requeue r})) (task_tags d))"

lemma batch_delete_eq:
  assumes "db_ok d"
  shows "batch_delete skip ids d
    = d\<lparr>tasks := finish_rows (set ids) (tasks d), task_tags := finish_tags skip (set ids) d\<rparr>"
proof -
  let ?p = "\<lambda>r. t_id r \<in> set ids \<and> \<not> t_requeue r"
  let ?D = "set (map t_id (sql_select ?p (tasks d)))"
  have D: "i \<in> ?D \<longleftrightarrow> i \<in> set ids \<and> i \<in> t_id ` {r \<in> set (tasks d). \<not> t_requeue r}" for i
    by (auto simp: set_sql_select)
  have rows: "sql_update (\<lambda>r. t_id r \<in> set ids - ?D) requeue_row (sql_delete ?p (tasks d))
      = finish_rows (set ids) (tasks d)"
  proof -
    have "t_id r \<noteq> t_id s" if "r \<in> set (tasks d)" "t_requeue r" "s \<in> set (tasks d)" "\<not> t_requeue s" for r s
      using tasks_inj [OF assms that(1,3)] that(2,4) by blast
    then show ?thesis
      unfolding finish_rows_def sql_update_def sql_delete_def
      by (intro map_cong filter_cong) (auto simp: set_sql_select)
  qed
  have tags: "(if skip \<or> ?D = {} then task_tags d else sql_delete (\<lambda>(t, _). t \<in> ?D) (task_tags d))
      = finish_tags skip (set ids) d"
    unfolding finish_tags_def sql_delete_def using D by (auto simp: case_prod_beta filter_id_conv)
  have "batch_delete skip ids d = d\<lparr>tasks := sql_update (\<lambda>r. t_id r \<in> set ids - ?D) requeue_row (sql_delete ?p (tasks d)),
      task_tags := (if skip \<or> ?D = {} then task_tags d else sql_delete (\<lambda>(t, _). t \<in> ?D) (task_tags d))\<rparr>"
    unfolding batch_delete_def Let_def fold_requeue by (simp add: upd_tasks_def del_tasks_def)
  then show ?thesis unfolding rows tags .
qed


lemma requeue_row_frame [simp]:
  "t_id (requeue_row r) = t_id r" "t_status (requeue_row r) = Pending" "\<not> t_requeue (requeue_row r)"
  by (simp_all add: requeue_row_def)

lemma release_row_frame [simp]:
  "t_id (release_row now d r) = t_id r" "t_requeue (release_row now d r) = t_requeue r"
  "t_status (release_row now d r) \<noteq> Blocked"
  by (simp_all add: release_row_def Let_def pause_row_def)

lemma finish_rows_split:
  "i \<notin> I \<Longrightarrow> finish_rows (insert i I) ts = finish_rows I (finish_rows {i} ts)"
  by (induction ts) (auto simp: finish_rows_def)

lemma batch_delete_Cons:
  assumes ok: "db_ok d" and i: "i \<notin> set is"
  shows "batch_delete skip (i # is) d = batch_delete skip is (batch_delete skip [i] d)"
proof -
  have ok': "db_ok (batch_delete skip [i] d)" using ok by (rule db_ok.P_batch_delete)
  define A where "A = t_id ` {r \<in> set (finish_rows {i} (tasks d)). \<not> t_requeue r}"
  define B where "B = t_id ` {r \<in> set (tasks d). \<not> t_requeue r}"
  have "A - {i} = B - {i}"
    unfolding A_def B_def by (force simp: finish_rows_def)
  then have AB: "j \<in> A \<longleftrightarrow> j \<in> B" if "j \<noteq> i" for j
    using that by blast
  have "filter (\<lambda>x. \<not> (fst x \<in> set is \<and> fst x \<in> A)) xs = filter (\<lambda>x. \<not> (fst x \<in> set is \<and> fst x \<in> B)) xs"
    for xs :: "(int \<times> string \<times> string) list"
    using i AB by (intro filter_cong refl) metis
  then have "finish_tags skip (set (i # is)) d
      = finish_tags skip (set is) (d\<lparr>tasks := finish_rows {i} (tasks d), task_tags := finish_tags skip {i} d\<rparr>)"
    unfolding finish_tags_def by (auto simp flip: A_def B_def intro!: filter_cong)
  then show ?thesis
    unfolding batch_delete_eq [OF ok'] unfolding batch_delete_eq [OF ok]
    using finish_rows_split [OF i] by simp
qed

lemma batch_delete_history [simp]:
  "history (batch_delete skip ids d) = history d" "history_tags (batch_delete skip ids d) = history_tags d"
  "task_deps (batch_delete skip ids d) = task_deps d" "paused_groups (batch_delete skip ids d) = paused_groups d"
  "batch_delete skip ids (d\<lparr>history := hs\<rparr>) = (batch_delete skip ids d)\<lparr>history := hs\<rparr>"
  "batch_delete skip ids (d\<lparr>history_tags := hts\<rparr>) = (batch_delete skip ids d)\<lparr>history_tags := hts\<rparr>"
  unfolding batch_delete_def Let_def fold_requeue
  by (simp_all add: upd_tasks_def del_tasks_def)

lemma batch_resolve_history [simp]:
  "history (fst (batch_resolve now ids d)) = history d"
  "history_tags (fst (batch_resolve now ids d)) = history_tags d"
  "task_tags (fst (batch_resolve now ids d)) = task_tags d"
  "fst (batch_resolve now ids (d\<lparr>history := hs\<rparr>)) = (fst (batch_resolve now ids d))\<lparr>history := hs\<rparr>"
  "fst (batch_resolve now ids (d\<lparr>history_tags := hts\<rparr>)) = (fst (batch_resolve now ids d))\<lparr>history_tags := hts\<rparr>"
  "snd (batch_resolve now ids (d\<lparr>history := hs\<rparr>)) = snd (batch_resolve now ids d)"
  "snd (batch_resolve now ids (d\<lparr>history_tags := hts\<rparr>)) = snd (batch_resolve now ids d)"
  by (simp_all add: batch_resolve_def Let_def fold_pause_unblocked upd_tasks_def del_deps_def
      has_edge_from_def group_is_paused_def cong: option.case_cong)

lemma batch_delete_tags_other:
  "t \<notin> set ids \<Longrightarrow> sql_select (\<lambda>(u, _). u = t) (task_tags (batch_delete skip ids d))
     = sql_select (\<lambda>(u, _). u = t) (task_tags d)"
  unfolding batch_delete_def Let_def fold_requeue
  by (auto simp: sql_select_def sql_delete_def upd_tasks_def del_tasks_def intro!: filter_cong)


text \<open>Deletion of finished tasks commutes with the resolution of another task's
  dependents, because a finished task is not blocked.\<close>

lemma ready_after_tables:
  "task_deps d' = task_deps d \<Longrightarrow> ready_after J d' = ready_after J d"
  by (simp add: ready_after_def has_edge_from_iff fun_eq_iff)

lemma release_row_tables: "paused_groups d' = paused_groups d \<Longrightarrow> release_row now d' = release_row now d"
  by (simp add: release_row_def group_is_paused_def fun_eq_iff cong: option.case_cong)

lemma finish_rows_update:
  assumes "\<forall>r \<in> set ts. t_id r \<in> I \<longrightarrow> \<not> p r" and "\<And>r. \<not> p (requeue_row r)"
    and "\<And>r. t_id (f r) = t_id r" and "\<And>r. t_requeue (f r) = t_requeue r"
  shows "sql_update p f (finish_rows I ts) = finish_rows I (sql_update p f ts)"
    and "sql_select p (finish_rows I ts) = sql_select p ts"
  using assms by (induction ts) (auto simp: finish_rows_def sql_select_def)

lemma update_requeue_ids:
  assumes "\<And>r. t_id (f r) = t_id r" and "\<And>r. t_requeue (f r) = t_requeue r"
  shows "t_id ` {r \<in> set (sql_update p f ts). \<not> t_requeue r} = t_id ` {r \<in> set ts. \<not> t_requeue r}"
proof -
  have "map t_id (filter (\<lambda>r. \<not> t_requeue r) (sql_update p f ts)) = map t_id (filter (\<lambda>r. \<not> t_requeue r) ts)"
    by (induction ts) (auto simp: assms)
  then have "set (map t_id (filter (\<lambda>r. \<not> t_requeue r) (sql_update p f ts)))
      = set (map t_id (filter (\<lambda>r. \<not> t_requeue r) ts))"
    by (rule arg_cong)
  then show ?thesis by simp
qed

lemma batch_delete_resolve_commute:
  assumes ok: "db_ok d" and nb: "not_blocked (set is) d"
  shows "batch_resolve now js (batch_delete skip is d)
    = (batch_delete skip is (fst (batch_resolve now js d)), snd (batch_resolve now js d))"
proof -
  let ?R = "ready_after (set js) d" and ?f = "release_row now d"
  let ?D = "d\<lparr>tasks := finish_rows (set is) (tasks d), task_tags := finish_tags skip (set is) d\<rparr>"
  have okD: "db_ok (batch_delete skip is d)" and okR: "db_ok (fst (batch_resolve now js d))"
    using ok by (rule db_ok.P_batch_delete, rule db_ok_batch_resolve)
  have R: "ready_after (set js) ?D = ?R" and f: "release_row now ?D = ?f"
    by (rule ready_after_tables, simp, rule release_row_tables, simp)
  have nr: "\<forall>r \<in> set (tasks d). t_id r \<in> set is \<longrightarrow> \<not> ?R r"
    using nb by (auto simp: not_blocked_def ready_after_def)
  have "\<not> ?R (requeue_row r)" for r by (simp add: ready_after_def)
  note rows = finish_rows_update [OF nr this, of ?f]
  have "t_id ` {r \<in> set (sql_update ?R ?f (tasks d)). \<not> t_requeue r} = t_id ` {r \<in> set (tasks d). \<not> t_requeue r}"
    by (rule update_requeue_ids) simp_all
  then have tags: "finish_tags skip (set is) (d\<lparr>tasks := sql_update ?R ?f (tasks d), task_deps := E\<rparr>)
      = finish_tags skip (set is) d" for E
    by (simp add: finish_tags_def)
  show ?thesis
    unfolding batch_resolve_eq [OF okD] batch_delete_eq [OF okR]
    unfolding batch_delete_eq [OF ok] batch_resolve_eq [OF ok] R f
    using rows tags by (simp add: upd_tasks_def)
qed

lemma ready_split:
  assumes "task_deps d' = sql_delete (\<lambda>(_, dep). dep = i) (task_deps d)"
  shows "ready_after (insert i I) d r \<longleftrightarrow> ready_after {i} d r \<or> ready_after I d' r"
proof -
  have e: "has_edge_from (t_id r) d' \<longleftrightarrow> (\<exists>k. (t_id r, k) \<in> set (task_deps d) \<and> k \<noteq> i)"
    "has_edge_from (t_id r) d \<longleftrightarrow> (\<exists>k. (t_id r, k) \<in> set (task_deps d))"
    by (force simp: has_edge_from_iff assms set_sql_delete)+
  show ?thesis
    unfolding ready_after_def e by (auto simp: assms set_sql_delete)
qed

lemma batch_resolve_Cons:
  assumes ok: "db_ok d"
  shows "fst (batch_resolve now (i # is) d) = fst (batch_resolve now is (fst (batch_resolve now [i] d)))"
    and "set (snd (batch_resolve now (i # is) d))
      = set (snd (batch_resolve now [i] d)) \<union> set (snd (batch_resolve now is (fst (batch_resolve now [i] d))))"
proof -
  define d1 where "d1 = fst (batch_resolve now [i] d)"
  have d1: "d1 = (upd_tasks (ready_after {i} d) (release_row now d) d)
       \<lparr>task_deps := sql_delete (\<lambda>(_, dep). dep = i) (task_deps d)\<rparr>"
    by (simp add: d1_def batch_resolve_eq [OF ok])
  have ok1: "db_ok d1" unfolding d1_def using ok by (rule db_ok_batch_resolve)
  have sp: "ready_after (insert i (set is)) d r \<longleftrightarrow> ready_after {i} d r \<or> ready_after (set is) d1 r" for r
    by (rule ready_split) (simp add: d1)
  have f: "release_row now d1 = release_row now d" by (rule release_row_tables) (simp add: d1)
  have no: "\<not> ready_after J e (release_row now d r)" for J e r by (simp add: ready_after_def)
  have ex: "\<not> ready_after (set is) d1 r" if "ready_after {i} d r" for r
    using that by (force simp: ready_after_def d1 has_edge_from_iff set_sql_delete)
  have tasks: "sql_update (ready_after (set is) d1) (release_row now d)
        (sql_update (ready_after {i} d) (release_row now d) (tasks d))
      = sql_update (ready_after (set (i # is)) d) (release_row now d) (tasks d)"
    by (rule sql_update_comp) (auto simp: sp no)
  have deps: "sql_delete (\<lambda>(_, dep). dep \<in> set is) (sql_delete (\<lambda>(_, dep). dep = i) (task_deps d))
      = sql_delete (\<lambda>(_, dep). dep \<in> set (i # is)) (task_deps d)"
    by (auto simp: sql_delete_delete sql_delete_def intro: filter_cong)
  show "fst (batch_resolve now (i # is) d) = fst (batch_resolve now is (fst (batch_resolve now [i] d)))"
    unfolding d1_def [symmetric] unfolding batch_resolve_eq [OF ok1] batch_resolve_eq [OF ok] f
    using tasks deps by (simp add: d1 upd_tasks_def)
  have "t_id ` {r \<in> set (tasks d1). ready_after (set is) d1 r} = t_id ` {r \<in> set (tasks d). ready_after (set is) d1 r}"
    using ex no by (force simp: d1 set_sql_update)
  then show "set (snd (batch_resolve now (i # is) d))
      = set (snd (batch_resolve now [i] d)) \<union> set (snd (batch_resolve now is (fst (batch_resolve now [i] d))))"
    unfolding d1_def [symmetric] unfolding batch_resolve_eq [OF ok1] batch_resolve_eq [OF ok]
    by (auto simp: set_sql_select sp)
qed


section \<open>Batched completion is per-item completion\<close>

definition plain_item :: "task_record \<times> io_budget \<Rightarrow> bool" where
  "plain_item x \<longleftrightarrow> t_recurring_interval_secs (fst x) = None"

definition history_inserts :: "timestamp \<Rightarrow> bool \<Rightarrow> (task_record \<times> io_budget) list \<Rightarrow> unit db_stmt" where
  "history_inserts now skip items =
     for_each (\<lambda>(task, metrics). insert_history now task HCompleted metrics
       (compute_duration_ms now task) (t_last_error task) skip) items"

definition finish_one :: "timestamp \<Rightarrow> bool \<Rightarrow> int \<Rightarrow> db \<Rightarrow> db" where
  "finish_one now skip i d = fst (batch_resolve now [i] (batch_delete skip [i] d))"

lemma history_inserts_commute:
  assumes "i \<notin> (t_id \<circ> fst) ` set items"
  shows "history_inserts now skip items (finish_one now skip i d)
    = map_prod (finish_one now skip i) id (history_inserts now skip items d)"
  unfolding history_inserts_def
proof (rule for_each_commute)
  fix y d assume "y \<in> set items"
  then have y: "t_id (fst y) \<notin> set [i]" using assms by auto
  show "(case y of (task, metrics) \<Rightarrow> insert_history now task HCompleted metrics
         (compute_duration_ms now task) (t_last_error task) skip) (finish_one now skip i d)
      = map_prod (finish_one now skip i) id ((case y of (task, metrics) \<Rightarrow> insert_history now task HCompleted metrics
         (compute_duration_ms now task) (t_last_error task) skip) d)"
    unfolding case_prod_beta
    by (rule insert_history_commute) (simp_all add: finish_one_def batch_delete_tags_other [OF y])
qed

lemma finish_all_Cons:
  assumes ok: "db_ok d" and i: "i \<notin> set is" and nb: "not_blocked (set (i # is)) d"
  shows "fst (batch_resolve now (i # is) (batch_delete skip (i # is) d))
      = fst (batch_resolve now is (batch_delete skip is (finish_one now skip i d)))"
    and "set (snd (batch_resolve now (i # is) (batch_delete skip (i # is) d)))
      = set (snd (batch_resolve now [i] (batch_delete skip [i] d)))
        \<union> set (snd (batch_resolve now is (batch_delete skip is (finish_one now skip i d))))"
proof -
  let ?d1 = "batch_delete skip [i] d"
  have ok1: "db_ok ?d1" and ok2: "db_ok (batch_delete skip is ?d1)"
    using ok by (auto intro: db_ok.P_batch_delete)
  have nb1: "not_blocked (set is) ?d1"
    using nb unfolding batch_delete_eq [OF ok] by (auto simp: not_blocked_def finish_rows_def)
  note com = batch_delete_resolve_commute [OF ok1 nb1, of now "[i]" skip]
  show "fst (batch_resolve now (i # is) (batch_delete skip (i # is) d))
      = fst (batch_resolve now is (batch_delete skip is (finish_one now skip i d)))"
    and "set (snd (batch_resolve now (i # is) (batch_delete skip (i # is) d)))
      = set (snd (batch_resolve now [i] (batch_delete skip [i] d)))
        \<union> set (snd (batch_resolve now is (batch_delete skip is (finish_one now skip i d))))"
    unfolding batch_delete_Cons [OF ok i] batch_resolve_Cons [OF ok2] com finish_one_def by simp_all
qed

lemma not_blocked_finish:
  assumes "db_ok d" and "not_blocked I d"
  shows "not_blocked I (finish_one now skip i d)"
  using assms batch_resolve_eq [OF db_ok.P_batch_delete [OF assms(1)], of now "[i]" skip "[i]"]
  by (auto simp: finish_one_def not_blocked_def batch_delete_eq [OF assms(1)] finish_rows_def set_sql_update)

lemma not_blocked_history: "not_blocked I d \<Longrightarrow> not_blocked I (fst (insert_history now t st m dur e skip d))"
  by (simp add: not_blocked_def)

lemma history_inserts_only:
  "fst (history_inserts now skip xs d)
   = d\<lparr>history := history (fst (history_inserts now skip xs d)),
       history_tags := history_tags (fst (history_inserts now skip xs d))\<rparr>"
proof -
  have "keeps (\<lambda>e. tasks e = tasks d \<and> task_deps e = task_deps d \<and> task_tags e = task_tags d
      \<and> paused_groups e = paused_groups d) (history_inserts now skip xs)"
    unfolding history_inserts_def by (rule keeps_for_each) (simp add: keeps_def case_prod_beta)
  from keepsD [OF this, of d] show ?thesis by (intro db.equality) simp_all
qed

lemma complete_and_resolve_plain:
  assumes "plain_item x"
    and "insert_history now (fst x) HCompleted (snd x) (compute_duration_ms now (fst x))
      (t_last_error (fst x)) skip d = (dh, rh)"
  shows "complete_and_resolve now skip x d = (case rh of Inl e \<Rightarrow> (dh, Inl e)
      | Inr _ \<Rightarrow> (finish_one now skip (t_id (fst x)) dh,
                 Inr (t_id (fst x), None, snd (batch_resolve now [t_id (fst x)] (batch_delete skip [t_id (fst x)] dh)))))"
  using assms
  by (simp add: complete_and_resolve_def plain_item_def complete_inner_plain andThen_def finish_one_def
      resolve_is_batch case_prod_beta split: sum.split)

lemma keeps_history_inserts: "keeps db_ok (history_inserts now skip xs)"
  unfolding history_inserts_def by (rule keeps_for_each) (simp add: case_prod_beta keeps_insert_history)

text \<open>One item done per-item, then the rest in a batch, is the whole batch.\<close>

lemma fast_Cons:
  assumes ok: "db_ok d" and nb: "not_blocked (set (map (t_id \<circ> fst) (x # xs))) d"
    and dist: "distinct (map (t_id \<circ> fst) (x # xs))" and plain: "plain_item x"
  shows "(\<exists>us. complete_batch_fast now skip (x # xs) d = (d', Inr us) \<and> set us = U)
    \<longleftrightarrow> (\<exists>d1 r us. complete_and_resolve now skip x d = (d1, Inr r)
          \<and> complete_batch_fast now skip xs d1 = (d', Inr us) \<and> set (snd (snd r)) \<union> set us = U)"
proof -
  let ?i = "t_id (fst x)" and ?is = "map (t_id \<circ> fst) xs"
  obtain dh rh where h: "insert_history now (fst x) HCompleted (snd x) (compute_duration_ms now (fst x))
      (t_last_error (fst x)) skip d = (dh, rh)" by force
  have okh: "db_ok dh" and nbh: "not_blocked (set (?i # ?is)) dh"
    using keeps_eq [OF keeps_insert_history ok h] nb not_blocked_history [of _ d] h by (simp, metis comp_apply fst_conv list.simps(9))
  note each = complete_and_resolve_plain [OF plain h]
  have fast: "complete_batch_fast now skip (x # xs) d = (case rh of Inl e \<Rightarrow> (dh, Inl e)
      | Inr _ \<Rightarrow> (case history_inserts now skip xs dh of
           (d2, Inl e) \<Rightarrow> (d2, Inl e)
         | (d2, Inr _) \<Rightarrow> (fst (batch_resolve now (?i # ?is) (batch_delete skip (?i # ?is) d2)),
                           Inr (snd (batch_resolve now (?i # ?is) (batch_delete skip (?i # ?is) d2))))))"
    using h
    by (simp add: complete_batch_fast_def andThen_def history_inserts_def case_prod_beta split: sum.split prod.split)
  have rest: "complete_batch_fast now skip xs (finish_one now skip ?i dh) = (case history_inserts now skip xs dh of
           (d2, Inl e) \<Rightarrow> (finish_one now skip ?i d2, Inl e)
         | (d2, Inr _) \<Rightarrow> (fst (batch_resolve now ?is (batch_delete skip ?is (finish_one now skip ?i d2))),
                           Inr (snd (batch_resolve now ?is (batch_delete skip ?is (finish_one now skip ?i d2))))))"
    using history_inserts_commute [of ?i xs now skip dh] dist
    by (simp add: complete_batch_fast_def andThen_def case_prod_beta history_inserts_def image_comp split: sum.split prod.split)
  obtain d2 r2 where r2: "history_inserts now skip xs dh = (d2, r2)" by force
  then have d2: "d2 = dh\<lparr>history := history d2, history_tags := history_tags d2\<rparr>"
    using history_inserts_only [of now skip xs dh] by simp
  have ok2: "db_ok d2" using keeps_eq [OF keeps_history_inserts okh r2] .
  have nb2: "not_blocked (set (?i # ?is)) d2" using nbh by (subst d2) (simp add: not_blocked_def)
  have i: "?i \<notin> set ?is" using dist by auto
  have us: "snd (batch_resolve now [?i] (batch_delete skip [?i] d2)) = snd (batch_resolve now [?i] (batch_delete skip [?i] dh))"
    by (subst d2) simp
  show ?thesis
    unfolding fast each
    using rest finish_all_Cons [OF ok2 i nb2, of now skip] us r2
    by (cases rh; cases r2) auto
qed

lemma fast_equiv:
  assumes "db_ok d" and "not_blocked (set (map (t_id \<circ> fst) items)) d"
    and "distinct (map (t_id \<circ> fst) items)" and "\<forall>x \<in> set items. plain_item x"
  shows "(\<exists>us. complete_batch_fast now skip items d = (d', Inr us) \<and> set us = U)
    \<longleftrightarrow> (\<exists>rs. collect_each (complete_and_resolve now skip) items d = (d', Inr rs)
          \<and> (\<Union>r \<in> set rs. set (snd (snd r))) = U)"
  using assms
proof (induction items arbitrary: d U)
  case Nil
  have "batch_delete skip [] d = d" "batch_resolve now [] d = (d, [])"
    by (simp_all add: batch_delete_eq [OF Nil(1)] finish_rows_def finish_tags_def batch_resolve_def
        sql_select_def sql_delete_def del_deps_def)
  then show ?case by (auto simp: complete_batch_fast_def)
next
  case (Cons x xs)
  have step: "(\<exists>us. complete_batch_fast now skip xs d1 = (d', Inr us) \<and> set us = V)
    \<longleftrightarrow> (\<exists>rs. collect_each (complete_and_resolve now skip) xs d1 = (d', Inr rs)
          \<and> (\<Union>r \<in> set rs. set (snd (snd r))) = V)"
    if "complete_and_resolve now skip x d = (d1, Inr r)" for d1 r V
  proof (rule Cons.IH)
    show "db_ok d1" using keeps_eq [OF db_ok.keeps_P_complete_and_resolve Cons.prems(1) that] .
    obtain dh rh where h: "insert_history now (fst x) HCompleted (snd x) (compute_duration_ms now (fst x))
        (t_last_error (fst x)) skip d = (dh, rh)" by force
    have "db_ok dh" using keeps_eq [OF keeps_insert_history Cons.prems(1) h] .
    moreover have "not_blocked (set (map (t_id \<circ> fst) xs)) dh"
    proof -
      have "tasks dh = tasks d" using h insert_history_frame(1) by (metis fst_conv)
      then show ?thesis using Cons.prems(2) by (auto simp: not_blocked_def)
    qed
    moreover have "plain_item x" using Cons.prems(4) by simp
    ultimately show "not_blocked (set (map (t_id \<circ> fst) xs)) d1"
      using that complete_and_resolve_plain [OF _ h] not_blocked_finish by (auto split: sum.splits)
  qed (use Cons.prems in auto)
  have mid: "(\<exists>us. complete_batch_fast now skip xs d1 = (d', Inr us) \<and> S \<union> set us = U)
      \<longleftrightarrow> (\<exists>rs. collect_each (complete_and_resolve now skip) xs d1 = (d', Inr rs)
            \<and> S \<union> (\<Union>r \<in> set rs. set (snd (snd r))) = U)"
    if "complete_and_resolve now skip x d = (d1, Inr r)" for d1 r S
    using step [OF that] by metis
  have "(\<exists>us. complete_batch_fast now skip (x # xs) d = (d', Inr us) \<and> set us = U)
    \<longleftrightarrow> (\<exists>d1 r us. complete_and_resolve now skip x d = (d1, Inr r)
          \<and> complete_batch_fast now skip xs d1 = (d', Inr us) \<and> set (snd (snd r)) \<union> set us = U)"
    using Cons.prems by (intro fast_Cons) (simp_all add: comp_def)
  also have "\<dots> \<longleftrightarrow> (\<exists>d1 r rs. complete_and_resolve now skip x d = (d1, Inr r)
          \<and> collect_each (complete_and_resolve now skip) xs d1 = (d', Inr rs)
          \<and> set (snd (snd r)) \<union> (\<Union>r \<in> set rs. set (snd (snd r))) = U)" (is "?L \<longleftrightarrow> ?R")
  proof
    assume ?L
    then obtain d1 r where r: "complete_and_resolve now skip x d = (d1, Inr r)"
      and "\<exists>us. complete_batch_fast now skip xs d1 = (d', Inr us) \<and> set (snd (snd r)) \<union> set us = U" by metis
    from this(2) have "\<exists>rs. collect_each (complete_and_resolve now skip) xs d1 = (d', Inr rs)
        \<and> set (snd (snd r)) \<union> (\<Union>r \<in> set rs. set (snd (snd r))) = U"
      by (simp only: mid [OF r])
    with r show ?R by metis
  next
    assume ?R
    then obtain d1 r where r: "complete_and_resolve now skip x d = (d1, Inr r)"
      and "\<exists>rs. collect_each (complete_and_resolve now skip) xs d1 = (d', Inr rs)
        \<and> set (snd (snd r)) \<union> (\<Union>r \<in> set rs. set (snd (snd r))) = U" by metis
    from this(2) have "\<exists>us. complete_batch_fast now skip xs d1 = (d', Inr us) \<and> set (snd (snd r)) \<union> set us = U"
      by (simp only: mid [OF r])
    with r show ?L by metis
  qed
  also have "\<dots> \<longleftrightarrow> (\<exists>rs. collect_each (complete_and_resolve now skip) (x # xs) d = (d', Inr rs)
          \<and> (\<Union>r \<in> set rs. set (snd (snd r))) = U)"
  proof -
    have "collect_each (complete_and_resolve now skip) (x # xs) d = (d', Inr ys)
      \<longleftrightarrow> (\<exists>d1 r rs. complete_and_resolve now skip x d = (d1, Inr r)
          \<and> collect_each (complete_and_resolve now skip) xs d1 = (d', Inr rs) \<and> ys = r # rs)" for ys
      unfolding collect_each.simps andThen_eq_Inr ok_def prod.inject sum.inject by blast
    then have "(\<exists>ys. collect_each (complete_and_resolve now skip) (x # xs) d = (d', Inr ys) \<and> Q ys)
      \<longleftrightarrow> (\<exists>d1 r rs. complete_and_resolve now skip x d = (d1, Inr r)
          \<and> collect_each (complete_and_resolve now skip) xs d1 = (d', Inr rs) \<and> Q (r # rs))" for Q
      by metis
    from this [of "\<lambda>ys. (\<Union>r \<in> set ys. set (snd (snd r))) = U"] show ?thesis
      unfolding list.set UN_insert by simp
  qed
  finally show ?case .
qed


text \<open>C14: completing a batch of tasks with the batched statements has the same effect as
  completing them one by one: it succeeds in the same cases, leaves the same database
  (queue, dependency edges, tags and history), and unblocks the same tasks. The batch
  has distinct tasks, none recurring and none blocked, which is when the code takes this
  path.\<close>

theorem complete_batch_fast_equivalent:
  assumes "db_ok d" and "distinct (map (t_id \<circ> fst) items)"
    and "\<forall>x \<in> set items. t_recurring_interval_secs (fst x) = None"
    and "\<forall>r \<in> set (tasks d). t_id r \<in> set (map (t_id \<circ> fst) items) \<longrightarrow> t_status r \<noteq> Blocked"
  shows "(\<exists>us. complete_batch_fast now skip items d = (d', Inr us) \<and> set us = U)
    \<longleftrightarrow> (\<exists>rs. collect_each (complete_and_resolve now skip) items d = (d', Inr rs)
          \<and> (\<Union>r \<in> set rs. set (snd (snd r))) = U)"
  using assms by (intro fast_equiv) (auto simp: not_blocked_def plain_item_def)

definition batch_example :: db where
  "batch_example = empty_db
     \<lparr>tasks := [sample_row 1 ''a'' Running, (sample_row 2 ''b'' Running)\<lparr>t_requeue := True\<rparr>,
               sample_row 3 ''c'' Blocked],
      task_deps := [(3, 1), (3, 2)], task_tags := [(1, ''k'', ''v'')]\<rparr>"

definition batch_example_items :: "(task_record \<times> io_budget) list" where
  "batch_example_items = [(sample_row 1 ''a'' Running, io_default), (sample_row 2 ''b'' Running, io_default)]"

theorem complete_batch_fast_equivalent_witness:
  "db_ok batch_example \<and> distinct (map (t_id \<circ> fst) batch_example_items)
   \<and> snd (complete_batch_fast 5 False batch_example_items batch_example) = Inr [3]
   \<and> (\<exists>rs. collect_each (complete_and_resolve 5 False) batch_example_items batch_example
            = (fst (complete_batch_fast 5 False batch_example_items batch_example), Inr rs)
         \<and> (\<Union>r \<in> set rs. set (snd (snd r))) = {3})"
proof -
  have ok: "db_ok batch_example"
    by (simp add: db_ok_def rowids_ok_def batch_example_def sample_row_def empty_db_def tag_key_def)
  have dist: "distinct (map (t_id \<circ> fst) batch_example_items)"
    by (simp add: batch_example_items_def sample_row_def)
  have run: "snd (complete_batch_fast 5 False batch_example_items batch_example) = Inr [3]"
    by code_simp
  have "\<exists>us. complete_batch_fast 5 False batch_example_items batch_example
      = (fst (complete_batch_fast 5 False batch_example_items batch_example), Inr us) \<and> set us = {3}"
    using run by (metis list.simps(15) prod.collapse set_empty2)
  then have "\<exists>rs. collect_each (complete_and_resolve 5 False) batch_example_items batch_example
            = (fst (complete_batch_fast 5 False batch_example_items batch_example), Inr rs)
         \<and> (\<Union>r \<in> set rs. set (snd (snd r))) = {3}"
    by (subst (asm) complete_batch_fast_equivalent [OF ok dist])
       (simp_all add: batch_example_def batch_example_items_def sample_row_def empty_db_def)
  with ok dist run show ?thesis by simp
qed

section \<open>When a dependent is released\<close>

definition waits_for :: "db \<Rightarrow> task_record \<Rightarrow> int set" where
  "waits_for d r = {j. (t_id r, j) \<in> set (task_deps d)}"

definition released_by :: "(timestamp \<times> int) list \<Rightarrow> db \<Rightarrow> task_record \<Rightarrow> task_record \<Rightarrow> bool" where
  "released_by finished d r r' \<longleftrightarrow>
     (if t_status r = Blocked \<and> waits_for d r \<noteq> {} \<and> waits_for d r \<subseteq> snd ` set finished
      then \<exists>now \<in> fst ` set finished. r' = release_row now d r else r' = r)"

lemma ready_after_waits: "ready_after J d r \<longleftrightarrow> t_status r = Blocked \<and> waits_for d r \<noteq> {} \<and> waits_for d r \<subseteq> J"
  unfolding ready_after_def waits_for_def has_edge_from_iff by force

definition resolve_all :: "(timestamp \<times> int) list \<Rightarrow> task_store \<Rightarrow> task_store" where
  "resolve_all finished st = fold (\<lambda>(now, j) st. fst (resolve_dependents now j st)) finished st"

lemma resolve_step:
  assumes "db_ok (st_db st)"
  shows "st_db (fst (resolve_dependents now j st)) = (upd_tasks (ready_after {j} (st_db st)) (release_row now (st_db st)) (st_db st))
    \<lparr>task_deps := filter (\<lambda>e. snd e \<noteq> j) (task_deps (st_db st))\<rparr>"
  using batch_resolve_eq [OF assms, of now "[j]"]
  by (simp add: resolve_dependents_def resolve_is_batch sql_delete_def case_prod_beta)

text \<open>One completion, then the others.\<close>

lemma released_by_Cons:
  assumes waits: "waits_for d' r = waits_for d r - {j}" and rel: "\<And>t. release_row t d' = release_row t d"
    and rest: "released_by finished d' (if ready_after {j} d r then release_row now d r else r) r''"
  shows "released_by ((now, j) # finished) d r r''"
proof (cases "ready_after {j} d r")
  case True
  have "t_status (release_row now d r) \<noteq> Blocked" by simp
  with rest True have "r'' = release_row now d r" by (simp add: released_by_def)
  with True show ?thesis by (auto simp: released_by_def ready_after_waits)
next
  case False
  show ?thesis
  proof (cases "t_status r = Blocked \<and> waits_for d r - {j} \<noteq> {} \<and> waits_for d r - {j} \<subseteq> snd ` set finished")
    case True
    with rest False have "\<exists>t \<in> fst ` set finished. r'' = release_row t d r" by (simp add: released_by_def waits rel)
    with True show ?thesis by (auto simp: released_by_def)
  next
    case nope: False
    with rest False have "r'' = r" by (auto simp: released_by_def waits)
    moreover have "\<not> (t_status r = Blocked \<and> waits_for d r \<noteq> {} \<and> waits_for d r \<subseteq> snd ` set ((now, j) # finished))"
      using nope False by (auto simp: ready_after_waits)
    ultimately show ?thesis unfolding released_by_def by (simp only: if_False)
  qed
qed

text \<open>C5: a task that waits for others is released exactly when the last of them has completed:
  whatever tasks complete, in whatever order and at whatever times, a blocked task whose
  dependencies are all among them is pending, or paused when its group is, and every other
  task is as it was; the edges to completed tasks, and only these, are gone.\<close>

theorem dependencies_release_exactly:
  assumes "db_ok (st_db st)"
  shows "list_all2 (released_by finished (st_db st)) (tasks (st_db st)) (tasks (st_db (resolve_all finished st)))
    \<and> task_deps (st_db (resolve_all finished st)) = filter (\<lambda>e. snd e \<notin> snd ` set finished) (task_deps (st_db st))"
  using assms
proof (induction finished arbitrary: st)
  case Nil
  then show ?case by (auto simp: resolve_all_def released_by_def list_all2_same)
next
  case (Cons x finished)
  obtain now j where x: "x = (now, j)" by force
  let ?d = "st_db st" and ?st = "fst (resolve_dependents now j st)"
  note step = resolve_step [OF Cons.prems, of now j]
  have ok: "db_ok (st_db ?st)"
    using db_ok_batch_resolve [OF Cons.prems, of now "[j]"] by (simp add: resolve_dependents_def resolve_is_batch case_prod_beta)
  note IH = Cons.IH [OF ok]
  have deps: "task_deps (st_db ?st) = filter (\<lambda>e. snd e \<noteq> j) (task_deps ?d)" by (simp add: step)
  have waits: "waits_for (st_db ?st) r = waits_for ?d r - {j}" for r by (auto simp: waits_for_def deps)
  have rel: "release_row t (st_db ?st) = release_row t ?d" for t
    by (simp add: release_row_def group_is_paused_def fun_eq_iff step cong: option.case_cong)
  note one = released_by_Cons [OF waits rel, of finished]
  have "list_all2 (released_by (x # finished) ?d) (tasks ?d) (tasks (st_db (resolve_all finished ?st)))"
    using IH one x by (auto simp: step upd_tasks_def sql_update_def list_all2_map1 elim!: list_all2_mono)
  moreover have "task_deps (st_db (resolve_all finished ?st)) = filter (\<lambda>e. snd e \<notin> snd ` set (x # finished)) (task_deps ?d)"
    using IH deps x by (auto intro!: filter_cong)
  ultimately show ?case by (simp add: resolve_all_def x)
qed

definition joined_store :: task_store where
  "joined_store = open_memory\<lparr>st_db := empty_db\<lparr>tasks := [sample_row 1 ''a'' Running, sample_row 2 ''b'' Running, sample_row 3 ''c'' Blocked],
     task_deps := [(3, 1), (3, 2)]\<rparr>\<rparr>"

theorem dependencies_release_exactly_witness:
  "db_ok (st_db joined_store)
   \<and> map t_status (tasks (st_db (resolve_all [(5, 2)] joined_store))) = [Running, Running, Blocked]
   \<and> map t_status (tasks (st_db (resolve_all [(5, 2), (7, 1)] joined_store))) = [Running, Running, Pending]"
proof -
  have ok: "db_ok (st_db joined_store)"
    by (simp add: db_ok_def rowids_ok_def joined_store_def sample_row_def empty_db_def)
  note all = dependencies_release_exactly [OF ok, THEN conjunct1]
  have rows: "tasks (st_db joined_store) = [sample_row 1 ''a'' Running, sample_row 2 ''b'' Running, sample_row 3 ''c'' Blocked]"
    by (simp add: joined_store_def)
  have w: "waits_for (st_db joined_store) (sample_row 3 ''c'' Blocked) = {1, 2}"
    by (auto simp: waits_for_def joined_store_def sample_row_def)
  have st: "t_status (sample_row i k s) = s" "t_group_key (sample_row i k s) = None" for i k s by (simp_all add: sample_row_def)
  show ?thesis
    using ok all [of "[(5, 2)]"] all [of "[(5, 2), (7, 1)]"]
    by (auto simp: rows list_all2_Cons1 released_by_def w st release_row_def group_is_paused_def)
qed

end
