(* ===== verification/Store_System.thy ===== *)
theory Store_System
  imports Store_Query Batch_Completion
begin

text \<open>
  The store as a transition system: one step per operation of \<open>TaskStore\<close> that writes
  (\<open>src/src/store/\<close>), from an empty database. The invariants of \<open>Store_Invariant\<close> hold in
  every store that any sequence of operations reaches; acyclicity of the dependency graph
  holds as long as no submission goes through the coalesced path, which commits what a
  failed submission had written.
\<close>


section \<open>The steps\<close>

text \<open>A statement on the database alone, in a store.\<close>

definition with_db :: "(db \<Rightarrow> db) \<Rightarrow> task_store \<Rightarrow> task_store" where
  "with_db f st = st\<lparr>st_db := f (st_db st)\<rparr>"

lemma st_db_with_db [simp]: "st_db (with_db f st) = f (st_db st)"
  by (simp add: with_db_def)

inductive db_op :: "db \<Rightarrow> db \<Rightarrow> bool" where
  op_prune_age: "db_op d (prune_history_by_age now days d)"
| op_prune_count: "db_op d (prune_history_by_count n d)"
| op_delete_history: "db_op d (fst (delete_history h d))"
| op_delete_task: "db_op d (fst (delete_task i d))"
| op_requeue: "db_op d (requeue i d)"
| op_increment_retry: "db_op d (increment_retry i e d)"
| op_requeue_for_retry: "db_op d (requeue_for_retry now i e delay d)"
| op_pause: "b \<noteq> 0 \<Longrightarrow> db_op d (pause now i b d)"
| op_resume: "db_op d (resume now i d)"
| op_resume_preempted: "db_op d (resume_preempted now i d)"
| op_clear_pause_bit: "single_reason b \<Longrightarrow> db_op d (fst (clear_pause_bit now b d))"
| op_pause_group_state: "db_op d (fst (pause_group_state now g until d))"
| op_resume_group_state: "db_op d (fst (resume_group_state g d))"
| op_pause_tasks_in_group: "db_op d (fst (pause_tasks_in_group now g d))"
| op_resume_paused_by_group: "db_op d (fst (resume_paused_by_group now g d))"
| op_pause_by_prefix: "db_op d (fst (pause_pending_by_type_prefix now p d))"
| op_resume_by_prefix: "db_op d (fst (resume_paused_by_type_prefix now p d))"
| op_set_waiting: "db_op d (set_waiting i memo d)"
| op_set_running: "db_op d (set_running_for_finalize now i d)"
| op_set_run_after: "db_op d (set_run_after i t d)"
| op_pause_recurring: "db_op d (pause_recurring i d)"
| op_resume_recurring: "db_op d (resume_recurring i d)"

inductive store_step :: "(bytes \<Rightarrow> string) \<Rightarrow> bool \<Rightarrow> task_store \<Rightarrow> task_store \<Rightarrow> bool"
  for sha256_hex :: "bytes \<Rightarrow> string" and coalesced :: bool where
  st_db_op: "db_op (st_db st) d \<Longrightarrow> store_step sha256_hex coalesced st (st\<lparr>st_db := d\<rparr>)"
| st_reopen: "store_step sha256_hex coalesced st (open_with_config now config (st_db st))"
| st_submit_direct: "store_step sha256_hex coalesced st (fst (submit_direct sha256_hex now sub st))"
| st_submit: "coalesced \<Longrightarrow> store_step sha256_hex coalesced st (fst (submit sha256_hex now stranded sub st))"
| st_drain_submits: "coalesced \<Longrightarrow> store_step sha256_hex coalesced st (fst (process_submit_batch sha256_hex now subs st))"
| st_submit_batch: "store_step sha256_hex coalesced st (fst (submit_batch sha256_hex now subs st))"
| st_pop_by_id: "store_step sha256_hex coalesced st (fst (pop_by_id now i st))"
| st_claim_task: "store_step sha256_hex coalesced st (fst (claim_task now i st))"
| st_pop_next: "store_step sha256_hex coalesced st (fst (pop_next now aging st))"
| st_pop_next_batch: "store_step sha256_hex coalesced st (fst (pop_next_batch now n aging st))"
| st_complete: "store_step sha256_hex coalesced st (fst (complete now i metrics st))"
| st_complete_with_record: "store_step sha256_hex coalesced st (fst (complete_with_record now task metrics st))"
| st_complete_and_resolve:
    "store_step sha256_hex coalesced st (fst (complete_with_record_and_resolve now task metrics st))"
| st_complete_batch: "store_step sha256_hex coalesced st (fst (complete_batch_with_resolve now items st))"
| st_fail: "fail rnd now i e retryable mx metrics b st = Some (st', x) \<Longrightarrow> store_step sha256_hex coalesced st st'"
| st_fail_with_record:
    "fail_with_record rnd now task e retryable mx metrics b st = Some (st', x) \<Longrightarrow> store_step sha256_hex coalesced st st'"
| st_fail_batch: "fail_batch rnd now fitems st = Some (st', x) \<Longrightarrow> store_step sha256_hex coalesced st st'"
| st_resolve: "store_step sha256_hex coalesced st (fst (resolve_dependents now i st))"
| st_fail_dependents: "store_step sha256_hex coalesced st (fst (fail_dependents now i st))"
| st_cancel: "store_step sha256_hex coalesced st (fst (cancel_to_history now i st))"
| st_cancel_with_record: "store_step sha256_hex coalesced st (fst (cancel_to_history_with_record now task st))"
| st_cancel_children: "store_step sha256_hex coalesced st (fst (cancel_children now i st))"
| st_cancel_recurring: "store_step sha256_hex coalesced st (fst (cancel_recurring now i st))"
| st_expire_tasks: "store_step sha256_hex coalesced st (fst (expire_tasks now st))"
| st_expire_single: "store_step sha256_hex coalesced st (fst (expire_single now i st))"

inductive_cases db_opE: "db_op d d'"
inductive_cases store_stepE: "store_step sha256_hex coalesced st st'"

definition store_init :: "task_store \<Rightarrow> bool" where
  "store_init st \<longleftrightarrow> st = open_memory \<or> (\<exists>now config. st = open_with_config now config empty_db)"

section \<open>Every step keeps every invariant of the contract\<close>

context db_invariant
begin

lemma P_delete_history: "P d \<Longrightarrow> P (fst (delete_history h d))"
proof -
  assume "P d"
  then have "P (d\<lparr>history_tags := sql_delete (\<lambda>(i, _). i = h) (history_tags d)\<rparr>)" by (rule P_history_tags)
  from P_prune [OF this, of "\<lambda>x. h_id x = h"] show ?thesis by (simp add: delete_history_def)
qed

lemma P_delete_task: "P d \<Longrightarrow> P (fst (delete_task i d))"
  by (simp add: delete_task_def P_del P_delete_tags)

lemma P_db_op: "db_op d d' \<Longrightarrow> db_ok d \<Longrightarrow> P d \<Longrightarrow> P d'"
  by (erule db_opE)
     (auto simp: prune_history_by_age_def prune_history_by_count_def Let_def
       intro: P_prune P_delete_history P_delete_task P_requeue P_increment_retry P_requeue_for_retry
         P_pause P_resume P_resume_preempted P_clear_pause_bit P_pause_group_state P_resume_group_state
         P_pause_tasks_in_group P_resume_paused_by_group P_pause_by_prefix P_resume_by_prefix
         P_set_waiting P_set_running P_set_run_after P_pause_recurring P_resume_recurring)

lemma P_resolve_dependents: "P (st_db st) \<Longrightarrow> P (st_db (fst (resolve_dependents now i st)))"
  using P_resolve [of "st_db st" now i] by (simp add: resolve_dependents_def case_prod_beta)

lemma P_reopen: "P (st_db st) \<Longrightarrow> P (st_db (open_with_config now config (st_db st)))"
  by (simp add: open_with_config_def P_recover)

lemmas P_store_ops = P_reopen P_submit_direct P_submit_batch P_pop_by_id P_claim_task P_pop_next
  P_pop_next_batch P_complete P_complete_with_record P_complete_with_record_and_resolve P_complete_batch
  P_fail_by_id P_fail_with_record P_fail_batch P_resolve_dependents P_fail_dependents P_cancel
  P_cancel_with_record P_cancel_children P_cancel_recurring P_expire_tasks P_expire_single

lemma P_store_step:
  "store_step sha256_hex False st st' \<Longrightarrow> db_ok (st_db st) \<Longrightarrow> P (st_db st) \<Longrightarrow> P (st_db st')"
  by (erule store_stepE) (auto intro: P_store_ops P_db_op)

lemma P_store_init: "P empty_db \<Longrightarrow> store_init st \<Longrightarrow> P (st_db st)"
  by (auto simp: store_init_def open_memory_def open_with_config_def intro: P_recover)

end

context db_invariant_partial
begin

lemma P_process_submit_batch: "P (st_db st) \<Longrightarrow> P (st_db (fst (process_submit_batch sha256_hex now subs st)))"
  by (simp add: process_submit_batch_def P_process_messages)

lemma P_store_step_coalesced:
  "store_step sha256_hex coalesced st st' \<Longrightarrow> db_ok (st_db st) \<Longrightarrow> P (st_db st) \<Longrightarrow> P (st_db st')"
  by (erule store_stepE) (auto intro: P_store_ops P_db_op P_submit P_process_submit_batch)

end

section \<open>Reachable stores\<close>

definition store_inv :: "task_store \<Rightarrow> bool" where
  "store_inv st \<longleftrightarrow> db_ok (st_db st) \<and> blocked_ok (st_db st) \<and> paused_ok (st_db st)"

definition store_acyclic :: "task_store \<Rightarrow> bool" where
  "store_acyclic st \<longleftrightarrow> db_ok (st_db st) \<and> deps_acyclic (st_db st)"

lemma empty_invariants: "db_ok empty_db" "blocked_ok empty_db" "paused_ok empty_db" "deps_acyclic empty_db"
  by (simp_all add: db_ok_empty, simp_all add: blocked_ok_def paused_ok_def deps_acyclic_def empty_db_def acyclic_def)

interpretation store_sys: invariant_system store_init "store_step sha256_hex coalesced" store_inv
  for sha256_hex coalesced
proof
  show "store_init s \<Longrightarrow> store_inv s" for s
    by (simp add: store_inv_def db_ok.P_store_init blocked.P_store_init paused.P_store_init empty_invariants)
  show "store_inv s \<Longrightarrow> store_step sha256_hex coalesced s t \<Longrightarrow> store_inv t" for s t
    by (auto simp: store_inv_def intro: db_ok.P_store_step_coalesced blocked.P_store_step_coalesced
        paused.P_store_step_coalesced)
qed

interpretation acyclic_sys: invariant_system store_init "store_step sha256_hex False" store_acyclic
  for sha256_hex
proof
  show "store_init s \<Longrightarrow> store_acyclic s" for s
    by (simp add: store_acyclic_def db_ok.P_store_init acyclic_deps.P_store_init empty_invariants)
  show "store_acyclic s \<Longrightarrow> store_step sha256_hex False s t \<Longrightarrow> store_acyclic t" for s t
    by (auto simp: store_acyclic_def intro: db_ok.P_store_step acyclic_deps.P_store_step)
qed



text \<open>A digest for the examples: it separates inputs by their length.\<close>

definition plain_hex :: "bytes \<Rightarrow> string" where
  "plain_hex b = replicate (length b) (CHR ''f'')"

definition self_dependent :: task_submission where
  "self_dependent = with_depends_on 1 (with_key ''loop'' (submission_new ''m::t''))"

lemma reachable_submit: "reachable store_init (store_step h c) (fst (submit_direct h now sub open_memory))"
  by (rule reachable_step [OF reachable_init]) (auto simp: store_init_def intro: st_submit_direct)


text \<open>C3: as long as submissions are not coalesced, no sequence of operations makes the
  dependency graph cyclic, so no group of tasks waits for itself for ever.\<close>

theorem reachable_acyclic:
  assumes "reachable store_init (store_step sha256_hex False) st"
  shows "acyclic (set (task_deps (st_db st)))"
  using acyclic_sys.inv_reachable [OF assms] by (simp add: store_acyclic_def deps_acyclic_def)

theorem reachable_acyclic_witness:
  "reachable store_init (store_step plain_hex False) (fst (submit_direct plain_hex 5 self_dependent open_memory))
   \<and> acyclic (set (task_deps (st_db (fst (submit_direct plain_hex 5 self_dependent open_memory)))))"
  using reachable_acyclic [OF reachable_submit] reachable_submit by blast


end
