(* ===== verification/Row_Mapping.thy ===== *)
theory Row_Mapping
  imports Task_Types
begin

text \<open>
  Decoding of database rows: \<open>src/src/store/row_mapping.rs\<close>.

  A row is a record of column values as SQLite stores them (\<open>c_\<close> for the active queue,
  \<open>hc_\<close> for the history). \<open>task_columns\<close> and \<open>history_columns\<close> are the values the store
  binds to these columns when it writes a record. Which epoch milliseconds the date
  library can represent is the parameter \<open>representable\<close>.
\<close>

section \<open>Rows\<close>

record task_row =
  c_id :: int
  c_task_type :: string
  c_key :: string
  c_label :: string
  c_priority :: int
  c_status :: string
  c_payload :: "bytes option"
  c_expected_read_bytes :: int
  c_expected_write_bytes :: int
  c_expected_net_rx_bytes :: int
  c_expected_net_tx_bytes :: int
  c_retry_count :: int
  c_last_error :: "string option"
  c_created_at :: int
  c_started_at :: "int option"
  c_requeue :: int
  c_requeue_priority :: "int option"
  c_parent_id :: "int option"
  c_fail_fast :: int
  c_group_key :: "string option"
  c_ttl_seconds :: "int option"
  c_ttl_from :: string
  c_expires_at :: "int option"
  c_run_after :: "int option"
  c_recurring_interval_secs :: "int option"
  c_recurring_max_executions :: "int option"
  c_recurring_execution_count :: int
  c_recurring_paused :: int
  c_on_dep_failure :: string
  c_max_retries :: "int option"
  c_memo :: "bytes option"
  c_pause_reasons :: int
  c_pause_duration_ms :: int
  c_paused_at_ms :: "int option"

record history_columns_row =
  hc_id :: int
  hc_task_type :: string
  hc_key :: string
  hc_label :: string
  hc_priority :: int
  hc_status :: string
  hc_payload :: "bytes option"
  hc_expected_read_bytes :: int
  hc_expected_write_bytes :: int
  hc_expected_net_rx_bytes :: int
  hc_expected_net_tx_bytes :: int
  hc_actual_read_bytes :: "int option"
  hc_actual_write_bytes :: "int option"
  hc_actual_net_rx_bytes :: "int option"
  hc_actual_net_tx_bytes :: "int option"
  hc_retry_count :: int
  hc_last_error :: "string option"
  hc_created_at :: int
  hc_started_at :: "int option"
  hc_completed_at :: int
  hc_duration_ms :: "int option"
  hc_parent_id :: "int option"
  hc_fail_fast :: int
  hc_group_key :: "string option"
  hc_ttl_seconds :: "int option"
  hc_ttl_from :: string
  hc_expires_at :: "int option"
  hc_run_after :: "int option"
  hc_max_retries :: "int option"
  hc_memo :: "bytes option"

section \<open>Decoding\<close>

definition epoch_ms :: "timestamp \<Rightarrow> int" where
  "epoch_ms dt = dt"

definition from_epoch_ms :: "(int \<Rightarrow> bool) \<Rightarrow> int \<Rightarrow> timestamp" where
  "from_epoch_ms representable ms = (if representable ms then ms else 0)"

definition parse_or :: "(string + 'a) \<Rightarrow> 'a \<Rightarrow> 'a" where
  "parse_or r dflt = (case r of Inl _ \<Rightarrow> dflt | Inr x \<Rightarrow> x)"

definition priority_of_col :: "int \<Rightarrow> priority" where
  "priority_of_col i = Priority (word_of_int i)"

definition row_to_task_record :: "(int \<Rightarrow> bool) \<Rightarrow> task_row \<Rightarrow> task_record" where
  "row_to_task_record representable row =
     \<lparr>t_id = c_id row, t_task_type = c_task_type row, t_key = c_key row, t_label = c_label row,
      t_priority = priority_of_col (c_priority row),
      t_status = parse_or (task_status_from_str (c_status row)) Pending,
      t_payload = c_payload row,
      t_expected_io = \<lparr>disk_read = c_expected_read_bytes row, disk_write = c_expected_write_bytes row,
                       net_rx = c_expected_net_rx_bytes row, net_tx = c_expected_net_tx_bytes row\<rparr>,
      t_retry_count = c_retry_count row, t_last_error = c_last_error row,
      t_created_at = from_epoch_ms representable (c_created_at row),
      t_started_at = map_option (from_epoch_ms representable) (c_started_at row),
      t_requeue = (c_requeue row \<noteq> 0),
      t_requeue_priority = map_option priority_of_col (c_requeue_priority row),
      t_parent_id = c_parent_id row, t_fail_fast = (c_fail_fast row \<noteq> 0),
      t_group_key = c_group_key row, t_ttl_seconds = c_ttl_seconds row,
      t_ttl_from = parse_or (ttl_from_from_str (c_ttl_from row)) Submission,
      t_expires_at = map_option (from_epoch_ms representable) (c_expires_at row),
      t_run_after = map_option (from_epoch_ms representable) (c_run_after row),
      t_recurring_interval_secs = c_recurring_interval_secs row,
      t_recurring_max_executions = c_recurring_max_executions row,
      t_recurring_execution_count = c_recurring_execution_count row,
      t_recurring_paused = (c_recurring_paused row \<noteq> 0),
      t_dependencies = [],
      t_on_dependency_failure = parse_or (policy_from_str (c_on_dep_failure row)) Cancel,
      t_tags = [], t_max_retries = c_max_retries row, t_memo = c_memo row,
      t_pause_reasons = pr_from_bits (c_pause_reasons row),
      t_pause_duration_ms = c_pause_duration_ms row, t_paused_at_ms = c_paused_at_ms row\<rparr>"

definition row_to_history_record :: "(int \<Rightarrow> bool) \<Rightarrow> history_columns_row \<Rightarrow> history_record" where
  "row_to_history_record representable row =
     \<lparr>h_id = hc_id row, h_task_type = hc_task_type row, h_key = hc_key row, h_label = hc_label row,
      h_priority = priority_of_col (hc_priority row),
      h_status = parse_or (history_status_from_str (hc_status row)) HFailed,
      h_payload = hc_payload row,
      h_expected_io = \<lparr>disk_read = hc_expected_read_bytes row, disk_write = hc_expected_write_bytes row,
                       net_rx = hc_expected_net_rx_bytes row, net_tx = hc_expected_net_tx_bytes row\<rparr>,
      h_actual_io = map_option (\<lambda>dr. \<lparr>disk_read = dr,
           disk_write = (case hc_actual_write_bytes row of None \<Rightarrow> 0 | Some v \<Rightarrow> v),
           net_rx = (case hc_actual_net_rx_bytes row of None \<Rightarrow> 0 | Some v \<Rightarrow> v),
           net_tx = (case hc_actual_net_tx_bytes row of None \<Rightarrow> 0 | Some v \<Rightarrow> v)\<rparr>) (hc_actual_read_bytes row),
      h_retry_count = hc_retry_count row, h_last_error = hc_last_error row,
      h_created_at = from_epoch_ms representable (hc_created_at row),
      h_started_at = map_option (from_epoch_ms representable) (hc_started_at row),
      h_completed_at = from_epoch_ms representable (hc_completed_at row),
      h_duration_ms = hc_duration_ms row, h_parent_id = hc_parent_id row,
      h_fail_fast = (hc_fail_fast row \<noteq> 0), h_group_key = hc_group_key row,
      h_ttl_seconds = hc_ttl_seconds row,
      h_ttl_from = parse_or (ttl_from_from_str (hc_ttl_from row)) Submission,
      h_expires_at = map_option (from_epoch_ms representable) (hc_expires_at row),
      h_run_after = map_option (from_epoch_ms representable) (hc_run_after row),
      h_tags = [], h_max_retries = hc_max_retries row, h_memo = hc_memo row\<rparr>"

section \<open>Encoding\<close>

definition bool_col :: "bool \<Rightarrow> int" where
  "bool_col b = (if b then 1 else 0)"

definition task_columns :: "task_record \<Rightarrow> task_row" where
  "task_columns r =
     \<lparr>c_id = t_id r, c_task_type = t_task_type r, c_key = t_key r, c_label = t_label r,
      c_priority = priority_col (t_priority r), c_status = task_status_as_str (t_status r),
      c_payload = t_payload r, c_expected_read_bytes = disk_read (t_expected_io r),
      c_expected_write_bytes = disk_write (t_expected_io r), c_expected_net_rx_bytes = net_rx (t_expected_io r),
      c_expected_net_tx_bytes = net_tx (t_expected_io r), c_retry_count = t_retry_count r,
      c_last_error = t_last_error r, c_created_at = epoch_ms (t_created_at r),
      c_started_at = map_option epoch_ms (t_started_at r), c_requeue = bool_col (t_requeue r),
      c_requeue_priority = map_option priority_col (t_requeue_priority r), c_parent_id = t_parent_id r,
      c_fail_fast = bool_col (t_fail_fast r), c_group_key = t_group_key r, c_ttl_seconds = t_ttl_seconds r,
      c_ttl_from = ttl_from_as_str (t_ttl_from r), c_expires_at = map_option epoch_ms (t_expires_at r),
      c_run_after = map_option epoch_ms (t_run_after r),
      c_recurring_interval_secs = t_recurring_interval_secs r,
      c_recurring_max_executions = t_recurring_max_executions r,
      c_recurring_execution_count = t_recurring_execution_count r,
      c_recurring_paused = bool_col (t_recurring_paused r),
      c_on_dep_failure = policy_as_str (t_on_dependency_failure r), c_max_retries = t_max_retries r,
      c_memo = t_memo r, c_pause_reasons = pr_bits (t_pause_reasons r),
      c_pause_duration_ms = t_pause_duration_ms r, c_paused_at_ms = t_paused_at_ms r\<rparr>"

definition history_columns :: "history_record \<Rightarrow> history_columns_row" where
  "history_columns h =
     \<lparr>hc_id = h_id h, hc_task_type = h_task_type h, hc_key = h_key h, hc_label = h_label h,
      hc_priority = priority_col (h_priority h), hc_status = history_status_as_str (h_status h),
      hc_payload = h_payload h, hc_expected_read_bytes = disk_read (h_expected_io h),
      hc_expected_write_bytes = disk_write (h_expected_io h), hc_expected_net_rx_bytes = net_rx (h_expected_io h),
      hc_expected_net_tx_bytes = net_tx (h_expected_io h),
      hc_actual_read_bytes = map_option disk_read (h_actual_io h),
      hc_actual_write_bytes = map_option disk_write (h_actual_io h),
      hc_actual_net_rx_bytes = map_option net_rx (h_actual_io h),
      hc_actual_net_tx_bytes = map_option net_tx (h_actual_io h), hc_retry_count = h_retry_count h,
      hc_last_error = h_last_error h, hc_created_at = epoch_ms (h_created_at h),
      hc_started_at = map_option epoch_ms (h_started_at h), hc_completed_at = epoch_ms (h_completed_at h),
      hc_duration_ms = h_duration_ms h, hc_parent_id = h_parent_id h, hc_fail_fast = bool_col (h_fail_fast h),
      hc_group_key = h_group_key h, hc_ttl_seconds = h_ttl_seconds h, hc_ttl_from = ttl_from_as_str (h_ttl_from h),
      hc_expires_at = map_option epoch_ms (h_expires_at h), hc_run_after = map_option epoch_ms (h_run_after h),
      hc_max_retries = h_max_retries h, hc_memo = h_memo h\<rparr>"

section \<open>Round trips\<close>

lemma priority_col_roundtrip [simp]: "priority_of_col (priority_col p) = p"
  by (cases p) (simp add: priority_of_col_def priority_col_def)

lemma bool_col_roundtrip [simp]: "bool_col b \<noteq> 0 \<longleftrightarrow> b"
  by (simp add: bool_col_def)

lemma text_roundtrips [simp]:
  "parse_or (task_status_from_str (task_status_as_str s)) d1 = s"
  "parse_or (ttl_from_from_str (ttl_from_as_str f)) d2 = f"
  "parse_or (policy_from_str (policy_as_str p)) d3 = p"
  "parse_or (history_status_from_str (history_status_as_str h)) d4 = h"
  by (simp_all add: parse_or_def task_status_text.from_as ttl_from_text.from_as
      policy_text.from_as history_status_text.from_as)

definition timestamps_ok :: "(int \<Rightarrow> bool) \<Rightarrow> timestamp list \<Rightarrow> bool" where
  "timestamps_ok representable ts \<longleftrightarrow> (\<forall>t \<in> set ts. representable t)"

lemma epoch_roundtrip: "representable t \<Longrightarrow> from_epoch_ms representable (epoch_ms t) = t"
  by (simp add: from_epoch_ms_def epoch_ms_def)

lemma epoch_option_roundtrip:
  "set_option x \<subseteq> Collect representable \<Longrightarrow>
   map_option (\<lambda>t. from_epoch_ms representable (epoch_ms t)) x = x"
  by (cases x) (simp_all add: epoch_roundtrip)



text \<open>A history record with representable timestamps survives being written and read
  back, up to its tags, which live in a table of their own.\<close>

theorem history_row_roundtrip:
  assumes "timestamps_ok representable (h_created_at h # h_completed_at h
             # concat (map (\<lambda>x. case x of None \<Rightarrow> [] | Some t \<Rightarrow> [t]) [h_started_at h, h_expires_at h, h_run_after h]))"
  shows "row_to_history_record representable (history_columns h) = h\<lparr>h_tags := []\<rparr>"
proof -
  have ts: "representable (h_created_at h)" "representable (h_completed_at h)"
    "set_option (h_started_at h) \<subseteq> Collect representable"
    "set_option (h_expires_at h) \<subseteq> Collect representable" "set_option (h_run_after h) \<subseteq> Collect representable"
    using assms by (auto simp: timestamps_ok_def split: option.splits)
  have io: "\<lparr>disk_read = disk_read io, disk_write = disk_write io, net_rx = net_rx io, net_tx = net_tx io\<rparr> = io" for io
    by (rule io_budget.equality) simp_all
  have "h_actual_io (row_to_history_record representable (history_columns h)) = h_actual_io h"
    by (cases "h_actual_io h") (simp_all add: row_to_history_record_def history_columns_def io)
  with ts show ?thesis
    by (intro history_record.equality)
       (simp_all add: row_to_history_record_def history_columns_def epoch_roundtrip epoch_option_roundtrip io
         option.map_comp comp_def)
qed

definition history_example :: history_record where
  "history_example =
     \<lparr>h_id = 1, h_task_type = ''a::b'', h_key = ''k'', h_label = ''l'', h_priority = NORMAL, h_status = HDeadLetter,
      h_payload = None, h_expected_io = io_default, h_actual_io = Some (io_disk 1 2), h_retry_count = 3,
      h_last_error = Some ''e'', h_created_at = 10, h_started_at = Some 20, h_completed_at = 30,
      h_duration_ms = Some 10, h_parent_id = None, h_fail_fast = True, h_group_key = None, h_ttl_seconds = None,
      h_ttl_from = Submission, h_expires_at = None, h_run_after = Some 15, h_tags = [], h_max_retries = None,
      h_memo = None\<rparr>"

theorem history_row_roundtrip_witness:
  "row_to_history_record (\<lambda>ms. \<bar>ms\<bar> < 10 ^ 15) (history_columns history_example) = history_example"
proof -
  have "row_to_history_record (\<lambda>ms. \<bar>ms\<bar> < 10 ^ 15) (history_columns history_example)
      = history_example\<lparr>h_tags := []\<rparr>"
    by (rule history_row_roundtrip) (simp add: timestamps_ok_def history_example_def)
  then show ?thesis by (simp add: history_example_def)
qed

end
