(* ===== verification/Rate_Limit.thy ===== *)
theory Rate_Limit
  imports Task_Types "HOL-Library.AList"
begin

text \<open>
  Token buckets (\<open>src/src/scheduler/rate_limit.rs\<close>). An \<open>Instant\<close> is a number of
  nanoseconds, each operation reads the clock once, \<open>f64\<close> values are exact rationals. A
  rate that is not finite (an interval of zero) is \<open>None\<close>: adding infinity or NaN and
  taking \<open>min\<close> with the burst gives the burst, and the quotient of the deficit by it casts
  to 0. A \<open>HashMap\<close> is the list of its entries in some order.

  The lemmas show that the tokens stay between 0 and the burst, that the number of grants
  in any window is bounded by the burst and the rate, and that the instant announced with
  a denial is exact up to a nanosecond.
\<close>


section \<open>Limits and buckets\<close>

type_synonym instant = int

record rate_limit =
  permits :: nat
  interval :: duration
  burst :: nat

definition per_second :: "nat \<Rightarrow> rate_limit" where
  "per_second n = \<lparr>permits = n, interval = from_secs 1, burst = n\<rparr>"

definition per_minute :: "nat \<Rightarrow> rate_limit" where
  "per_minute n = \<lparr>permits = n, interval = from_secs 60, burst = n\<rparr>"

definition with_burst :: "nat \<Rightarrow> rate_limit \<Rightarrow> rate_limit" where
  "with_burst n l = l\<lparr>burst := n\<rparr>"

record token_bucket =
  available :: rat
  capacity :: rat
  refill_rate :: "rat option"
  last_refill :: instant
  bucket_config :: rate_limit

definition rate_of :: "rate_limit \<Rightarrow> rat option" where
  "rate_of c = (if interval c = 0 then None else Some (of_nat (permits c) / of_nat (interval c)))"

definition bucket_new :: "instant \<Rightarrow> rate_limit \<Rightarrow> token_bucket" where
  "bucket_new now c =
     \<lparr>available = of_nat (burst c), capacity = of_nat (burst c), refill_rate = rate_of c,
      last_refill = now, bucket_config = c\<rparr>"

definition refill :: "instant \<Rightarrow> token_bucket \<Rightarrow> token_bucket" where
  "refill now b =
     b\<lparr>available := (case refill_rate b of
          None \<Rightarrow> capacity b
        | Some r \<Rightarrow> min (available b + rat_of_int (max 0 (now - last_refill b)) * r) (capacity b)),
       last_refill := now\<rparr>"

definition wait_nanos :: "token_bucket \<Rightarrow> int" where
  "wait_nanos b =
     (case refill_rate b of
        None \<Rightarrow> 0
      | Some r \<Rightarrow> if r = 0 then 2 ^ 64 - 1 else min (2 ^ 64 - 1) \<lfloor>(1 - available b) / r\<rfloor>)"

definition try_acquire :: "instant \<Rightarrow> token_bucket \<Rightarrow> token_bucket \<times> (instant + unit)" where
  "try_acquire now b =
     (let b1 = refill now b
      in if available b1 \<ge> 1 then (b1\<lparr>available := available b1 - 1\<rparr>, Inr ())
         else (b1, Inl (now + wait_nanos b1)))"

definition reconfigure :: "instant \<Rightarrow> rate_limit \<Rightarrow> token_bucket \<Rightarrow> token_bucket" where
  "reconfigure now c b =
     (let b1 = refill now b
      in b1\<lparr>refill_rate := rate_of c, capacity := of_nat (burst c),
            available := min (available b1) (of_nat (burst c)), bucket_config := c\<rparr>)"

section \<open>The collection of limits\<close>

type_synonym rate_limits = "(string, token_bucket) assoc"

definition acquire_scope :: "instant \<Rightarrow> string \<Rightarrow> rate_limits \<Rightarrow> rate_limits \<times> (instant + unit) option" where
  "acquire_scope now scope m =
     (case map_of m scope of
        None \<Rightarrow> (m, None)
      | Some b \<Rightarrow> (let (b', r) = try_acquire now b in (AList.update scope b' m, Some r)))"

definition set_rate_limit :: "instant \<Rightarrow> string \<Rightarrow> rate_limit \<Rightarrow> rate_limits \<Rightarrow> rate_limits" where
  "set_rate_limit now scope c m =
     (case map_of m scope of
        Some b \<Rightarrow> AList.update scope (reconfigure now c b) m
      | None \<Rightarrow> AList.update scope (bucket_new now c) m)"

definition remove_rate_limit :: "string \<Rightarrow> rate_limits \<Rightarrow> rate_limits" where
  "remove_rate_limit scope m = AList.delete scope m"

definition refill_all :: "instant \<Rightarrow> rate_limits \<Rightarrow> rate_limits" where
  "refill_all now m = map (\<lambda>(scope, b). (scope, refill now b)) m"

definition next_available :: "instant \<Rightarrow> rate_limits \<Rightarrow> rate_limits \<times> instant option" where
  "next_available now m =
     (let m' = refill_all now m
      in (m', fold (\<lambda>(_, b) earliest.
                if available b < 1
                then (let ready_at = now + wait_nanos b
                      in Some (case earliest of Some e \<Rightarrow> min e ready_at | None \<Rightarrow> ready_at))
                else earliest) m' None))"

record rate_limit_info =
  rli_scope :: string
  rli_scope_kind :: string
  rli_permits :: nat
  rli_interval_ms :: nat
  rli_burst :: nat
  rli_available_tokens :: rat

definition snapshot_info :: "instant \<Rightarrow> string \<Rightarrow> rate_limits \<Rightarrow> rate_limits \<times> rate_limit_info list" where
  "snapshot_info now kind m =
     (let m' = refill_all now m
      in (m', map (\<lambda>(scope, b). \<lparr>rli_scope = kind @ '':'' @ scope, rli_scope_kind = kind,
                 rli_permits = permits (bucket_config b),
                 rli_interval_ms = as_millis (interval (bucket_config b)) mod 2 ^ 64,
                 rli_burst = burst (bucket_config b), rli_available_tokens = available b\<rparr>) m'))"

section \<open>The bucket stays within its bounds\<close>

definition bucket_ok :: "token_bucket \<Rightarrow> bool" where
  "bucket_ok b \<longleftrightarrow> 0 \<le> available b \<and> available b \<le> capacity b \<and> (case refill_rate b of None \<Rightarrow> True | Some r \<Rightarrow> 0 \<le> r)"

lemma rate_of_nonneg: "rate_of c = Some r \<Longrightarrow> 0 \<le> r"
  by (auto simp: rate_of_def split: if_splits)

lemma bucket_ok_new: "bucket_ok (bucket_new now c)"
  by (auto simp: bucket_ok_def bucket_new_def rate_of_nonneg split: option.split)

lemma refill_fields [simp]:
  "capacity (refill now b) = capacity b" "refill_rate (refill now b) = refill_rate b" "last_refill (refill now b) = now"
  by (simp_all add: refill_def)

lemma bucket_ok_refill: "bucket_ok b \<Longrightarrow> bucket_ok (refill now b)"
  by (auto simp: bucket_ok_def refill_def split: option.splits)

lemma bucket_ok_reconfigure: "bucket_ok b \<Longrightarrow> bucket_ok (reconfigure now c b)"
  using bucket_ok_refill [of b now]
  by (auto simp: bucket_ok_def reconfigure_def Let_def rate_of_nonneg split: option.splits)

lemma bucket_ok_try_acquire: "bucket_ok b \<Longrightarrow> bucket_ok (fst (try_acquire now b))"
  using bucket_ok_refill [of b now] by (auto simp: bucket_ok_def try_acquire_def Let_def split: option.splits)

lemma try_acquire_fields [simp]:
  "capacity (fst (try_acquire now b)) = capacity b" "refill_rate (fst (try_acquire now b)) = refill_rate b"
  "last_refill (fst (try_acquire now b)) = now"
  by (simp_all add: try_acquire_def Let_def)

section \<open>The rate is respected\<close>

fun acquire_times :: "instant list \<Rightarrow> token_bucket \<Rightarrow> nat \<times> token_bucket" where
  "acquire_times [] b = (0, b)"
| "acquire_times (t # ts) b =
     (let (b1, r) = try_acquire t b; (n, b2) = acquire_times ts b1
      in ((if r = Inr () then Suc n else n), b2))"

abbreviation granted :: "instant list \<Rightarrow> token_bucket \<Rightarrow> nat" where
  "granted ts b \<equiv> fst (acquire_times ts b)"

lemma try_acquire_paid:
  assumes "refill_rate b = Some r"
  shows "(if snd (try_acquire now b) = Inr () then 1 else 0) + available (fst (try_acquire now b)) = available (refill now b)"
  by (simp add: try_acquire_def Let_def)

lemma refill_le: "refill_rate b = Some r \<Longrightarrow> last_refill b \<le> now
    \<Longrightarrow> available (refill now b) \<le> available b + rat_of_int (now - last_refill b) * r"
  by (simp add: refill_def)

lemma granted_le:
  assumes "bucket_ok b" and "refill_rate b = Some r" and "sorted (last_refill b # ts)"
  shows "rat_of_nat (granted ts b) \<le> available b + rat_of_int (last (last_refill b # ts) - last_refill b) * r"
  using assms
proof (induction ts arbitrary: b)
  case Nil
  then show ?case by (simp add: bucket_ok_def)
next
  case (Cons t ts)
  let ?b = "fst (try_acquire t b)"
  have "rat_of_nat (granted ts ?b) \<le> available ?b + rat_of_int (last (t # ts) - t) * r"
    using Cons.IH [of ?b] Cons.prems bucket_ok_try_acquire by simp
  moreover have "(if snd (try_acquire t b) = Inr () then 1 else 0) + available ?b
      \<le> available b + rat_of_int (t - last_refill b) * r"
    using try_acquire_paid [OF Cons.prems(2), of t] refill_le [OF Cons.prems(2), of t] Cons.prems(3) by simp
  moreover have "rat_of_nat (granted (t # ts) b)
      = (if snd (try_acquire t b) = Inr () then 1 else 0) + rat_of_nat (granted ts ?b)"
    by (simp add: case_prod_beta Let_def)
  moreover have "rat_of_int (last (last_refill b # t # ts) - last_refill b) * r
      = rat_of_int (t - last_refill b) * r + rat_of_int (last (t # ts) - t) * r"
    by (simp add: algebra_simps)
  ultimately show ?case by linarith
qed

text \<open>C32: however often the dispatcher asks, the number of starts a token bucket grants
  between two moments is at most its burst plus what the configured rate produces in
  between.\<close>

theorem rate_limit_bounds_starts:
  assumes "bucket_ok b" and "refill_rate b = Some r" and "last_refill b \<le> t" and "sorted (t # ts)"
  shows "rat_of_nat (granted (t # ts) b) \<le> capacity b + r * rat_of_int (last (t # ts) - t)"
proof -
  let ?b = "refill t b"
  have ok: "bucket_ok ?b" using assms(1) by (rule bucket_ok_refill)
  have same: "try_acquire t b = try_acquire t ?b"
    using ok assms(2) by (auto simp: try_acquire_def Let_def refill_def bucket_ok_def)
  have "granted (t # ts) b = granted (t # ts) ?b" by (simp add: same)
  then show ?thesis
    using granted_le [OF ok, of r "t # ts"] assms(2,4) ok by (simp add: bucket_ok_def mult.commute)
qed

theorem rate_limit_bounds_starts_witness:
  "granted [0, 1, 2, 500000000, 1000000000] (bucket_new 0 (per_second 2)) = 4
   \<and> rat_of_nat (granted [0, 1, 2, 500000000, 1000000000] (bucket_new 0 (per_second 2))) \<le> 4"
proof -
  have r: "refill_rate (bucket_new 0 (per_second 2)) = Some (2 / 1000000000)"
    by (simp add: bucket_new_def rate_of_def per_second_def from_secs_def)
  from rate_limit_bounds_starts [OF bucket_ok_new r, of 0 "[1, 2, 500000000, 1000000000]"]
  show ?thesis
    by (simp add: bucket_new_def per_second_def from_secs_def try_acquire_def refill_def rate_of_def Let_def)
qed


section \<open>The announced instant\<close>

lemma refill_Some:
  assumes "refill_rate b = Some r" and "last_refill b \<le> t"
  shows "available (refill t b) = min (available b + rat_of_int (t - last_refill b) * r) (capacity b)"
  using assms by (simp add: refill_def)

lemma try_acquire_denied:
  assumes "try_acquire now b = (b', Inl nxt)"
  shows "b' = refill now b \<and> available b' < 1 \<and> nxt = now + wait_nanos b'"
  using assms by (auto simp: try_acquire_def Let_def split: if_splits)

text \<open>When a start is denied, the announced instant is exact: unless the bucket is asked
  again in between, every request before it is denied and every request after it is
  granted.\<close>

theorem announced_instant_exact:
  assumes "refill_rate b = Some r" and "0 < r" and "1 \<le> capacity b"
    and "try_acquire now b = (b', Inl nxt)" and "nxt < now + 2 ^ 64 - 1" and "now \<le> t"
  shows "(t < nxt \<longrightarrow> (\<exists>later. snd (try_acquire t b') = Inl later))
    \<and> (nxt < t \<longrightarrow> snd (try_acquire t b') = Inr ())"
proof -
  note den = try_acquire_denied [OF assms(4)]
  then have b': "refill_rate b' = Some r" "last_refill b' = now" "capacity b' = capacity b" "available b' < 1"
    and nxt: "nxt = now + \<lfloor>(1 - available b') / r\<rfloor>"
    using assms(1,2,5) by (auto simp: wait_nanos_def min_def split: if_splits)
  let ?w = "(1 - available b') / r"
  have av: "available (refill t b') = min (available b' + rat_of_int (t - now) * r) (capacity b)"
    using refill_Some [OF b'(1)] b'(2,3) assms(6) by simp
  have iff: "1 \<le> available (refill t b') \<longleftrightarrow> ?w \<le> rat_of_int (t - now)"
  proof -
    have "?w \<le> rat_of_int (t - now) \<longleftrightarrow> 1 - available b' \<le> rat_of_int (t - now) * r"
      using assms(2) by (rule pos_divide_le_eq)
    with assms(3) show ?thesis by (auto simp: av)
  qed
  have "\<not> ?w \<le> rat_of_int (t - now)" if "t < nxt"
  proof -
    have "t - now < \<lfloor>?w\<rfloor>" using that nxt by simp
    then show ?thesis by (simp add: less_floor_iff)
  qed
  moreover have "?w \<le> rat_of_int (t - now)" if "nxt < t"
  proof -
    have "\<lfloor>?w\<rfloor> + 1 \<le> t - now" using that nxt by simp
    then have "rat_of_int (\<lfloor>?w\<rfloor> + 1) \<le> rat_of_int (t - now)" by (simp only: of_int_le_iff)
    then show ?thesis by linarith
  qed
  ultimately show ?thesis by (simp add: try_acquire_def Let_def iff)
qed

theorem announced_instant_exact_witness:
  "snd (try_acquire 600000000 (fst (try_acquire 0 (fst (try_acquire 0 (bucket_new 0 (per_second 1))))))) \<noteq> Inr ()
   \<and> snd (try_acquire 1000000001 (fst (try_acquire 0 (fst (try_acquire 0 (bucket_new 0 (per_second 1))))))) = Inr ()"
proof -
  let ?b = "fst (try_acquire 0 (bucket_new 0 (per_second 1)))" and ?b' = "fst (try_acquire 0 (fst (try_acquire 0 (bucket_new 0 (per_second 1)))))"
  note defs = bucket_new_def per_second_def from_secs_def try_acquire_def refill_def rate_of_def Let_def wait_nanos_def
  have r: "refill_rate ?b = Some (1 / 1000000000)" and c: "1 \<le> capacity ?b" by (simp_all add: defs)
  have d: "try_acquire 0 ?b = (?b', Inl 1000000000)" by (simp add: defs)
  from announced_instant_exact [OF r _ c d, of 600000000] announced_instant_exact [OF r _ c d, of 1000000001]
  show ?thesis by auto
qed

end
