(* ===== verification/Backpressure.thy ===== *)
theory Backpressure
  imports Task_Types
begin

text \<open>
  Backpressure (\<open>src/src/backpressure.rs\<close>): the aggregate of the pressure sources and the
  policy that maps it to a decision per priority. A source is its name and the pressure it
  currently reports; \<open>f32\<close> values are exact rationals.
\<close>

section \<open>Definitions\<close>

record throttle_policy =
  thresholds :: "(priority \<times> rat) list"

definition throttle_new :: "(priority \<times> rat) list \<Rightarrow> throttle_policy" where
  "throttle_new ts = \<lparr>thresholds = ts\<rparr>"

definition default_three_tier :: throttle_policy where
  "default_three_tier = \<lparr>thresholds = [(BACKGROUND, 50 / 100), (NORMAL, 75 / 100)]\<rparr>"

fun exceeds_any :: "(priority \<times> rat) list \<Rightarrow> priority \<Rightarrow> rat \<Rightarrow> bool" where
  "exceeds_any [] p pressure = False"
| "exceeds_any ((threshold_priority, pressure_limit) # ts) p pressure =
     (if pvalue threshold_priority \<le> pvalue p \<and> pressure > pressure_limit then True
      else exceeds_any ts p pressure)"

definition should_throttle :: "throttle_policy \<Rightarrow> priority \<Rightarrow> rat \<Rightarrow> bool" where
  "should_throttle policy p pressure = exceeds_any (thresholds policy) p pressure"

record pressure_source =
  source_name :: string
  source_pressure :: rat

type_synonym composite_pressure = "pressure_source list"

definition add_source :: "composite_pressure \<Rightarrow> pressure_source \<Rightarrow> composite_pressure" where
  "add_source c s = c @ [s]"

definition aggregate_pressure :: "composite_pressure \<Rightarrow> rat" where
  "aggregate_pressure c = fold (\<lambda>s m. max m (source_pressure s)) c 0"

definition pressure_breakdown :: "composite_pressure \<Rightarrow> (string \<times> rat) list" where
  "pressure_breakdown c = map (\<lambda>s. (source_name s, source_pressure s)) c"

section \<open>Properties\<close>

lemma exceeds_any_iff:
  "exceeds_any ts p x \<longleftrightarrow> (\<exists>(q, limit) \<in> set ts. p \<le> q \<and> limit < x)"
  by (induction ts) (auto simp: priority_le_iff)

lemma less_aggregate_pressure:
  "x < aggregate_pressure c \<longleftrightarrow> x < 0 \<or> (\<exists>s \<in> set c. x < source_pressure s)"
proof -
  have "x < fold (\<lambda>s m. max m (source_pressure s)) c m \<longleftrightarrow> x < m \<or> (\<exists>s \<in> set c. x < source_pressure s)" for m
    by (induction c arbitrary: m) (auto simp: less_max_iff_disj)
  then show ?thesis by (simp add: aggregate_pressure_def)
qed

text \<open>C33: a task is throttled exactly when a single source exceeds a limit that applies to its
  priority; so a task of lower priority is throttled whenever one of higher priority is,
  and a further source never lifts a throttle.\<close>

theorem throttle_by_worst_source:
  assumes "\<forall>(q, limit) \<in> set (thresholds policy). 0 \<le> limit"
  shows "(should_throttle policy p (aggregate_pressure c)
      \<longleftrightarrow> (\<exists>s \<in> set c. \<exists>(q, limit) \<in> set (thresholds policy). p \<le> q \<and> limit < source_pressure s))
    \<and> (should_throttle policy p (aggregate_pressure c) \<longrightarrow> p' \<le> p
        \<longrightarrow> should_throttle policy p' (aggregate_pressure (add_source c s')))"
proof -
  have "should_throttle policy p (aggregate_pressure c)
      \<longleftrightarrow> (\<exists>(q, limit) \<in> set (thresholds policy). p \<le> q \<and> (\<exists>s \<in> set c. limit < source_pressure s))" for p c
    using assms by (fastforce simp: should_throttle_def exceeds_any_iff less_aggregate_pressure)
  then show ?thesis by (fastforce simp: add_source_def)
qed

theorem throttle_by_worst_source_witness:
  "should_throttle default_three_tier NORMAL (aggregate_pressure [\<lparr>source_name = ''a'', source_pressure = 8 / 10\<rparr>])
   \<and> should_throttle default_three_tier IDLE (aggregate_pressure
       (add_source [\<lparr>source_name = ''a'', source_pressure = 8 / 10\<rparr>] \<lparr>source_name = ''b'', source_pressure = 0\<rparr>))
   \<and> \<not> should_throttle default_three_tier HIGH 1"
proof -
  have limits: "\<forall>(q, limit) \<in> set (thresholds default_three_tier). 0 \<le> limit" by (simp add: default_three_tier_def)
  have n: "should_throttle default_three_tier NORMAL (aggregate_pressure [\<lparr>source_name = ''a'', source_pressure = 8 / 10\<rparr>])"
    and h: "\<not> should_throttle default_three_tier HIGH 1" and le: "IDLE \<le> NORMAL"
    by code_simp+
  from throttle_by_worst_source [OF limits, THEN conjunct2] n h le show ?thesis by blast
qed

end
