(* ===== verification/Resource.thy ===== *)
theory Resource
  imports Prelude
begin

text \<open>
  Resource monitoring (\<open>src/src/resource\<close>): the snapshot, the exponentially weighted
  moving average the sampler loop keeps of it, the rates the platform sampler derives from
  two readings, and the pressure of network use. \<open>f64\<close> values are exact rationals. What the
  \<open>sysinfo\<close> crate reports (CPU use, and per device or interface a pair of byte counts) is
  an argument of the sampling step.
\<close>

section \<open>Snapshots\<close>

record resource_snapshot =
  cpu_usage :: rat
  io_read_bytes_per_sec :: rat
  io_write_bytes_per_sec :: rat
  net_rx_bytes_per_sec :: rat
  net_tx_bytes_per_sec :: rat

definition resource_default :: resource_snapshot where
  "resource_default = \<lparr>cpu_usage = 0, io_read_bytes_per_sec = 0, io_write_bytes_per_sec = 0,
     net_rx_bytes_per_sec = 0, net_tx_bytes_per_sec = 0\<rparr>"

section \<open>Smoothing\<close>

record sampler_config =
  sc_interval :: duration
  ewma_alpha :: rat

definition sampler_default :: sampler_config where
  "sampler_default = \<lparr>sc_interval = from_secs 1, ewma_alpha = 3 / 10\<rparr>"

definition ewma :: "rat \<Rightarrow> rat \<Rightarrow> rat \<Rightarrow> rat" where
  "ewma old raw alpha = (if old = 0 then raw else alpha * raw + (1 - alpha) * old)"

text \<open>One tick of \<open>run_sampler\<close>: the new smoothed snapshot, which the reader then holds.\<close>

definition sampler_tick :: "sampler_config \<Rightarrow> resource_snapshot \<Rightarrow> resource_snapshot \<Rightarrow> resource_snapshot" where
  "sampler_tick config smoothed raw =
     \<lparr>cpu_usage = ewma (cpu_usage smoothed) (cpu_usage raw) (ewma_alpha config),
      io_read_bytes_per_sec = ewma (io_read_bytes_per_sec smoothed) (io_read_bytes_per_sec raw) (ewma_alpha config),
      io_write_bytes_per_sec = ewma (io_write_bytes_per_sec smoothed) (io_write_bytes_per_sec raw) (ewma_alpha config),
      net_rx_bytes_per_sec = ewma (net_rx_bytes_per_sec smoothed) (net_rx_bytes_per_sec raw) (ewma_alpha config),
      net_tx_bytes_per_sec = ewma (net_tx_bytes_per_sec smoothed) (net_tx_bytes_per_sec raw) (ewma_alpha config)\<rparr>"

text \<open>The ticks of \<open>run_sampler\<close> until the token is cancelled, one raw sample each.\<close>

definition run_sampler :: "sampler_config \<Rightarrow> resource_snapshot list \<Rightarrow> resource_snapshot" where
  "run_sampler config raws = fold (\<lambda>raw smoothed. sampler_tick config smoothed raw) raws resource_default"

text \<open>\<open>SmoothedReader::latest\<close>: the default snapshot while the writer holds the lock.\<close>

definition reader_latest :: "bool \<Rightarrow> resource_snapshot \<Rightarrow> resource_snapshot" where
  "reader_latest locked held = (if locked then resource_default else held)"

section \<open>The platform sampler\<close>

record sysinfo_sampler =
  prev_read_bytes :: nat
  prev_write_bytes :: nat
  prev_net_rx_bytes :: nat
  prev_net_tx_bytes :: nat
  prev_sample :: "int option"

text \<open>\<open>disk_totals\<close> and \<open>network_totals\<close>: the sums over all devices, in \<open>u64\<close>.\<close>

definition byte_totals :: "(nat \<times> nat) list \<Rightarrow> nat \<times> nat" where
  "byte_totals usages = (sum_list (map fst usages), sum_list (map snd usages))"

definition per_second_rate :: "rat \<Rightarrow> nat \<Rightarrow> nat \<Rightarrow> rat" where
  "per_second_rate elapsed current previous = of_nat (current - previous) / elapsed"

definition sysinfo_sample ::
    "int \<Rightarrow> rat \<Rightarrow> (nat \<times> nat) list \<Rightarrow> (nat \<times> nat) list \<Rightarrow> sysinfo_sampler \<Rightarrow> sysinfo_sampler \<times> resource_snapshot" where
  "sysinfo_sample now cpu_percent disks networks s =
     (let (read_bytes, write_bytes) = byte_totals disks;
          (rx_bytes, tx_bytes) = byte_totals networks;
          elapsed = (case prev_sample s of None \<Rightarrow> 0 | Some prev \<Rightarrow> of_int (max 0 (now - prev)) / 1000000000);
          rate = (\<lambda>current previous. if elapsed > 0 then per_second_rate elapsed current previous else 0)
      in (\<lparr>prev_read_bytes = read_bytes, prev_write_bytes = write_bytes, prev_net_rx_bytes = rx_bytes,
           prev_net_tx_bytes = tx_bytes, prev_sample = Some now\<rparr>,
          \<lparr>cpu_usage = cpu_percent / 100,
           io_read_bytes_per_sec = rate read_bytes (prev_read_bytes s),
           io_write_bytes_per_sec = rate write_bytes (prev_write_bytes s),
           net_rx_bytes_per_sec = rate rx_bytes (prev_net_rx_bytes s),
           net_tx_bytes_per_sec = rate tx_bytes (prev_net_tx_bytes s)\<rparr>))"

section \<open>Network pressure\<close>

text \<open>\<open>NetworkPressure::new\<close> asserts a positive limit; the pressure is capped at 1.\<close>

definition network_pressure_new :: "rat \<Rightarrow> rat option" where
  "network_pressure_new max_bps = (if max_bps > 0 then Some max_bps else None)"

definition network_pressure :: "rat \<Rightarrow> resource_snapshot \<Rightarrow> rat" where
  "network_pressure max_bps snap = min ((net_rx_bytes_per_sec snap + net_tx_bytes_per_sec snap) / max_bps) 1"

section \<open>Properties of the average\<close>

lemma ewma_between:
  assumes "0 \<le> alpha" "alpha \<le> 1" "lo \<le> old" "old \<le> hi" "lo \<le> raw" "raw \<le> hi"
  shows "lo \<le> ewma old raw alpha" and "ewma old raw alpha \<le> hi"
  using assms convex_bound_le [of raw hi old alpha "1 - alpha"]
    convex_bound_le [of "- raw" "- lo" "- old" alpha "1 - alpha"]
  by (auto simp: ewma_def)

lemma ewma_error:
  assumes "0 \<le> alpha" "alpha \<le> 1"
  shows "\<bar>ewma old v alpha - v\<bar> \<le> (1 - alpha) * \<bar>old - v\<bar>"
proof (cases "old = 0")
  case False
  have "ewma old v alpha - v = (1 - alpha) * (old - v)" using False by (simp add: ewma_def algebra_simps)
  then show ?thesis using assms by (simp add: abs_mult)
qed (use assms in \<open>simp add: ewma_def\<close>)

text \<open>The quantity one field of the snapshot holds after a list of raw samples.\<close>

definition smooth :: "rat \<Rightarrow> rat list \<Rightarrow> rat \<Rightarrow> rat" where
  "smooth alpha raws old = fold (\<lambda>raw old. ewma old raw alpha) raws old"

lemma run_sampler_fields:
  "net_rx_bytes_per_sec (run_sampler config raws) = smooth (ewma_alpha config) (map net_rx_bytes_per_sec raws) 0"
  "net_tx_bytes_per_sec (run_sampler config raws) = smooth (ewma_alpha config) (map net_tx_bytes_per_sec raws) 0"
  "io_read_bytes_per_sec (run_sampler config raws) = smooth (ewma_alpha config) (map io_read_bytes_per_sec raws) 0"
  "io_write_bytes_per_sec (run_sampler config raws) = smooth (ewma_alpha config) (map io_write_bytes_per_sec raws) 0"
  "cpu_usage (run_sampler config raws) = smooth (ewma_alpha config) (map cpu_usage raws) 0"
  by (induction raws rule: rev_induct)
     (simp_all add: run_sampler_def smooth_def sampler_tick_def resource_default_def)

lemma smooth_error:
  assumes "0 \<le> alpha" "alpha \<le> 1"
  shows "\<bar>smooth alpha (replicate n v) old - v\<bar> \<le> (1 - alpha) ^ n * \<bar>old - v\<bar>"
proof (induction n arbitrary: old)
  case (Suc n)
  have "\<bar>smooth alpha (replicate (Suc n) v) old - v\<bar> \<le> (1 - alpha) ^ n * \<bar>ewma old v alpha - v\<bar>"
    using Suc.IH by (simp add: smooth_def)
  also have "\<dots> \<le> (1 - alpha) ^ n * ((1 - alpha) * \<bar>old - v\<bar>)"
    using ewma_error [OF assms] assms by (intro mult_left_mono) auto
  finally show ?case by (simp add: ac_simps)
qed (simp add: smooth_def)

lemma smooth_between:
  assumes "0 \<le> alpha" "alpha \<le> 1" "\<forall>raw \<in> set raws. lo \<le> raw \<and> raw \<le> hi" "lo \<le> old" "old \<le> hi"
  shows "lo \<le> smooth alpha raws old \<and> smooth alpha raws old \<le> hi"
  using assms
proof (induction raws arbitrary: old)
  case (Cons raw raws)
  then have "lo \<le> ewma old raw alpha \<and> ewma old raw alpha \<le> hi" by (simp add: ewma_between)
  with Cons show ?case by (simp add: smooth_def)
qed (simp add: smooth_def)

lemma smooth_append: "smooth alpha (xs @ ys) old = smooth alpha ys (smooth alpha xs old)"
  by (simp add: smooth_def)



end
