(* ===== verification/Dispatch_Gate.thy ===== *)
theory Dispatch_Gate
  imports Store_Query Rate_Limit Backpressure Resource
begin

text \<open>
  Admission control (\<open>src/src/scheduler/gate.rs\<close>) with the counters it increments
  (\<open>src/src/scheduler/counters.rs\<close>). The gate reads the store, the resource snapshot, the
  limits and the set of paused groups, and it changes the token buckets and the counters,
  which are therefore returned. The counters are 64-bit in the code; their wrap-around after
  \<open>2 ^ 64\<close> events is not modelled. A read query of the store does not fail here.
\<close>

section \<open>Counters\<close>

record scheduler_counters =
  submitted :: nat
  dispatched :: nat
  completed :: nat
  failed :: nat
  failed_retryable :: nat
  retried :: nat
  dead_lettered :: nat
  superseded :: nat
  cancelled :: nat
  expired :: nat
  preempted :: nat
  batches_submitted :: nat
  gate_denials :: nat
  rate_limit_throttles :: nat
  group_pauses :: nat
  group_resumes :: nat
  dependency_failures :: nat
  recurring_skipped :: nat

definition counters_new :: scheduler_counters where
  "counters_new = \<lparr>submitted = 0, dispatched = 0, completed = 0, failed = 0, failed_retryable = 0, retried = 0,
     dead_lettered = 0, superseded = 0, cancelled = 0, expired = 0, preempted = 0, batches_submitted = 0,
     gate_denials = 0, rate_limit_throttles = 0, group_pauses = 0, group_resumes = 0,
     dependency_failures = 0, recurring_skipped = 0\<rparr>"

section \<open>Group limits\<close>

record group_limits =
  gl_default :: nat
  gl_overrides :: "(string, nat) assoc"

definition group_limits_new :: group_limits where
  "group_limits_new = \<lparr>gl_default = 0, gl_overrides = []\<rparr>"

definition limit_for :: "group_limits \<Rightarrow> string \<Rightarrow> nat option" where
  "limit_for l g =
     (case map_of (gl_overrides l) g of
        Some n \<Rightarrow> Some n
      | None \<Rightarrow> if gl_default l > 0 then Some (gl_default l) else None)"

definition set_limit :: "string \<Rightarrow> nat \<Rightarrow> group_limits \<Rightarrow> group_limits" where
  "set_limit g n l = l\<lparr>gl_overrides := AList.update g n (gl_overrides l)\<rparr>"

definition remove_limit :: "string \<Rightarrow> group_limits \<Rightarrow> group_limits" where
  "remove_limit g l = l\<lparr>gl_overrides := AList.delete g (gl_overrides l)\<rparr>"

definition set_default_limit :: "nat \<Rightarrow> group_limits \<Rightarrow> group_limits" where
  "set_default_limit n l = l\<lparr>gl_default := n\<rparr>"

definition has_overrides :: "group_limits \<Rightarrow> bool" where
  "has_overrides l \<longleftrightarrow> gl_overrides l \<noteq> []"

section \<open>The gate\<close>

datatype admission = Admit | Deny | RateLimited instant

record gate_context =
  gc_store :: task_store
  gc_resource :: "resource_snapshot option"
  gc_group_limits :: "group_limits option"
  gc_module_caps :: "(string, nat) assoc"
  gc_module_running :: "(string, nat) assoc"
  gc_paused_groups :: "string list"
  gc_type_rate_limits :: rate_limits
  gc_group_rate_limits :: rate_limits
  gc_skip_group_concurrency :: bool
  gc_counters :: scheduler_counters

record default_gate =
  dg_pressure :: composite_pressure
  dg_policy :: throttle_policy

text \<open>The budget rule both IO checks share: the running total and the task's own bytes may
  use 80 percent of what the observed rate moves in two seconds.\<close>

definition within_budget :: "rat \<Rightarrow> int \<Rightarrow> int \<Rightarrow> bool" where
  "within_budget per_sec running expected \<longleftrightarrow>
     per_sec * 2 = 0 \<or> of_int (running + expected) \<le> per_sec * 2 * (8 / 10)"

definition has_io_headroom :: "task_record \<Rightarrow> gate_context \<Rightarrow> bool" where
  "has_io_headroom task ctx =
     (case gc_resource ctx of
        None \<Rightarrow> True
      | Some snap \<Rightarrow>
          if io_read_bytes_per_sec snap = 0 \<and> io_write_bytes_per_sec snap = 0 then True
          else let (running_read, running_write) = running_io_totals (st_db (gc_store ctx))
               in within_budget (io_read_bytes_per_sec snap) running_read (disk_read (t_expected_io task))
                  \<and> within_budget (io_write_bytes_per_sec snap) running_write (disk_write (t_expected_io task)))"

definition has_net_io_headroom :: "task_record \<Rightarrow> gate_context \<Rightarrow> bool" where
  "has_net_io_headroom task ctx =
     (if net_rx (t_expected_io task) = 0 \<and> net_tx (t_expected_io task) = 0 then True
      else case gc_resource ctx of
        None \<Rightarrow> True
      | Some snap \<Rightarrow>
          if net_rx_bytes_per_sec snap = 0 \<and> net_tx_bytes_per_sec snap = 0 then True
          else let (running_rx, running_tx) = running_net_io_totals (st_db (gc_store ctx))
               in within_budget (net_rx_bytes_per_sec snap) running_rx (net_rx (t_expected_io task))
                  \<and> within_budget (net_tx_bytes_per_sec snap) running_tx (net_tx (t_expected_io task)))"

definition group_paused_at_gate :: "task_record \<Rightarrow> gate_context \<Rightarrow> bool" where
  "group_paused_at_gate task ctx =
     (case t_group_key task of None \<Rightarrow> False | Some g \<Rightarrow> g \<in> set (gc_paused_groups ctx))"

definition group_saturated :: "task_record \<Rightarrow> gate_context \<Rightarrow> bool" where
  "group_saturated task ctx =
     (if gc_skip_group_concurrency ctx then False
      else case t_group_key task of
        None \<Rightarrow> False
      | Some g \<Rightarrow>
          (case gc_group_limits ctx of
             None \<Rightarrow> False
           | Some limits \<Rightarrow>
               (case limit_for limits g of
                  None \<Rightarrow> False
                | Some limit \<Rightarrow> running_count_for_group g (st_db (gc_store ctx)) \<ge> limit)))"

definition module_saturated :: "task_record \<Rightarrow> gate_context \<Rightarrow> bool" where
  "module_saturated task ctx =
     (case task_module_name task of
        None \<Rightarrow> False
      | Some name \<Rightarrow>
          (case map_of (gc_module_caps ctx) name of
             None \<Rightarrow> False
           | Some cap \<Rightarrow> (case map_of (gc_module_running ctx) name of None \<Rightarrow> 0 | Some n \<Rightarrow> n) \<ge> cap))"

definition count_denial :: "gate_context \<Rightarrow> gate_context" where
  "count_denial ctx = ctx\<lparr>gc_counters := (gc_counters ctx)\<lparr>gate_denials := gate_denials (gc_counters ctx) + 1\<rparr>\<rparr>"

definition count_throttle :: "gate_context \<Rightarrow> gate_context" where
  "count_throttle ctx =
     (count_denial ctx)\<lparr>gc_counters := (gc_counters (count_denial ctx))
        \<lparr>rate_limit_throttles := rate_limit_throttles (gc_counters ctx) + 1\<rparr>\<rparr>"

definition acquire_group :: "instant \<Rightarrow> task_record \<Rightarrow> gate_context \<Rightarrow> gate_context \<times> admission" where
  "acquire_group now task ctx =
     (case t_group_key task of
        None \<Rightarrow> (ctx, Admit)
      | Some g \<Rightarrow>
          (let (m, r) = acquire_scope now g (gc_group_rate_limits ctx);
               ctx' = ctx\<lparr>gc_group_rate_limits := m\<rparr>
           in case r of Some (Inl next) \<Rightarrow> (count_throttle ctx', RateLimited next) | _ \<Rightarrow> (ctx', Admit)))"

definition acquire_tokens :: "instant \<Rightarrow> task_record \<Rightarrow> gate_context \<Rightarrow> gate_context \<times> admission" where
  "acquire_tokens now task ctx =
     (let (m, r) = acquire_scope now (t_task_type task) (gc_type_rate_limits ctx);
          ctx' = ctx\<lparr>gc_type_rate_limits := m\<rparr>
      in case r of
           Some (Inl next) \<Rightarrow> (count_throttle ctx', RateLimited next)
         | _ \<Rightarrow> acquire_group now task ctx')"

definition admit :: "default_gate \<Rightarrow> instant \<Rightarrow> task_record \<Rightarrow> gate_context \<Rightarrow> gate_context \<times> admission" where
  "admit gate now task ctx =
     (if should_throttle (dg_policy gate) (t_priority task) (aggregate_pressure (dg_pressure gate))
      then (count_denial ctx, Deny)
      else if \<not> has_io_headroom task ctx then (count_denial ctx, Deny)
      else if \<not> has_net_io_headroom task ctx then (count_denial ctx, Deny)
      else if group_paused_at_gate task ctx then (count_denial ctx, Deny)
      else if group_saturated task ctx then (count_denial ctx, Deny)
      else if module_saturated task ctx then (count_denial ctx, Deny)
      else acquire_tokens now task ctx)"

section \<open>What admission guarantees\<close>

definition gate_open :: "default_gate \<Rightarrow> task_record \<Rightarrow> gate_context \<Rightarrow> bool" where
  "gate_open gate task ctx \<longleftrightarrow>
     \<not> should_throttle (dg_policy gate) (t_priority task) (aggregate_pressure (dg_pressure gate))
     \<and> has_io_headroom task ctx \<and> has_net_io_headroom task ctx \<and> \<not> group_paused_at_gate task ctx
     \<and> \<not> group_saturated task ctx \<and> \<not> module_saturated task ctx"

text \<open>The tokens of a scope, if it is limited, after the clock has been read.\<close>

definition tokens :: "instant \<Rightarrow> string \<Rightarrow> rate_limits \<Rightarrow> rat option" where
  "tokens now scope m = map_option (\<lambda>b. available (refill now b)) (map_of m scope)"

lemma admit_eq: "admit gate now task ctx =
    (if gate_open gate task ctx then acquire_tokens now task ctx else (count_denial ctx, Deny))"
  by (simp add: admit_def gate_open_def)


definition spend :: "instant \<Rightarrow> token_bucket \<Rightarrow> token_bucket" where
  "spend now b = (refill now b)\<lparr>available := available (refill now b) - 1\<rparr>"

definition has_token :: "instant \<Rightarrow> string \<Rightarrow> rate_limits \<Rightarrow> bool" where
  "has_token now scope m \<longleftrightarrow> (case tokens now scope m of None \<Rightarrow> True | Some x \<Rightarrow> 1 \<le> x)"

lemma acquire_scope_cases:
  obtains (granted) m' r where "acquire_scope now scope m = (m', r)" and "has_token now scope m"
      and "\<forall>nxt. r \<noteq> Some (Inl nxt)" and "map_of m' = (map_of m)(scope := map_option (spend now) (map_of m scope))"
  | (denied) m' nxt where "acquire_scope now scope m = (m', Some (Inl nxt))" and "\<not> has_token now scope m"
proof (cases "map_of m scope")
  case None
  then have "(map_of m)(scope := map_option (spend now) (map_of m scope)) = map_of m" by auto
  with None show ?thesis by (intro granted [of m None]) (simp_all add: acquire_scope_def has_token_def tokens_def)
next
  case (Some b)
  show ?thesis
  proof (cases "1 \<le> available (refill now b)")
    case True
    with Some show ?thesis
      by (intro granted [of "AList.update scope (spend now b) m" "Some (Inr ())"])
        (simp_all add: acquire_scope_def has_token_def tokens_def try_acquire_def Let_def spend_def update_conv')
  next
    case False
    with Some show ?thesis
      by (intro denied [of "AList.update scope (refill now b) m" "now + wait_nanos (refill now b)"])
        (simp_all add: acquire_scope_def has_token_def tokens_def try_acquire_def Let_def)
  qed
qed

lemma count_fields [simp]:
  "gate_denials (gc_counters (count_denial ctx)) = gate_denials (gc_counters ctx) + 1"
  "gate_denials (gc_counters (count_throttle ctx)) = gate_denials (gc_counters ctx) + 1"
  by (simp_all add: count_denial_def count_throttle_def)


definition open_gate :: default_gate where
  "open_gate = \<lparr>dg_pressure = [], dg_policy = default_three_tier\<rparr>"

definition gate_example :: gate_context where
  "gate_example = \<lparr>gc_store = open_memory, gc_resource = None, gc_group_limits = Some group_limits_new,
     gc_module_caps = [(''m'', 1)], gc_module_running = [], gc_paused_groups = [''h''],
     gc_type_rate_limits = [(''m::t'', bucket_new 0 \<lparr>permits = 1, interval = 10, burst = 1\<rparr>)],
     gc_group_rate_limits = [(''g'', bucket_new 0 \<lparr>permits = 1, interval = 10, burst = 0\<rparr>)],
     gc_skip_group_concurrency = False, gc_counters = counters_new\<rparr>"


text \<open>A task that fails the limit of its group has already taken a token of its type.\<close>

lemma token_wasted:
  "snd (admit open_gate 5 ((sample_row 1 ''k'' Pending)\<lparr>t_task_type := ''m::t'', t_group_key := Some ''g''\<rparr>) gate_example)
     = RateLimited 15
   \<and> map_option available (map_of (gc_type_rate_limits (fst (admit open_gate 5
        ((sample_row 1 ''k'' Pending)\<lparr>t_task_type := ''m::t'', t_group_key := Some ''g''\<rparr>) gate_example))) ''m::t'') = Some 0"
  by code_simp

end
