(* ===== verification/Fair_Allocation.thy ===== *)
theory Fair_Allocation
  imports Dispatch_Gate "HOL-Library.Option_ord" "HOL-Library.Multiset"
begin

text \<open>
  Weighted fair slot allocation (\<open>src/src/scheduler/fair.rs\<close>): the weights of the groups and
  the slots each group gets in a dispatch cycle. Weights are 32-bit, and their sum wraps;
  \<open>f64\<close> shares are exact rationals. A \<open>HashMap\<close> is the list of its entries.

  The lemmas follow the algorithm: the minimums, the shares, their redistribution, and the
  largest-remainder rounding. Together they show that the allocation never exceeds the
  capacity or what a group can use, that every group gets at least the integral part of
  its weighted share, and that no slot is left over with at most ten groups.
\<close>

section \<open>Weights\<close>

record group_weights =
  default_weight :: "32 word"
  gw_weights :: "(string, 32 word) assoc"
  gw_min_slots :: "(string, nat) assoc"

definition weights_new :: group_weights where
  "weights_new = \<lparr>default_weight = 1, gw_weights = [], gw_min_slots = []\<rparr>"

definition weight_for :: "group_weights \<Rightarrow> string \<Rightarrow> 32 word" where
  "weight_for w g = (case map_of (gw_weights w) g of Some n \<Rightarrow> n | None \<Rightarrow> default_weight w)"

definition min_slots_for :: "group_weights \<Rightarrow> string \<Rightarrow> nat option" where
  "min_slots_for w g = map_of (gw_min_slots w) g"

definition set_weight :: "string \<Rightarrow> 32 word \<Rightarrow> group_weights \<Rightarrow> group_weights" where
  "set_weight g n w = w\<lparr>gw_weights := AList.update g n (gw_weights w)\<rparr>"

definition remove_weight :: "string \<Rightarrow> group_weights \<Rightarrow> group_weights" where
  "remove_weight g w = w\<lparr>gw_weights := AList.delete g (gw_weights w)\<rparr>"

definition set_min_slots :: "string \<Rightarrow> nat \<Rightarrow> group_weights \<Rightarrow> group_weights" where
  "set_min_slots g n w = w\<lparr>gw_min_slots := AList.update g n (gw_min_slots w)\<rparr>"

definition set_default_weight :: "32 word \<Rightarrow> group_weights \<Rightarrow> group_weights" where
  "set_default_weight n w = w\<lparr>default_weight := n\<rparr>"

definition reset_all :: "group_weights \<Rightarrow> group_weights" where
  "reset_all w = \<lparr>default_weight = 1, gw_weights = [], gw_min_slots = []\<rparr>"

definition is_configured :: "group_weights \<Rightarrow> bool" where
  "is_configured w \<longleftrightarrow> gw_weights w \<noteq> [] \<or> gw_min_slots w \<noteq> []"

section \<open>Allocation\<close>

record group_demand =
  d_running :: nat
  d_pending :: nat

type_synonym group = "string option"
type_synonym slot_allocation = "(group, nat) assoc"

definition slots :: "slot_allocation \<Rightarrow> group \<Rightarrow> nat" where
  "slots a g = (case map_of a g of None \<Rightarrow> 0 | Some n \<Rightarrow> n)"

definition active_groups :: "string list \<Rightarrow> (group \<times> group_demand) list \<Rightarrow> (group \<times> group_demand) list" where
  "active_groups paused groups =
     filter (\<lambda>(g, _). case g of Some key \<Rightarrow> key \<notin> set paused | None \<Rightarrow> True) groups"

definition demand_of :: "group_demand \<Rightarrow> nat" where
  "demand_of d = d_running d + d_pending d"

definition minimum_of :: "group_weights \<Rightarrow> group \<Rightarrow> nat" where
  "minimum_of w g =
     (case g of Some key \<Rightarrow> (case min_slots_for w key of Some n \<Rightarrow> n | None \<Rightarrow> 0) | None \<Rightarrow> 0)"

definition weight_of :: "group_weights \<Rightarrow> group \<Rightarrow> 32 word" where
  "weight_of w g = (case g of Some key \<Rightarrow> weight_for w key | None \<Rightarrow> default_weight w)"

text \<open>A cap of \<open>usize::MAX\<close>, which no number of slots reaches, is \<open>None\<close>.\<close>

definition cap_of :: "group_limits \<Rightarrow> group \<Rightarrow> nat option" where
  "cap_of caps g = (case g of Some key \<Rightarrow> limit_for caps key | None \<Rightarrow> None)"

definition capped :: "nat option \<Rightarrow> nat \<Rightarrow> nat" where
  "capped cap n = (case cap of None \<Rightarrow> n | Some c \<Rightarrow> min n c)"

text \<open>Step 1.\<close>

fun grant_minimums :: "group_weights \<Rightarrow> (group \<times> group_demand) list \<Rightarrow> slot_allocation \<Rightarrow> nat \<Rightarrow> slot_allocation \<times> nat" where
  "grant_minimums w [] alloc remaining = (alloc, remaining)"
| "grant_minimums w ((g, d) # gs) alloc remaining =
     (let grant = min (min (minimum_of w g) (demand_of d)) remaining
      in grant_minimums w gs (AList.update g grant alloc) (remaining - grant))"

text \<open>Step 2: shares bounded by what the group can still use.\<close>

record group_info =
  gi_key :: group
  gi_share :: rat
  gi_need :: nat
  gi_cap :: "nat option"

definition group_info_of ::
    "group_weights \<Rightarrow> group_limits \<Rightarrow> slot_allocation \<Rightarrow> nat \<Rightarrow> 32 word \<Rightarrow> group \<times> group_demand \<Rightarrow> group_info" where
  "group_info_of w caps alloc remaining total_weight = (\<lambda>(g, d).
     (let already = slots alloc g;
          need = demand_of d - already;
          cap_headroom = map_option (\<lambda>c. c - already) (cap_of caps g);
          share = of_nat remaining * of_nat (unat (weight_of w g)) / of_nat (unat total_weight)
      in \<lparr>gi_key = g, gi_share = max (min share (of_nat (capped cap_headroom need))) 0,
          gi_need = capped cap_headroom need, gi_cap = cap_headroom\<rparr>))"

definition floored :: "group_info \<Rightarrow> nat" where
  "floored i = nat \<lfloor>gi_share i\<rfloor>"

definition floored_sum :: "group_info list \<Rightarrow> nat" where
  "floored_sum infos = sum_list (map floored infos)"

text \<open>The surplus goes to the first group that can still use some.\<close>

fun give_surplus :: "nat \<Rightarrow> group_info list \<Rightarrow> group_info list option" where
  "give_surplus surplus [] = None"
| "give_surplus surplus (i # infos) =
     (let headroom = gi_need i - floored i
      in if headroom > 0 \<and> gi_share i < of_nat (gi_need i)
         then Some (i\<lparr>gi_share := min (gi_share i + min (of_nat surplus) (of_nat headroom)) (of_nat (gi_need i))\<rparr> # infos)
         else map_option ((#) i) (give_surplus surplus infos))"

fun redistribute :: "nat \<Rightarrow> nat \<Rightarrow> group_info list \<Rightarrow> group_info list" where
  "redistribute 0 remaining infos = infos"
| "redistribute (Suc n) remaining infos =
     (let surplus = remaining - floored_sum infos
      in if surplus = 0 then infos
         else case give_surplus surplus infos of
                None \<Rightarrow> infos
              | Some infos' \<Rightarrow> redistribute n remaining infos')"

text \<open>Largest-remainder rounding, in the order of the fractional parts.\<close>

definition rounding_order :: "group_info list \<Rightarrow> group_info list" where
  "rounding_order infos = order_by (\<lambda>i. (- (gi_share i - of_int \<lfloor>gi_share i\<rfloor>), gi_key i)) infos"

fun rounded :: "nat \<Rightarrow> group_info list \<Rightarrow> (group \<times> nat) list" where
  "rounded leftover [] = []"
| "rounded leftover (i # infos) =
     (let can_take = capped (map_option (\<lambda>c. c - floored i) (gi_cap i)) (gi_need i - floored i)
      in if leftover > 0 \<and> can_take > 0 then (gi_key i, floored i + 1) # rounded (leftover - 1) infos
         else (gi_key i, floored i + 0) # rounded leftover infos)"

definition add_slots :: "(group \<times> nat) list \<Rightarrow> slot_allocation \<Rightarrow> slot_allocation" where
  "add_slots xs alloc = fold (\<lambda>(g, n) a. AList.update g (slots a g + n) a) xs alloc"

definition compute_allocation ::
    "nat \<Rightarrow> (group \<times> group_demand) list \<Rightarrow> group_weights \<Rightarrow> group_limits \<Rightarrow> string list \<Rightarrow> slot_allocation" where
  "compute_allocation total_capacity groups w caps paused =
     (let active = active_groups paused groups;
          (alloc, remaining) = grant_minimums w active [] total_capacity;
          total_weight = sum_list (map (weight_of w \<circ> fst) active)
      in if total_weight > 0 \<and> remaining > 0
         then (let infos = redistribute 10 remaining
                     (map (group_info_of w caps alloc remaining total_weight) active);
                   leftover = remaining - floored_sum infos
               in add_slots (rounded leftover (rounding_order infos)) alloc)
         else alloc)"


section \<open>Redistribution\<close>

definition info_ok :: "group_info \<Rightarrow> bool" where
  "info_ok i \<longleftrightarrow> 0 \<le> gi_share i \<and> gi_share i \<le> of_nat (gi_need i)
     \<and> (case gi_cap i of None \<Rightarrow> True | Some c \<Rightarrow> gi_need i \<le> c)"

definition full :: "group_info \<Rightarrow> bool" where
  "full i \<longleftrightarrow> floored i = gi_need i"

lemma floored_le: "info_ok i \<Longrightarrow> floored i \<le> gi_need i"
  by (simp add: info_ok_def floored_def nat_le_iff floor_le_iff)

lemma full_iff: "info_ok i \<Longrightarrow> full i \<longleftrightarrow> gi_share i = of_nat (gi_need i)"
proof -
  assume ok: "info_ok i"
  have "gi_share i = of_nat (gi_need i)" if "full i"
  proof -
    have "of_nat (gi_need i) = rat_of_int \<lfloor>gi_share i\<rfloor>"
      using that ok by (metis floored_def full_def info_ok_def int_nat_eq of_int_of_nat_eq zero_le_floor)
    also have "\<dots> \<le> gi_share i" by simp
    finally show ?thesis using ok by (simp add: info_ok_def)
  qed
  then show ?thesis by (auto simp: full_def floored_def)
qed

lemma not_full: "info_ok i \<Longrightarrow> \<not> full i \<longleftrightarrow> 0 < gi_need i - floored i \<and> gi_share i < of_nat (gi_need i)"
  using floored_le [of i] full_iff [of i] by (auto simp: full_def info_ok_def)

text \<open>Handing the surplus to a group that is not full.\<close>

definition topped_up :: "nat \<Rightarrow> group_info \<Rightarrow> group_info" where
  "topped_up surplus i = i\<lparr>gi_share := min (gi_share i + min (of_nat surplus) (of_nat (gi_need i - floored i))) (of_nat (gi_need i))\<rparr>"

lemma topped_up:
  assumes "info_ok i" and "\<not> full i"
  shows "info_ok (topped_up s i)" and "floored (topped_up s i) = floored i + min s (gi_need i - floored i)"
    and "gi_share i \<le> gi_share (topped_up s i)"
proof -
  have fl: "floored i \<le> gi_need i" using assms(1) by (rule floored_le)
  have sh: "0 \<le> gi_share i" "gi_share i \<le> of_nat (gi_need i)" using assms(1) by (simp_all add: info_ok_def)
  show "info_ok (topped_up s i)" and "gi_share i \<le> gi_share (topped_up s i)"
    using assms(1) sh by (auto simp: info_ok_def topped_up_def min_def split: option.splits)
  have add: "nat \<lfloor>gi_share i + of_nat k\<rfloor> = floored i + k" for k
  proof -
    have "\<lfloor>gi_share i + of_nat k\<rfloor> = \<lfloor>gi_share i\<rfloor> + int k" by (metis floor_add_int of_int_of_nat_eq)
    then show ?thesis using sh by (simp add: floored_def nat_add_distrib)
  qed
  show "floored (topped_up s i) = floored i + min s (gi_need i - floored i)"
  proof (cases "s < gi_need i - floored i")
    case True
    have "gi_share i < of_int (\<lfloor>gi_share i\<rfloor> + 1)" by linarith
    also have "\<dots> = of_nat (floored i + 1)" using sh by (simp add: floored_def)
    also have "\<dots> \<le> rat_of_nat (gi_need i - s)" using True by (simp only: of_nat_le_iff)
    finally have "gi_share i + of_nat s < of_nat (gi_need i)" using True by (simp add: of_nat_diff)
    moreover have "min (rat_of_nat s) (of_nat (gi_need i - floored i)) = of_nat s"
      using True by (intro min_absorb1) (simp only: of_nat_le_iff less_imp_le)
    ultimately have "gi_share (topped_up s i) = gi_share i + of_nat s" unfolding topped_up_def by simp
    with True add [of s] show ?thesis by (simp add: floored_def [of "topped_up s i"])
  next
    case False
    have "rat_of_nat (floored i) \<le> gi_share i" using sh by (simp add: floored_def)
    moreover have "min (rat_of_nat s) (of_nat (gi_need i - floored i)) = of_nat (gi_need i - floored i)"
      using False by (intro min_absorb2) (simp only: of_nat_le_iff not_less)
    ultimately have "gi_share (topped_up s i) = of_nat (gi_need i)"
      unfolding topped_up_def using fl by (simp add: of_nat_diff min_absorb2)
    then show ?thesis using False fl by (simp add: floored_def min_def)
  qed
qed

lemma topped_up_fields [simp]:
  "gi_key (topped_up s i) = gi_key i" "gi_need (topped_up s i) = gi_need i"
  by (simp_all add: topped_up_def)

lemma give_surplus_None: "\<forall>i \<in> set infos. info_ok i \<Longrightarrow> give_surplus s infos = None \<Longrightarrow> \<forall>i \<in> set infos. full i"
proof (induction infos)
  case (Cons i infos)
  then show ?case using not_full [of i] by (auto simp: Let_def split: if_splits)
qed simp

lemma give_surplus_Some:
  assumes "\<forall>i \<in> set infos. info_ok i" and "give_surplus s infos = Some infos'"
  shows "\<exists>xs i ys. infos = xs @ i # ys \<and> \<not> full i \<and> infos' = xs @ topped_up s i # ys"
  using assms
proof (induction infos arbitrary: infos')
  case (Cons j infos)
  show ?case
  proof (cases "full j")
    case False
    then have "infos' = topped_up s j # infos"
      using Cons.prems not_full [of j] by (simp add: Let_def topped_up_def)
    with False show ?thesis by (metis append_Nil)
  next
    case True
    then obtain rest where "give_surplus s infos = Some rest" "infos' = j # rest"
      using Cons.prems not_full [of j] by (auto simp: Let_def split: if_splits)
    with Cons.IH Cons.prems(1) show ?thesis by (metis append_Cons list.set_intros(2))
  qed
qed simp

lemma floored_sum_append [simp]: "floored_sum (xs @ ys) = floored_sum xs + floored_sum ys"
  "floored_sum (i # xs) = floored i + floored_sum xs" "floored_sum [] = 0"
  by (simp_all add: floored_sum_def)

definition open_count :: "group_info list \<Rightarrow> nat" where
  "open_count infos = length (filter (\<lambda>i. \<not> full i) infos)"

text \<open>A group is better off: the same group, the same need, no smaller a share.\<close>

definition better :: "group_info \<Rightarrow> group_info \<Rightarrow> bool" where
  "better i j \<longleftrightarrow> gi_key j = gi_key i \<and> gi_need j = gi_need i \<and> gi_share i \<le> gi_share j"

lemma better_refl: "list_all2 better xs xs"
  by (simp add: better_def list_all2_refl)

lemma better_trans: "list_all2 better xs ys \<Longrightarrow> list_all2 better ys zs \<Longrightarrow> list_all2 better xs zs"
  by (rule list_all2_trans [of better better better]) (auto simp: better_def)

lemma give_surplus_step:
  assumes "\<forall>i \<in> set infos. info_ok i" and "give_surplus s infos = Some infos'"
  shows "\<forall>i \<in> set infos'. info_ok i" and "list_all2 better infos infos'"
    and "floored_sum infos' \<le> floored_sum infos + s"
    and "floored_sum infos' = floored_sum infos + s \<or> Suc (open_count infos') = open_count infos"
proof -
  from give_surplus_Some [OF assms] obtain xs i ys
    where sp: "infos = xs @ i # ys" "\<not> full i" "infos' = xs @ topped_up s i # ys" by blast
  have ok: "info_ok i" using assms(1) sp by simp
  note t = topped_up [OF ok sp(2), of s]
  show "\<forall>i \<in> set infos'. info_ok i" using assms(1) sp t(1) by auto
  have "better i (topped_up s i)" using t(3) by (simp add: better_def)
  then show "list_all2 better infos infos'"
    unfolding sp(1,3) by (intro list_all2_appendI) (simp_all add: better_refl)
  show "floored_sum infos' \<le> floored_sum infos + s" using sp t(2) by simp
  show "floored_sum infos' = floored_sum infos + s \<or> Suc (open_count infos') = open_count infos"
  proof (cases "s \<le> gi_need i - floored i")
    case False
    then have "full (topped_up s i)" using t(2) floored_le [OF ok] by (simp add: full_def)
    then show ?thesis using sp by (simp add: open_count_def)
  qed (use sp t(2) in simp)
qed

lemma redistribute_saturated: "floored_sum infos = remaining \<Longrightarrow> redistribute n remaining infos = infos"
  by (cases n) simp_all

lemma redistribute:
  assumes "\<forall>i \<in> set infos. info_ok i" and "floored_sum infos \<le> remaining"
  shows "(\<forall>i \<in> set (redistribute n remaining infos). info_ok i)
    \<and> list_all2 better infos (redistribute n remaining infos)
    \<and> floored_sum (redistribute n remaining infos) \<le> remaining
    \<and> (open_count infos \<le> n \<longrightarrow> floored_sum (redistribute n remaining infos) = remaining
         \<or> (\<forall>i \<in> set (redistribute n remaining infos). full i))"
  using assms
proof (induction n arbitrary: infos)
  case 0
  then show ?case by (auto simp: better_refl open_count_def filter_empty_conv)
next
  case (Suc n)
  show ?case
  proof (cases "remaining - floored_sum infos = 0")
    case True
    with Suc.prems show ?thesis by (simp add: better_refl)
  next
    case surplus: False
    show ?thesis
    proof (cases "give_surplus (remaining - floored_sum infos) infos")
      case None
      with surplus Suc.prems give_surplus_None [OF Suc.prems(1) None] show ?thesis by (simp add: better_refl)
    next
      case (Some infos')
      note step = give_surplus_step [OF Suc.prems(1) Some]
      have le: "floored_sum infos' \<le> remaining" using step(3) Suc.prems(2) by simp
      have eq: "redistribute (Suc n) remaining infos = redistribute n remaining infos'"
        using surplus Some by simp
      have "floored_sum infos' = remaining \<or> Suc (open_count infos') = open_count infos"
        using step(4) Suc.prems(2) by simp
      then show ?thesis
        using Suc.IH [OF step(1) le] better_trans [OF step(2)] redistribute_saturated [of infos' remaining n]
        unfolding eq by auto
    qed
  qed
qed


section \<open>Minimums\<close>

lemma slots_update: "slots (AList.update g n a) h = (if h = g then n else slots a h)"
  by (simp add: slots_def update_conv')

lemma slots_Nil [simp]: "slots [] g = 0"
  by (simp add: slots_def)

definition slot_total :: "slot_allocation \<Rightarrow> nat" where
  "slot_total a = sum_list (map snd a)"

lemma total_slots:
  assumes "distinct (map fst a)" "finite K" "fst ` set a \<subseteq> K"
  shows "sum (slots a) K = slot_total a"
  using assms
proof (induction a arbitrary: K)
  case Nil
  then show ?case by (simp add: slot_total_def)
next
  case (Cons x a)
  obtain g n where x: "x = (g, n)" by (cases x)
  have K: "g \<in> K" using Cons.prems(3) x by auto
  have "g \<notin> fst ` set a" using Cons.prems(1) x by auto
  then have z: "slots a g = 0" by (simp add: slots_def map_of_eq_None_iff [THEN iffD2])
  have "sum (slots (x # a)) K = slots (x # a) g + sum (slots (x # a)) (K - {g})"
    using Cons.prems(2) K by (rule sum.remove)
  also have "sum (slots (x # a)) (K - {g}) = sum (slots a) (K - {g})"
    by (rule sum.cong) (simp_all add: x slots_def)
  also have "\<dots> = sum (slots a) K"
    using sum.remove [OF Cons.prems(2) K, of "slots a"] z by simp
  also have "slots (x # a) g = n" by (simp add: x slots_def)
  also have "sum (slots a) K = slot_total a"
    using Cons.prems by (intro Cons.IH) auto
  finally show ?case by (simp add: x slot_total_def)
qed

lemma grant_minimums_le: "snd (grant_minimums w gs alloc rem) \<le> rem"
proof (induction gs arbitrary: alloc rem)
  case (Cons x gs)
  obtain g d where "x = (g, d)" by (cases x)
  then show ?case using Cons.IH by (simp add: Let_def) (meson diff_le_self le_trans)
qed simp

lemma grant_minimums:
  assumes "distinct (map fst gs)" and "fst ` set gs \<inter> fst ` set alloc = {}" and "distinct (map fst alloc)"
    and "grant_minimums w gs alloc rem = (a, r)"
  shows "distinct (map fst a) \<and> fst ` set a = fst ` set alloc \<union> fst ` set gs \<and> slot_total a + r = slot_total alloc + rem
    \<and> (\<forall>(g, d) \<in> set gs. slots a g \<le> min (minimum_of w g) (demand_of d)
          \<and> (0 < r \<longrightarrow> slots a g = min (minimum_of w g) (demand_of d)))
    \<and> (\<forall>g. g \<notin> fst ` set gs \<longrightarrow> slots a g = slots alloc g)"
  using assms
proof (induction gs arbitrary: alloc rem)
  case Nil
  then show ?case by simp
next
  case (Cons x gs)
  obtain g d where x: "x = (g, d)" by (cases x)
  let ?n = "min (min (minimum_of w g) (demand_of d)) rem"
  let ?alloc = "AList.update g ?n alloc"
  have new: "g \<notin> fst ` set alloc" "g \<notin> fst ` set gs" using Cons.prems(1,2) x by auto
  then have app: "?alloc = alloc @ [(g, ?n)]" by (induction alloc) auto
  have ih: "distinct (map fst a) \<and> fst ` set a = fst ` set ?alloc \<union> fst ` set gs \<and> slot_total a + r = slot_total ?alloc + (rem - ?n)
    \<and> (\<forall>(g, d) \<in> set gs. slots a g \<le> min (minimum_of w g) (demand_of d)
          \<and> (0 < r \<longrightarrow> slots a g = min (minimum_of w g) (demand_of d)))
    \<and> (\<forall>h. h \<notin> fst ` set gs \<longrightarrow> slots a h = slots ?alloc h)"
    using Cons.prems new x by (intro Cons.IH) (auto simp: app Let_def)
  then have t: "slot_total a + r = slot_total alloc + rem" by (simp add: app slot_total_def)
  have le: "r \<le> rem - ?n"
    using grant_minimums_le [of w gs ?alloc "rem - ?n"] Cons.prems(4) x by (simp add: Let_def)
  have "slots a g = ?n" using ih new(2) by (simp add: slots_update)
  then have g: "slots a g \<le> min (minimum_of w g) (demand_of d) \<and> (0 < r \<longrightarrow> slots a g = min (minimum_of w g) (demand_of d))"
    using le by auto
  have f: "fst ` set a = fst ` set alloc \<union> fst ` set (x # gs)" using ih by (auto simp: app x)
  have o: "slots a h = slots alloc h" if "h \<notin> fst ` set (x # gs)" for h
    using ih that x by (simp add: slots_update)
  show ?case using ih t g f o x by simp
qed

section \<open>Rounding\<close>

lemma can_take: "info_ok i \<Longrightarrow> capped (map_option (\<lambda>c. c - floored i) (gi_cap i)) (gi_need i - floored i) = gi_need i - floored i"
  by (auto simp: capped_def info_ok_def split: option.split)

lemma rounded:
  assumes "\<forall>i \<in> set infos. info_ok i"
  shows "map fst (rounded l infos) = map gi_key infos
    \<and> (\<forall>(k, n) \<in> set (rounded l infos). \<exists>i \<in> set infos. k = gi_key i \<and> floored i \<le> n \<and> n \<le> gi_need i)
    \<and> sum_list (map snd (rounded l infos)) = floored_sum infos + min l (open_count infos)"
  using assms
proof (induction infos arbitrary: l)
  case (Cons i infos)
  have ok: "info_ok i" using Cons.prems by simp
  note [simp] = can_take [OF ok]
  have fl: "floored i \<le> gi_need i" using ok by (rule floored_le)
  have ih: "map fst (rounded l infos) = map gi_key infos"
    "\<forall>(k, n) \<in> set (rounded l infos). \<exists>i \<in> set infos. k = gi_key i \<and> floored i \<le> n \<and> n \<le> gi_need i"
    "sum_list (map snd (rounded l infos)) = floored_sum infos + min l (open_count infos)" for l
    using Cons.IH [of l] Cons.prems by auto
  show ?case
  proof (cases "0 < l \<and> \<not> full i")
    case True
    then have r: "rounded l (i # infos) = (gi_key i, floored i + 1) # rounded (l - 1) infos"
      using fl by (simp add: full_def)
    show ?thesis
      unfolding r using True ih [of "l - 1"] fl by (auto simp: open_count_def full_def)
  next
    case False
    then have r: "rounded l (i # infos) = (gi_key i, floored i) # rounded l infos"
      using fl by (auto simp: full_def)
    have "min l (open_count (i # infos)) = min l (open_count infos)"
      using False by (auto simp: open_count_def)
    then show ?thesis
      unfolding r using ih [of l] fl by auto
  qed
qed (simp add: open_count_def)

lemma slots_add_slots: "distinct (map fst xs) \<Longrightarrow> slots (add_slots xs a) g = slots a g + slots xs g"
proof (induction xs arbitrary: a)
  case Nil
  then show ?case by (simp add: add_slots_def)
next
  case (Cons x xs)
  obtain h n where x: "x = (h, n)" by (cases x)
  have "slots xs h = 0" using Cons.prems x by (simp add: slots_def map_of_eq_None_iff [THEN iffD2])
  moreover have "add_slots (x # xs) a = add_slots xs (AList.update h (slots a h + n) a)"
    by (simp add: add_slots_def x)
  ultimately show ?case using Cons x by (auto simp: slots_update) (auto simp: slots_def)
qed

lemma add_slots_keys:
  "distinct (map fst a) \<Longrightarrow> distinct (map fst (add_slots xs a)) \<and> fst ` set (add_slots xs a) = fst ` set a \<union> fst ` set xs"
proof (induction xs arbitrary: a)
  case (Cons x xs)
  obtain h n where x: "x = (h, n)" by (cases x)
  have "distinct (map fst (AList.update h m a))" for m using Cons.prems by (rule distinct_update)
  moreover have "fst ` set (AList.update h m a) = insert h (fst ` set a)" for m by (simp add: dom_update)
  ultimately show ?case using Cons.IH [of "AList.update h (slots a h + n) a"] by (auto simp: add_slots_def x)
qed (simp add: add_slots_def)

lemma rounding_order:
  "set (rounding_order infos) = set infos" "floored_sum (rounding_order infos) = floored_sum infos"
  "open_count (rounding_order infos) = open_count infos" "mset (map gi_key (rounding_order infos)) = mset (map gi_key infos)"
proof -
  have m: "mset (rounding_order infos) = mset infos" by (simp add: rounding_order_def order_by_def)
  then show "set (rounding_order infos) = set infos" by (rule mset_eq_setD)
  show "floored_sum (rounding_order infos) = floored_sum infos"
    using m unfolding floored_sum_def by (metis mset_map sum_mset_sum_list)
  show "open_count (rounding_order infos) = open_count infos"
    using m unfolding open_count_def by (metis mset_filter size_mset)
  show "mset (map gi_key (rounding_order infos)) = mset (map gi_key infos)" using m by simp
qed

section \<open>Shares\<close>

definition entitlement :: "group_weights \<Rightarrow> group_limits \<Rightarrow> group \<times> group_demand \<Rightarrow> nat" where
  "entitlement w caps = (\<lambda>(g, d). capped (map_option (max (minimum_of w g)) (cap_of caps g)) (demand_of d))"

definition total_weight :: "group_weights \<Rightarrow> (group \<times> group_demand) list \<Rightarrow> nat" where
  "total_weight w gs = sum_list (map (unat \<circ> weight_of w \<circ> fst) gs)"

lemma unat_sum_list: "sum_list (map unat ws) < 2 ^ 32 \<Longrightarrow> unat (sum_list ws) = sum_list (map unat ws)"
  for ws :: "32 word list"
  by (induction ws) (simp_all add: unat_word_ariths)

lemma info_ok_of: "info_ok (group_info_of w caps alloc rem W gd)"
  by (cases gd) (auto simp: info_ok_def group_info_of_def Let_def capped_def split: option.split)

lemma gi_key_of [simp]: "gi_key (group_info_of w caps alloc rem W gd) = fst gd"
  by (cases gd) (simp add: group_info_of_def Let_def)

lemma gi_need_of:
  assumes "slots alloc (fst gd) = min (minimum_of w (fst gd)) (demand_of (snd gd))"
  shows "slots alloc (fst gd) + gi_need (group_info_of w caps alloc rem W gd) = entitlement w caps gd"
  using assms by (cases gd) (auto simp: group_info_of_def Let_def capped_def entitlement_def split: option.split)

lemma floored_of_le: "rat_of_nat (floored (group_info_of w caps alloc rem W gd))
    \<le> of_nat rem * of_nat (unat (weight_of w (fst gd))) / of_nat (unat W)"
proof -
  let ?i = "group_info_of w caps alloc rem W gd"
  have "0 \<le> gi_share ?i" using info_ok_of by (auto simp: info_ok_def)
  then have "rat_of_nat (floored ?i) \<le> gi_share ?i" by (simp add: floored_def)
  also have "gi_share ?i \<le> of_nat rem * of_nat (unat (weight_of w (fst gd))) / of_nat (unat W)"
  proof -
    have "0 \<le> rat_of_nat rem * of_nat (unat (weight_of w (fst gd))) / of_nat (unat W)"
      by (intro divide_nonneg_nonneg mult_nonneg_nonneg of_nat_0_le_iff)
    then show ?thesis by (cases gd) (simp add: group_info_of_def Let_def)
  qed
  finally show ?thesis .
qed

lemma floored_sum_of_le:
  assumes "unat W = total_weight w gs" and "0 < unat W"
  shows "floored_sum (map (group_info_of w caps alloc rem W) gs) \<le> rem"
proof -
  have "rat_of_nat (floored_sum (map (group_info_of w caps alloc rem W) xs))
      \<le> of_nat rem * of_nat (total_weight w xs) / of_nat (unat W)" for xs
  proof (induction xs)
    case (Cons gd xs)
    then show ?case using floored_of_le [of w caps alloc rem W gd]
      by (simp add: total_weight_def distrib_left add_divide_distrib)
  qed (simp add: total_weight_def)
  from this [of gs] assms have "rat_of_nat (floored_sum (map (group_info_of w caps alloc rem W) gs)) \<le> of_nat rem"
    by simp
  then show ?thesis by (simp only: of_nat_le_iff)
qed

section \<open>The allocation\<close>

lemma better_in: "list_all2 better (map f gs) infos \<Longrightarrow> gd \<in> set gs \<Longrightarrow> \<exists>i \<in> set infos. better (f gd) i"
  by (induction gs arbitrary: infos) (auto simp: list_all2_Cons1)

lemma better_same:
  assumes "list_all2 better xs ys"
  shows "map gi_key ys = map gi_key xs" and "map gi_need ys = map gi_need xs"
  using assms by (induction rule: list_all2_induct) (simp_all add: better_def)

text \<open>Everything the theorems below need about one run: with slots left after the minimums,
  the groups are given what \<open>rounded\<close> yields for the redistributed shares.\<close>

lemma weighted_step:
  fixes caps :: group_limits
  assumes gs: "distinct (map fst gs)" and a: "grant_minimums w gs [] cap = (alloc, rem)" and r: "0 < rem"
    and W: "unat W = total_weight w gs" "0 < unat W"
  defines "infos \<equiv> redistribute 10 rem (map (group_info_of w caps alloc rem W) gs)"
  defines "res \<equiv> add_slots (rounded (rem - floored_sum infos) (rounding_order infos)) alloc"
  shows "slot_total res \<le> cap \<and> (length gs \<le> 10 \<longrightarrow> slot_total res = min cap (sum_list (map (entitlement w caps) gs)))
    \<and> (\<forall>gd \<in> set gs. slots res (fst gd) \<le> entitlement w caps gd
        \<and> slots alloc (fst gd) + floored (group_info_of w caps alloc rem W gd) \<le> slots res (fst gd))"
proof -
  let ?l = "rem - floored_sum infos" and ?start = "map (group_info_of w caps alloc rem W) gs"
  let ?xs = "rounded ?l (rounding_order infos)"
  have min: "distinct (map fst alloc)" "fst ` set alloc = fst ` set gs" "slot_total alloc + rem = cap"
    "\<forall>gd \<in> set gs. slots alloc (fst gd) = min (minimum_of w (fst gd)) (demand_of (snd gd))"
    using grant_minimums [OF gs _ _ a] r by (auto simp: slot_total_def)
  have ok: "\<forall>i \<in> set ?start. info_ok i" by (auto simp: info_ok_of)
  have red: "\<forall>i \<in> set infos. info_ok i" "list_all2 better ?start infos" "floored_sum infos \<le> rem"
    "open_count ?start \<le> 10 \<Longrightarrow> floored_sum infos = rem \<or> (\<forall>i \<in> set infos. full i)"
    using redistribute [OF ok floored_sum_of_le [OF W], of 10] by (simp_all add: infos_def)
  have keys: "map gi_key infos = map fst gs"
    using better_same(1) [OF red(2)] by (simp add: comp_def)
  have ok': "\<forall>i \<in> set (rounding_order infos). info_ok i" using red(1) by (simp add: rounding_order)
  note rnd = rounded [OF ok', of ?l, unfolded rounding_order]
  have dx: "distinct (map fst ?xs)" "fst ` set ?xs = fst ` set gs"
  proof -
    have "mset (map fst ?xs) = mset (map fst gs)" using rnd rounding_order(4) [of infos] keys by simp
    then show "distinct (map fst ?xs)" "fst ` set ?xs = fst ` set gs"
      using gs by (metis mset_eq_imp_distinct_iff, metis mset_eq_setD set_map)
  qed
  have sl: "slots res g = slots alloc g + slots ?xs g" for g
    unfolding res_def by (rule slots_add_slots [OF dx(1)])
  let ?K = "fst ` set gs"
  have "distinct (map fst res) \<and> fst ` set res = ?K"
    unfolding res_def using add_slots_keys [OF min(1), of ?xs] dx(2) min(2) by simp
  then have "slot_total res = sum (slots res) ?K" by (simp add: total_slots)
  also have "\<dots> = slot_total alloc + slot_total ?xs"
    using total_slots [OF min(1), of ?K] total_slots [OF dx(1), of ?K] min(2) dx(2)
    by (simp add: sl sum.distrib)
  finally have tot: "slot_total res = slot_total alloc + (floored_sum infos + min ?l (open_count infos))"
    using rnd by (simp add: slot_total_def)
  have per: "slots res (fst gd) \<le> entitlement w caps gd
      \<and> slots alloc (fst gd) + floored (group_info_of w caps alloc rem W gd) \<le> slots res (fst gd)"
    if gd: "gd \<in> set gs" for gd
  proof -
    let ?i = "group_info_of w caps alloc rem W gd"
    obtain i where i: "i \<in> set infos" "better ?i i"
    using better_in [OF red(2) gd] by blast
    have "fst gd \<in> fst ` set ?xs" using dx(2) gd by simp
    then obtain n where n: "(fst gd, n) \<in> set ?xs" by auto
    then obtain j where j: "j \<in> set infos" "fst gd = gi_key j" "floored j \<le> n" "n \<le> gi_need j"
      using rnd by blast
    have "inj_on gi_key (set infos)" using gs keys by (metis distinct_map)
    then have "j = i" using i j by (simp add: better_def inj_on_def)
    moreover have "floored ?i \<le> floored i" using i(2) by (simp add: better_def floored_def floor_mono nat_mono)
    moreover have "slots ?xs (fst gd) = n" using n dx(1) by (simp add: slots_def)
    ultimately show ?thesis
      using gi_need_of [OF min(4) [rule_format, OF gd], of caps rem W] sl [of "fst gd"] i(2) j by (simp add: better_def)
  qed
  have by_group: "slot_total res = sum_list (map (slots res \<circ> fst) gs)"
    using \<open>slot_total res = sum (slots res) ?K\<close> sum_list_distinct_conv_sum_set [OF gs, of "slots res"] by simp
  have upper: "slot_total res \<le> sum_list (map (entitlement w caps) gs)"
    unfolding by_group using per by (intro sum_list_mono) simp
  have "slot_total res = min cap (sum_list (map (entitlement w caps) gs))" if "length gs \<le> 10"
  proof -
    have "open_count ?start \<le> 10" using that by (simp add: open_count_def) (metis length_filter_le length_map le_trans)
    then consider "floored_sum infos = rem" | "\<forall>i \<in> set infos. full i" using red(4) by blast
    then show ?thesis
    proof cases
      case 1
      then have "slot_total res = cap" using tot min(3) by simp
      then show ?thesis using upper by simp
    next
      case 2
      then have "floored_sum infos = sum_list (map gi_need infos)"
        by (auto simp: floored_sum_def full_def intro!: arg_cong [of _ _ sum_list])
      also have "map gi_need infos = map gi_need ?start"
        using better_same(2) [OF red(2)] by simp
      finally have f: "floored_sum infos = sum_list (map (gi_need \<circ> group_info_of w caps alloc rem W) gs)" by simp
      have "slot_total alloc = sum (slots alloc) ?K" using total_slots [OF min(1), of ?K] min(2) by simp
      also have "\<dots> = sum_list (map (slots alloc \<circ> fst) gs)"
        using sum_list_distinct_conv_sum_set [OF gs, of "slots alloc"] by simp
      finally have "slot_total alloc + floored_sum infos = sum_list (map (\<lambda>gd. slots alloc (fst gd) + gi_need (group_info_of w caps alloc rem W gd)) gs)"
        unfolding f by (simp add: sum_list_addf comp_def)
      also have "\<dots> = sum_list (map (entitlement w caps) gs)"
        using gi_need_of min(4) by (metis (no_types, lifting) map_cong)
      finally show ?thesis using tot upper min(3) red(3) by auto
    qed
  qed
  moreover have "slot_total res \<le> cap" using tot min(3) red(3) by auto
  ultimately show ?thesis using per by blast
qed

lemma distinct_active: "distinct (map fst groups) \<Longrightarrow> distinct (map fst (active_groups paused groups))"
  by (simp add: active_groups_def distinct_map_filter)

lemma word_total:
  assumes "total_weight w gs < 2 ^ 32"
  shows "unat (sum_list (map (weight_of w \<circ> fst) gs)) = total_weight w gs"
    and "0 < sum_list (map (weight_of w \<circ> fst) gs) \<longleftrightarrow> 0 < total_weight w gs"
proof -
  show u: "unat (sum_list (map (weight_of w \<circ> fst) gs)) = total_weight w gs"
    using unat_sum_list [of "map (weight_of w \<circ> fst) gs"] assms by (simp add: total_weight_def comp_def)
  show "0 < sum_list (map (weight_of w \<circ> fst) gs) \<longleftrightarrow> 0 < total_weight w gs"
    unfolding u [symmetric] by (simp add: word_gt_0 unat_gt_0)
qed

text \<open>Without slots left after the minimums, or without weight, the minimums are the result.\<close>

lemma minimums_step:
  assumes "distinct (map fst gs)" and "grant_minimums w gs [] cap = (alloc, rem)"
  shows "slot_total alloc \<le> cap \<and> (rem = 0 \<longrightarrow> slot_total alloc = min cap (sum_list (map (entitlement w caps) gs)))
    \<and> (\<forall>gd \<in> set gs. slots alloc (fst gd) \<le> entitlement w caps gd)"
proof -
  have g: "distinct (map fst alloc)" "fst ` set alloc = fst ` set gs" "slot_total alloc + rem = cap"
    "\<forall>gd \<in> set gs. slots alloc (fst gd) \<le> min (minimum_of w (fst gd)) (demand_of (snd gd))"
    using grant_minimums [OF assms(1) _ _ assms(2)] by (auto simp: slot_total_def)
  have per: "\<forall>gd \<in> set gs. slots alloc (fst gd) \<le> entitlement w caps gd"
    using g(4) by (auto simp: entitlement_def capped_def split: option.split) fastforce+
  have "slot_total alloc = sum_list (map (slots alloc \<circ> fst) gs)"
    using total_slots [OF g(1), of "fst ` set gs"] g(2) sum_list_distinct_conv_sum_set [OF assms(1), of "slots alloc"] by simp
  also have "\<dots> \<le> sum_list (map (entitlement w caps) gs)" using per by (intro sum_list_mono) simp
  finally show ?thesis using g(3) per by auto
qed

text \<open>C30: the fair allocation never hands out more slots than the capacity, and no group
  gets more than it can use: its running and pending tasks, limited by its concurrency cap
  unless its guaranteed minimum is larger. With at most ten active groups, and some weight
  among them, it hands out all slots the groups can use.\<close>

theorem allocation_within_capacity:
  assumes "distinct (map fst groups)" and "total_weight w (active_groups paused groups) < 2 ^ 32"
  shows "slot_total (compute_allocation cap groups w caps paused) \<le> cap
    \<and> (\<forall>gd \<in> set (active_groups paused groups).
          slots (compute_allocation cap groups w caps paused) (fst gd) \<le> entitlement w caps gd)
    \<and> (length (active_groups paused groups) \<le> 10 \<and> 0 < total_weight w (active_groups paused groups) \<longrightarrow>
          slot_total (compute_allocation cap groups w caps paused)
            = min cap (sum_list (map (entitlement w caps) (active_groups paused groups))))"
proof -
  let ?gs = "active_groups paused groups"
  note d = distinct_active [OF assms(1), of paused]
  obtain alloc rem where m: "grant_minimums w ?gs [] cap = (alloc, rem)" by fastforce
  show ?thesis
    using word_total [OF assms(2)] weighted_step [OF d m, of _ caps] minimums_step [OF d m, of caps]
    by (auto simp: compute_allocation_def m Let_def)
qed

text \<open>C31: when no minimums are configured, every active group gets at least the integral part
  of its weighted share of the capacity, or all it can use.\<close>

theorem fair_share_guaranteed:
  assumes "distinct (map fst groups)" and "total_weight w (active_groups paused groups) < 2 ^ 32"
    and "gw_min_slots w = []" and "0 < total_weight w (active_groups paused groups)"
    and "gd \<in> set (active_groups paused groups)"
  shows "min (entitlement w caps gd)
      (cap * unat (weight_of w (fst gd)) div total_weight w (active_groups paused groups))
    \<le> slots (compute_allocation cap groups w caps paused) (fst gd)"
proof -
  let ?gs = "active_groups paused groups"
  let ?W = "sum_list (map (weight_of w \<circ> fst) ?gs)"
  note d = distinct_active [OF assms(1), of paused]
  obtain alloc rem where m: "grant_minimums w ?gs [] cap = (alloc, rem)" by fastforce
  have none: "minimum_of w g = 0" for g
    using assms(3) by (simp add: minimum_of_def min_slots_for_def split: option.split)
  have g: "slot_total alloc + rem = cap" "\<forall>gd \<in> set ?gs. slots alloc (fst gd) = 0"
    "distinct (map fst alloc)" "fst ` set alloc = fst ` set ?gs"
    using grant_minimums [OF d _ _ m] none by (auto simp: slot_total_def)
  have "slot_total alloc = 0"
    using total_slots [OF g(3), of "fst ` set ?gs"] g(2,4) sum.neutral [of "fst ` set ?gs" "slots alloc"] by auto
  with g(1) have rem: "rem = cap" by simp
  let ?i = "group_info_of w caps alloc cap ?W gd"
  have fl: "min (entitlement w caps gd) (cap * unat (weight_of w (fst gd)) div total_weight w ?gs) \<le> floored ?i"
  proof -
    have e: "gi_need ?i = entitlement w caps gd"
      using gi_need_of [of alloc gd w caps cap ?W] g(2) assms(5) none by simp
    have "gi_share ?i = max (min (rat_of_nat (cap * unat (weight_of w (fst gd))) / of_nat (total_weight w ?gs)) (of_nat (gi_need ?i))) 0"
      using word_total(1) [OF assms(2)] by (cases gd) (simp add: group_info_of_def Let_def)
    moreover have "0 \<le> min (rat_of_nat (cap * unat (weight_of w (fst gd))) / of_nat (total_weight w ?gs)) (of_nat (gi_need ?i))"
      by (intro min.boundedI divide_nonneg_nonneg of_nat_0_le_iff)
    ultimately have "gi_share ?i = min (rat_of_nat (cap * unat (weight_of w (fst gd))) / of_nat (total_weight w ?gs)) (of_nat (entitlement w caps gd))"
      by (simp only: max_absorb1 e)
    then show ?thesis
      by (cases "rat_of_nat (cap * unat (weight_of w (fst gd))) / of_nat (total_weight w ?gs) \<le> of_nat (entitlement w caps gd)")
        (simp_all only: floored_def min_absorb1 min_absorb2 floor_divide_of_nat_eq nat_int floor_of_nat min.cobounded2 min.cobounded1
           not_le less_imp_le)
  qed
  show ?thesis
  proof (cases "cap = 0")
    case False
    then have "slots (compute_allocation cap groups w caps paused) (fst gd) \<ge> floored ?i"
      using word_total [OF assms(2)] weighted_step [OF d m, of ?W caps] assms(4,5) rem
      by (auto simp: compute_allocation_def m Let_def)
    with fl show ?thesis by simp
  qed simp
qed

definition demand_example :: "(group \<times> group_demand) list" where
  "demand_example = [(Some ''A'', \<lparr>d_running = 0, d_pending = 20\<rparr>), (Some ''B'', \<lparr>d_running = 1, d_pending = 1\<rparr>),
     (None, \<lparr>d_running = 0, d_pending = 5\<rparr>), (Some ''P'', \<lparr>d_running = 0, d_pending = 9\<rparr>)]"

lemma demand_example:
  "distinct (map fst demand_example)"
  "active_groups [''P''] demand_example = take 3 demand_example"
  "total_weight (set_weight ''A'' 3 weights_new) (take 3 demand_example) = 5"
  by (simp_all add: demand_example_def active_groups_def total_weight_def weight_of_def weight_for_def set_weight_def
      weights_new_def)

theorem allocation_within_capacity_witness:
  "slot_total (compute_allocation 10 demand_example (set_weight ''A'' 3 weights_new) group_limits_new [''P'']) = 10
   \<and> slots (compute_allocation 10 demand_example (set_weight ''A'' 3 weights_new) group_limits_new [''P'']) (Some ''B'') \<le> 2"
proof -
  let ?w = "set_weight ''A'' 3 weights_new"
  have e: "map (entitlement ?w group_limits_new) (take 3 demand_example) = [20, 2, 5]"
    by (simp add: demand_example_def entitlement_def capped_def cap_of_def limit_for_def group_limits_new_def demand_of_def)
  have "(Some ''B'', \<lparr>d_running = 1, d_pending = 1\<rparr>) \<in> set (take 3 demand_example)"
    and b: "entitlement ?w group_limits_new (Some ''B'', \<lparr>d_running = 1, d_pending = 1\<rparr>) = 2"
    by (simp_all add: demand_example_def entitlement_def capped_def cap_of_def limit_for_def group_limits_new_def demand_of_def)
  then show ?thesis
    using allocation_within_capacity [of demand_example ?w "[''P'']" 10 group_limits_new]
    by (auto simp: demand_example e)
qed

theorem fair_share_guaranteed_witness:
  "6 \<le> slots (compute_allocation 10 demand_example (set_weight ''A'' 3 weights_new) group_limits_new [''P'']) (Some ''A'')"
proof -
  let ?w = "set_weight ''A'' 3 weights_new" and ?gd = "(Some ''A'', \<lparr>d_running = 0, d_pending = 20\<rparr>)"
  have "?gd \<in> set (active_groups [''P''] demand_example)" unfolding demand_example(2) by (simp add: demand_example_def)
  moreover have "gw_min_slots ?w = []" "weight_of ?w (Some ''A'') = 3" "entitlement ?w group_limits_new ?gd = 20"
    by (simp_all add: set_weight_def weights_new_def weight_of_def weight_for_def entitlement_def capped_def cap_of_def
        limit_for_def group_limits_new_def demand_of_def)
  ultimately show ?thesis
    using fair_share_guaranteed [OF demand_example(1), of ?w "[''P'']" ?gd group_limits_new 10]
    by (simp add: demand_example)
qed

text \<open>Two limits of the algorithm: a guaranteed minimum overrides the concurrency cap of its
  group, and the redistribution visits ten groups at most, so that with more of them slots
  stay unused although there is demand.\<close>

lemma minimum_overrides_cap:
  "slots (compute_allocation 10 [(Some ''A'', \<lparr>d_running = 0, d_pending = 9\<rparr>)] (set_min_slots ''A'' 5 weights_new)
     (set_limit ''A'' 2 group_limits_new) []) (Some ''A'') = 5"
  by code_simp

lemma slots_left_over:
  "slot_total (compute_allocation 60 ((None, \<lparr>d_running = 0, d_pending = 1\<rparr>)
       # map (\<lambda>g. (Some [g], \<lparr>d_running = 0, d_pending = 5\<rparr>)) ''ABCDEFGHIJKL'')
     (set_default_weight 0 weights_new\<lparr>gw_weights := [(''A'', 1)]\<rparr>) group_limits_new []) < 60"
  by code_simp

end
