(* ===== verification/Scheduler_State.thy ===== *)
theory Scheduler_State
  imports Store_System Fair_Allocation
begin

text \<open>
  The state of the scheduler (\<open>src/src/scheduler/mod.rs\<close>), its events
  (\<open>src/src/scheduler/event.rs\<close>), the registry of task types (\<open>src/src/registry/mod.rs\<close>) and
  the map of active tasks with preemption and the pausing of running tasks
  (\<open>src/src/scheduler/dispatch.rs\<close>).

  An executor is user code: what is kept of one is the execution the scheduler has
  spawned, with the record it was given, its phase and whether its cancellation token has
  been cancelled. The token of an active task is the identity of its execution. The two
  coalescing channels and the channel of stranded submissions are the lists of the
  messages in them. \<open>emit_event\<close> appends to the trace, whether anyone subscribes or not;
  \<open>work_notify\<close> is the flag \<open>s_notified\<close>.
\<close>

section \<open>Registry\<close>

record task_type_registry =
  reg_types :: "string list"
  reg_type_ttls :: "(string, duration) assoc"
  reg_type_retry_policies :: "(string, retry_policy) assoc"

definition registry_new :: task_type_registry where
  "registry_new = \<lparr>reg_types = [], reg_type_ttls = [], reg_type_retry_policies = []\<rparr>"

definition type_ttl :: "task_type_registry \<Rightarrow> string \<Rightarrow> duration option" where
  "type_ttl reg name = map_of (reg_type_ttls reg) name"

definition type_retry_policy :: "task_type_registry \<Rightarrow> string \<Rightarrow> retry_policy option" where
  "type_retry_policy reg name = map_of (reg_type_retry_policies reg) name"

definition is_registered :: "task_type_registry \<Rightarrow> string \<Rightarrow> bool" where
  "is_registered reg name \<longleftrightarrow> name \<in> set (reg_types reg)"

text \<open>Registering a type twice panics.\<close>

definition register_erased :: "string \<Rightarrow> task_type_registry \<Rightarrow> task_type_registry option" where
  "register_erased name reg =
     (if is_registered reg name then None else Some (reg\<lparr>reg_types := reg_types reg @ [name]\<rparr>))"

definition register_erased_with_ttl :: "string \<Rightarrow> duration \<Rightarrow> task_type_registry \<Rightarrow> task_type_registry option" where
  "register_erased_with_ttl name ttl reg =
     map_option (\<lambda>r. r\<lparr>reg_type_ttls := AList.update name ttl (reg_type_ttls r)\<rparr>) (register_erased name reg)"

definition set_retry_policy :: "string \<Rightarrow> retry_policy \<Rightarrow> task_type_registry \<Rightarrow> task_type_registry" where
  "set_retry_policy name policy reg =
     reg\<lparr>reg_type_retry_policies := AList.update name policy (reg_type_retry_policies reg)\<rparr>"

definition register_erased_with_retry_policy ::
    "string \<Rightarrow> retry_policy \<Rightarrow> task_type_registry \<Rightarrow> task_type_registry option" where
  "register_erased_with_retry_policy name policy reg = map_option (set_retry_policy name policy) (register_erased name reg)"

section \<open>Events\<close>

record task_event_header =
  eh_task_id :: int
  eh_task_type :: string
  eh_module :: string
  eh_key :: string
  eh_label :: string
  eh_tags :: "(string, string) assoc"
  eh_base_priority :: priority
  eh_effective_priority :: priority

definition module_of_type :: "string \<Rightarrow> string" where
  "module_of_type ty = (case split_once_colons ty of Some (m, _) \<Rightarrow> m | None \<Rightarrow> '''')"

definition event_header_with_aging :: "timestamp \<Rightarrow> aging_config option \<Rightarrow> task_record \<Rightarrow> task_event_header" where
  "event_header_with_aging now config r =
     \<lparr>eh_task_id = t_id r, eh_task_type = t_task_type r, eh_module = module_of_type (t_task_type r),
      eh_key = t_key r, eh_label = t_label r, eh_tags = t_tags r, eh_base_priority = t_priority r,
      eh_effective_priority = record_effective_priority now config r\<rparr>"

definition event_header :: "task_record \<Rightarrow> task_event_header" where
  "event_header r = event_header_with_aging 0 None r"

datatype scheduler_event =
    EvDispatched task_event_header
  | EvCompleted task_event_header
  | EvFailed task_event_header string bool "duration option"
  | EvPreempted task_event_header
  | EvCancelled task_event_header
  | EvSuperseded task_event_header int
  | EvProgress task_event_header rat "string option"
  | EvWaiting int nat
  | EvBatchSubmitted nat "int list"
  | EvTaskExpired task_event_header duration
  | EvRecurringSkipped task_event_header string
  | EvRecurringCompleted task_event_header int "timestamp option"
  | EvTaskUnblocked int
  | EvDeadLettered task_event_header string int
  | EvDependencyFailed int int
  | EvPaused
  | EvResumed
  | EvGroupPaused string nat nat
  | EvGroupResumed string nat
  | EvGroupWeightChanged string "32 word" "32 word"

fun event_header_of :: "scheduler_event \<Rightarrow> task_event_header option" where
  "event_header_of (EvDispatched h) = Some h"
| "event_header_of (EvCompleted h) = Some h"
| "event_header_of (EvPreempted h) = Some h"
| "event_header_of (EvCancelled h) = Some h"
| "event_header_of (EvFailed h _ _ _) = Some h"
| "event_header_of (EvProgress h _ _) = Some h"
| "event_header_of (EvSuperseded h _) = Some h"
| "event_header_of (EvTaskExpired h _) = Some h"
| "event_header_of (EvRecurringSkipped h _) = Some h"
| "event_header_of (EvRecurringCompleted h _ _) = Some h"
| "event_header_of (EvDeadLettered h _ _) = Some h"
| "event_header_of (EvWaiting _ _) = None"
| "event_header_of (EvBatchSubmitted _ _) = None"
| "event_header_of (EvTaskUnblocked _) = None"
| "event_header_of (EvDependencyFailed _ _) = None"
| "event_header_of EvPaused = None"
| "event_header_of EvResumed = None"
| "event_header_of (EvGroupPaused _ _ _) = None"
| "event_header_of (EvGroupResumed _ _) = None"
| "event_header_of (EvGroupWeightChanged _ _ _) = None"

section \<open>Configuration and state\<close>

datatype shutdown_mode = Hard | Graceful duration

record scheduler_config =
  cfg_max_concurrency :: nat
  cfg_max_retries :: int
  cfg_preempt_priority :: priority
  cfg_poll_interval :: duration
  cfg_throughput_sample_size :: int
  cfg_shutdown_mode :: shutdown_mode
  cfg_progress_interval :: "duration option"
  cfg_cancel_hook_timeout :: duration
  cfg_default_ttl :: "duration option"
  cfg_expiry_sweep_interval :: "duration option"
  cfg_aging_config :: "aging_config option"

definition config_default :: scheduler_config where
  "config_default = \<lparr>cfg_max_concurrency = 4, cfg_max_retries = 3, cfg_preempt_priority = REALTIME,
     cfg_poll_interval = from_millis 500, cfg_throughput_sample_size = 20, cfg_shutdown_mode = Hard,
     cfg_progress_interval = None, cfg_cancel_hook_timeout = from_secs 30, cfg_default_ttl = None,
     cfg_expiry_sweep_interval = Some (from_secs 30), cfg_aging_config = None\<rparr>"

datatype execution_phase = Execute | Finalize

record execution =
  ex_id :: nat
  ex_task :: task_record
  ex_phase :: execution_phase
  ex_cancelled :: bool

record active_task =
  at_record :: task_record
  at_token :: nat
  at_reported_progress :: "rat option"
  at_reported_at :: "timestamp option"
  at_started_at :: instant

record module_entry =
  me_name :: string
  me_prefix :: string
  me_default_priority :: "priority option"
  me_default_retry_policy :: "retry_policy option"
  me_default_group :: "string option"
  me_default_ttl :: "duration option"
  me_default_tags :: "(string, string) assoc"
  me_max_concurrency :: "nat option"

record scheduler =
  s_store :: task_store
  s_max_concurrency :: nat
  s_max_retries :: int
  s_preempt_priority :: priority
  s_poll_interval :: duration
  s_shutdown_mode :: shutdown_mode
  s_registry :: task_type_registry
  s_gate :: default_gate
  s_resource :: "resource_snapshot option"
  s_active :: "(int, active_task) assoc"
  s_pending_finalizers :: "int list"
  s_executions :: "execution list"
  s_next_token :: nat
  s_events :: "scheduler_event list"
  s_notified :: bool
  s_paused :: bool
  s_group_limits :: group_limits
  s_type_rate_limits :: rate_limits
  s_group_rate_limits :: rate_limits
  s_default_ttl :: "duration option"
  s_expiry_sweep_interval :: "duration option"
  s_last_expiry_sweep :: instant
  s_module_paused :: "(string, bool) assoc"
  s_module_caps :: "(string, nat) assoc"
  s_module_running :: "(string, nat) assoc"
  s_has_paused_tasks :: bool
  s_fast_dispatch :: bool
  s_paused_groups :: "string list"
  s_has_pressure_sources :: bool
  s_has_resource_monitoring :: bool
  s_last_group_resume_check :: instant
  s_submit_queue :: "task_submission list"
  s_completion_queue :: "(task_record \<times> io_budget) list"
  s_failure_queue :: "(task_record \<times> string \<times> bool \<times> io_budget) list"
  s_aging_config :: "aging_config option"
  s_group_weights :: group_weights
  s_counters :: scheduler_counters

definition with_gate ::
    "instant \<Rightarrow> task_store \<Rightarrow> scheduler_config \<Rightarrow> task_type_registry \<Rightarrow> default_gate \<Rightarrow> module_entry list \<Rightarrow> scheduler" where
  "with_gate now store config reg gate modules =
     \<lparr>s_store = store, s_max_concurrency = cfg_max_concurrency config, s_max_retries = cfg_max_retries config,
      s_preempt_priority = cfg_preempt_priority config, s_poll_interval = cfg_poll_interval config,
      s_shutdown_mode = cfg_shutdown_mode config, s_registry = reg, s_gate = gate, s_resource = None, s_active = [],
      s_pending_finalizers = [], s_executions = [], s_next_token = 0, s_events = [], s_notified = False,
      s_paused = False, s_group_limits = group_limits_new, s_type_rate_limits = [], s_group_rate_limits = [],
      s_default_ttl = cfg_default_ttl config, s_expiry_sweep_interval = cfg_expiry_sweep_interval config,
      s_last_expiry_sweep = now,
      s_module_paused = map (\<lambda>e. (me_name e, False)) modules,
      s_module_caps = concat (map (\<lambda>e. case me_max_concurrency e of None \<Rightarrow> [] | Some c \<Rightarrow> [(me_name e, c)]) modules),
      s_module_running = map (\<lambda>e. (me_name e, 0)) modules,
      s_has_paused_tasks = False, s_fast_dispatch = False, s_paused_groups = [], s_has_pressure_sources = False,
      s_has_resource_monitoring = False, s_last_group_resume_check = now, s_submit_queue = [],
      s_completion_queue = [], s_failure_queue = [], s_aging_config = cfg_aging_config config,
      s_group_weights = weights_new, s_counters = counters_new\<rparr>"

text \<open>The reader is represented by the snapshot it returns.\<close>

definition set_resource_reader :: "resource_snapshot \<Rightarrow> scheduler \<Rightarrow> scheduler" where
  "set_resource_reader r s = s\<lparr>s_resource := Some r\<rparr>"

definition emit :: "scheduler_event \<Rightarrow> scheduler \<Rightarrow> scheduler" where
  "emit ev s = s\<lparr>s_events := s_events s @ [ev]\<rparr>"

definition notify :: "scheduler \<Rightarrow> scheduler" where
  "notify s = s\<lparr>s_notified := True\<rparr>"

definition count :: "(scheduler_counters \<Rightarrow> scheduler_counters) \<Rightarrow> scheduler \<Rightarrow> scheduler" where
  "count f s = s\<lparr>s_counters := f (s_counters s)\<rparr>"

text \<open>Run a store operation; its result is returned beside the new scheduler state.\<close>

definition on_store :: "(task_store \<Rightarrow> task_store \<times> 'a) \<Rightarrow> scheduler \<Rightarrow> scheduler \<times> 'a" where
  "on_store m s = (case m (s_store s) of (st, x) \<Rightarrow> (s\<lparr>s_store := st\<rparr>, x))"

definition on_rows :: "(db \<Rightarrow> db) \<Rightarrow> scheduler \<Rightarrow> scheduler" where
  "on_rows f s = s\<lparr>s_store := (s_store s)\<lparr>st_db := f (st_db (s_store s))\<rparr>\<rparr>"

section \<open>Active tasks\<close>

definition active_count :: "scheduler \<Rightarrow> nat" where
  "active_count s = length (s_active s)"

definition active_insert :: "int \<Rightarrow> active_task \<Rightarrow> scheduler \<Rightarrow> scheduler" where
  "active_insert i a s = s\<lparr>s_active := AList.update i a (s_active s)\<rparr>"

definition active_remove :: "int \<Rightarrow> scheduler \<Rightarrow> scheduler \<times> active_task option" where
  "active_remove i s = (s\<lparr>s_active := AList.delete i (s_active s)\<rparr>, map_of (s_active s) i)"

definition starts_with :: "string \<Rightarrow> string \<Rightarrow> bool" where
  "starts_with p s \<longleftrightarrow> take (length p) s = p"

definition active_records :: "string option \<Rightarrow> scheduler \<Rightarrow> task_record list" where
  "active_records prefix s =
     map (at_record \<circ> snd) (filter (\<lambda>(_, a). case prefix of None \<Rightarrow> True | Some p \<Rightarrow> starts_with p (t_task_type (at_record a)))
       (s_active s))"

definition progress_snapshots ::
    "string option \<Rightarrow> scheduler \<Rightarrow> (task_record \<times> rat option \<times> timestamp option) list" where
  "progress_snapshots prefix s =
     map (\<lambda>(_, a). (at_record a, at_reported_progress a, at_reported_at a))
       (filter (\<lambda>(_, a). case prefix of None \<Rightarrow> True | Some p \<Rightarrow> starts_with p (t_task_type (at_record a))) (s_active s))"

definition update_progress :: "timestamp \<Rightarrow> int \<Rightarrow> rat \<Rightarrow> scheduler \<Rightarrow> scheduler" where
  "update_progress now i percent s =
     (case map_of (s_active s) i of
        None \<Rightarrow> s
      | Some a \<Rightarrow> s\<lparr>s_active := AList.update i (a\<lparr>at_reported_progress := Some percent, at_reported_at := Some now\<rparr>)
                                   (s_active s)\<rparr>)"

text \<open>What an executor reports through its context (\<open>ProgressReporter\<close> in
  \<open>src/src/scheduler/progress.rs\<close>) is clamped to a fraction.\<close>

definition report :: "timestamp \<Rightarrow> task_event_header \<Rightarrow> rat \<Rightarrow> string option \<Rightarrow> scheduler \<Rightarrow> scheduler" where
  "report now header percent message s =
     (let clamped = min 1 (max 0 percent)
      in emit (EvProgress header clamped message) (update_progress now (eh_task_id header) clamped s))"

definition report_fraction ::
    "timestamp \<Rightarrow> task_event_header \<Rightarrow> nat \<Rightarrow> nat \<Rightarrow> string option \<Rightarrow> scheduler \<Rightarrow> scheduler" where
  "report_fraction now header part whole message =
     report now header (if whole = 0 then 1 else of_nat part / of_nat whole) message"

definition cancel_token :: "nat \<Rightarrow> scheduler \<Rightarrow> scheduler" where
  "cancel_token tok s =
     s\<lparr>s_executions := map (\<lambda>e. if ex_id e = tok then e\<lparr>ex_cancelled := True\<rparr> else e) (s_executions s)\<rparr>"

definition drain_where :: "(active_task \<Rightarrow> bool) \<Rightarrow> scheduler \<Rightarrow> scheduler \<times> (int \<times> active_task) list" where
  "drain_where p s =
     (s\<lparr>s_active := filter (\<lambda>(_, a). \<not> p a) (s_active s)\<rparr>, filter (\<lambda>(_, a). p a) (s_active s))"

definition cancel_pause_one :: "timestamp \<Rightarrow> pause_reasons \<Rightarrow> int \<times> active_task \<Rightarrow> scheduler \<Rightarrow> scheduler" where
  "cancel_pause_one now reason = (\<lambda>(i, a) s.
     let s1 = on_rows (pause now i reason) (cancel_token (at_token a) s)
     in if pr_contains reason GROUP then s1 else emit (EvPreempted (event_header (at_record a))) s1)"

definition cancel_pause_emit :: "timestamp \<Rightarrow> (int \<times> active_task) list \<Rightarrow> pause_reasons \<Rightarrow> scheduler \<Rightarrow> scheduler" where
  "cancel_pause_emit now drained reason s = fold (cancel_pause_one now reason) drained s"

definition preempt_below :: "timestamp \<Rightarrow> priority \<Rightarrow> scheduler \<Rightarrow> scheduler \<times> int list" where
  "preempt_below now incoming s =
     (let (s1, drained) = drain_where (\<lambda>a. pvalue (t_priority (at_record a)) > pvalue incoming) s
      in (cancel_pause_emit now drained PREEMPTION s1, map fst drained))"

definition has_preemptors_for :: "priority \<Rightarrow> priority \<Rightarrow> scheduler \<Rightarrow> bool" where
  "has_preemptors_for p threshold s =
     list_ex (\<lambda>(_, a). pvalue (t_priority (at_record a)) \<le> pvalue threshold
                      \<and> pvalue (t_priority (at_record a)) < pvalue p) (s_active s)"

definition pause_active_module :: "timestamp \<Rightarrow> string \<Rightarrow> scheduler \<Rightarrow> scheduler \<times> nat" where
  "pause_active_module now prefix s =
     (let (s1, drained) = drain_where (\<lambda>a. starts_with prefix (t_task_type (at_record a))) s
      in (cancel_pause_emit now drained MODULE s1, length drained))"

definition pause_active_all :: "timestamp \<Rightarrow> scheduler \<Rightarrow> scheduler \<times> nat" where
  "pause_active_all now s =
     (let (s1, drained) = drain_where (\<lambda>_. True) s in (cancel_pause_emit now drained GLOBAL s1, length drained))"

definition pause_active_group :: "timestamp \<Rightarrow> string \<Rightarrow> scheduler \<Rightarrow> scheduler \<times> nat" where
  "pause_active_group now g s =
     (let (s1, drained) = drain_where (\<lambda>a. t_group_key (at_record a) = Some g) s
      in (cancel_pause_emit now drained GROUP s1, length drained))"

text \<open>Shutdown: every token is cancelled and the map is emptied; aborted executions never
  return.\<close>

definition cancel_all :: "scheduler \<Rightarrow> scheduler" where
  "cancel_all s =
     (fold (\<lambda>(_, a) s. cancel_token (at_token a) s) (s_active s) s)
       \<lparr>s_active := [], s_executions := filter (\<lambda>e. ex_id e \<notin> set (map (at_token \<circ> snd) (s_active s))) (s_executions s)\<rparr>"

definition cancel_and_drain_handles :: "scheduler \<Rightarrow> scheduler \<times> nat list" where
  "cancel_and_drain_handles s =
     ((fold (\<lambda>(_, a) s. cancel_token (at_token a) s) (s_active s) s)\<lparr>s_active := []\<rparr>, map (at_token \<circ> snd) (s_active s))"

end
