(* ===== verification/Scheduler_Spawn.thy ===== *)
theory Scheduler_Spawn
  imports Scheduler_State
begin

text \<open>
  Spawned executions and what the scheduler does when one returns
  (\<open>src/src/scheduler/spawn.rs\<close> and \<open>src/src/scheduler/spawn\<close>): success with its coalesced
  completion, failure with its retry decision and the cascade to dependents, siblings and
  parent, and the resolution of a waiting parent.

  A handler runs as one step. Whether it wins the lock of a coalescing channel is the
  argument \<open>leader\<close>; a message that is not drained stays in the channel for a later drain.
  The random source of jittered backoff is \<open>rnd\<close>, a panic in the computation of a delay is
  \<open>None\<close>. The bytes an execution has moved are the argument \<open>metrics\<close>.
\<close>

section \<open>Starting an execution\<close>

definition module_add :: "task_record \<Rightarrow> scheduler \<Rightarrow> scheduler" where
  "module_add task s =
     (case task_module_name task of
        None \<Rightarrow> s
      | Some name \<Rightarrow> s\<lparr>s_module_running := AList.map_entry name Suc (s_module_running s)\<rparr>)"

definition decrement_module :: "task_record \<Rightarrow> scheduler \<Rightarrow> scheduler" where
  "decrement_module task s =
     (case task_module_name task of
        None \<Rightarrow> s
      | Some name \<Rightarrow> s\<lparr>s_module_running := AList.map_entry name (\<lambda>n. n - 1) (s_module_running s)\<rparr>)"

definition spawn_task :: "timestamp \<Rightarrow> instant \<Rightarrow> task_record \<Rightarrow> execution_phase \<Rightarrow> scheduler \<Rightarrow> scheduler" where
  "spawn_task now tick task phase s =
     (let tok = s_next_token s;
          s1 = active_insert (t_id task)
                 \<lparr>at_record = task, at_token = tok, at_reported_progress = None, at_reported_at = None,
                  at_started_at = tick\<rparr> s;
          s2 = module_add task s1;
          s3 = count (\<lambda>c. c\<lparr>dispatched := dispatched c + 1\<rparr>) s2;
          s4 = emit (EvDispatched (event_header_with_aging now (s_aging_config s) task)) s3
      in s4\<lparr>s_executions := s_executions s4 @ [\<lparr>ex_id = tok, ex_task = task, ex_phase = phase, ex_cancelled = False\<rparr>],
            s_next_token := tok + 1\<rparr>)"

definition drop_execution :: "nat \<Rightarrow> scheduler \<Rightarrow> scheduler" where
  "drop_execution tok s = s\<lparr>s_executions := filter (\<lambda>e. ex_id e \<noteq> tok) (s_executions s)\<rparr>"

section \<open>Parents\<close>

text \<open>A failed write is logged only.\<close>

definition record_failure ::
    "(nat \<Rightarrow> nat) \<Rightarrow> timestamp \<Rightarrow> task_record \<Rightarrow> string \<Rightarrow> bool \<Rightarrow> int \<Rightarrow> io_budget \<Rightarrow> fail_backoff \<Rightarrow> scheduler \<Rightarrow> scheduler" where
  "record_failure rnd now task error retryable max_retries metrics backoff s =
     (case fail_with_record rnd now task error retryable max_retries metrics backoff (s_store s) of
        None \<Rightarrow> s
      | Some (st, _) \<Rightarrow> s\<lparr>s_store := st\<rparr>)"

definition handle_parent_resolution :: "(nat \<Rightarrow> nat) \<Rightarrow> timestamp \<Rightarrow> int \<Rightarrow> scheduler \<Rightarrow> scheduler" where
  "handle_parent_resolution rnd now parent_id s =
     (case try_resolve_parent parent_id (st_db (s_store s)) of
        Some ReadyToFinalize \<Rightarrow> notify (s\<lparr>s_pending_finalizers := List.insert parent_id (s_pending_finalizers s)\<rparr>)
      | Some (ParentFailed reason) \<Rightarrow>
          (case task_by_id parent_id (s_store s) of
             Some parent \<Rightarrow> emit (EvFailed (event_header parent) reason False None)
                              (record_failure rnd now parent reason False 0 io_default fail_backoff_default s)
           | None \<Rightarrow> s)
      | Some StillWaiting \<Rightarrow> s
      | None \<Rightarrow> s)"

section \<open>Success\<close>

definition emit_completion_events ::
    "task_record \<Rightarrow> (timestamp \<times> int) option \<Rightarrow> int list \<Rightarrow> scheduler \<Rightarrow> scheduler" where
  "emit_completion_events task recurring_info unblocked s =
     (let s1 = (if t_recurring_interval_secs task \<noteq> None
                then (let (next_run, exec_count) =
                        (case recurring_info of
                           Some (nxt, n) \<Rightarrow> (Some nxt, n)
                         | None \<Rightarrow> (None, t_recurring_execution_count task + 1))
                      in emit (EvRecurringCompleted (event_header task) exec_count next_run) s)
                else s);
          s2 = emit (EvCompleted (event_header task)) s1
      in fold (\<lambda>uid. emit (EvTaskUnblocked uid)) unblocked s2)"

definition process_completion_batch ::
    "(nat \<Rightarrow> nat) \<Rightarrow> timestamp \<Rightarrow> (task_record \<times> io_budget) list \<Rightarrow> scheduler \<Rightarrow> scheduler" where
  "process_completion_batch rnd now batch s =
     (case on_store (complete_batch_with_resolve now batch) s of
        (s1, Inl e) \<Rightarrow> s1
      | (s1, Inr results) \<Rightarrow>
          (let s2 = fold (\<lambda>((task, _), (_, recurring_info, unblocked)). emit_completion_events task recurring_info unblocked)
                      (zip batch results) s1
           in fold (\<lambda>(task, _) s. case t_parent_id task of
                      Some parent_id \<Rightarrow> handle_parent_resolution rnd now parent_id s
                    | None \<Rightarrow> s) batch s2))"

definition drain_completions :: "(nat \<Rightarrow> nat) \<Rightarrow> timestamp \<Rightarrow> scheduler \<Rightarrow> scheduler" where
  "drain_completions rnd now s =
     (let batch = s_completion_queue s; s1 = s\<lparr>s_completion_queue := []\<rparr>
      in if batch = [] then s1 else process_completion_batch rnd now batch s1)"

definition handle_success ::
    "(nat \<Rightarrow> nat) \<Rightarrow> timestamp \<Rightarrow> bool \<Rightarrow> task_record \<Rightarrow> execution_phase \<Rightarrow> io_budget \<Rightarrow> bytes option \<Rightarrow> scheduler \<Rightarrow> scheduler" where
  "handle_success rnd now leader task phase metrics memo s =
     (let task_id = t_id task; children = active_children_count task_id (st_db (s_store s))
      in if phase = Execute \<and> st_has_hierarchy (s_store s) \<and> children > 0
         then (let s1 = on_rows (set_waiting task_id memo) s;
                   s2 = fst (active_remove task_id (decrement_module task s1));
                   s3 = emit (EvWaiting task_id children) s2
               in notify (handle_parent_resolution rnd now task_id s3))
         else (let s1 = count (\<lambda>c. c\<lparr>completed := completed c + 1\<rparr>) s;
                   s2 = fst (active_remove task_id (decrement_module task s1));
                   s3 = s2\<lparr>s_completion_queue := s_completion_queue s2 @ [(task, metrics)]\<rparr>
               in notify (if leader then drain_completions rnd now s3 else s3)))"

section \<open>Failure\<close>

definition effective_max_retries :: "task_record \<Rightarrow> scheduler \<Rightarrow> int" where
  "effective_max_retries task s =
     (case t_max_retries task of
        Some n \<Rightarrow> n
      | None \<Rightarrow> (case type_retry_policy (s_registry s) (t_task_type task) of
                   Some p \<Rightarrow> rp_max_retries p
                 | None \<Rightarrow> s_max_retries s))"

definition backoff_strategy_for :: "task_record \<Rightarrow> scheduler \<Rightarrow> backoff_strategy option" where
  "backoff_strategy_for task s = map_option rp_strategy (type_retry_policy (s_registry s) (t_task_type task))"

definition will_retry :: "task_record \<Rightarrow> task_error \<Rightarrow> scheduler \<Rightarrow> bool" where
  "will_retry task error s \<longleftrightarrow> err_retryable error \<and> t_retry_count task < effective_max_retries task s"

text \<open>The delay before the next attempt.\<close>

definition attempt_delay :: "(nat \<Rightarrow> nat) \<Rightarrow> task_record \<Rightarrow> task_error \<Rightarrow> scheduler \<Rightarrow> duration option" where
  "attempt_delay rnd task error s =
     (case err_retry_after_ms error of
        Some ms \<Rightarrow> Some (from_millis ms)
      | None \<Rightarrow> (case backoff_strategy_for task s of
                   Some strategy \<Rightarrow> delay_for rnd strategy (t_retry_count task)
                 | None \<Rightarrow> Some 0))"

definition process_failure_batch ::
    "(nat \<Rightarrow> nat) \<Rightarrow> timestamp \<Rightarrow> (task_record \<times> string \<times> bool \<times> io_budget) list \<Rightarrow> scheduler \<Rightarrow> scheduler" where
  "process_failure_batch rnd now batch s =
     (case fail_batch rnd now batch (s_store s) of
        None \<Rightarrow> s
      | Some (st, _) \<Rightarrow> s\<lparr>s_store := st\<rparr>)"

definition drain_failures :: "(nat \<Rightarrow> nat) \<Rightarrow> timestamp \<Rightarrow> scheduler \<Rightarrow> scheduler" where
  "drain_failures rnd now s =
     (let batch = s_failure_queue s; s1 = s\<lparr>s_failure_queue := []\<rparr>
      in if batch = [] then s1 else process_failure_batch rnd now batch s1)"

definition cancel_sibling :: "int \<Rightarrow> scheduler \<Rightarrow> scheduler" where
  "cancel_sibling rid s =
     (case active_remove rid s of
        (s1, None) \<Rightarrow> s1
      | (s1, Some a) \<Rightarrow>
          emit (EvCancelled (event_header (at_record a))) (on_rows (fst \<circ> delete_task rid) (cancel_token (at_token a) s1)))"

definition fail_parent :: "(nat \<Rightarrow> nat) \<Rightarrow> timestamp \<Rightarrow> task_record \<Rightarrow> task_error \<Rightarrow> int \<Rightarrow> scheduler \<Rightarrow> scheduler" where
  "fail_parent rnd now task error parent_id s =
     (case task_by_id parent_id (s_store s) of
        None \<Rightarrow> s
      | Some parent \<Rightarrow>
          if t_fail_fast parent
          then (let s1 = (case on_store (cancel_children now parent_id) s of
                            (s1, Inr running_ids) \<Rightarrow> fold cancel_sibling running_ids s1
                          | (s1, Inl e) \<Rightarrow> s1);
                    msg = ''child task '' @ show_int (t_id task) @ '' failed: '' @ err_message error
                in emit (EvFailed (event_header parent) msg False None)
                     (record_failure rnd now parent msg False 0 io_default fail_backoff_default s1))
          else handle_parent_resolution rnd now parent_id s)"

definition propagate_failure :: "(nat \<Rightarrow> nat) \<Rightarrow> timestamp \<Rightarrow> task_record \<Rightarrow> task_error \<Rightarrow> scheduler \<Rightarrow> scheduler" where
  "propagate_failure rnd now task error s =
     (let s1 = (case on_store (fail_dependents now (t_id task)) s of
                  (s1, Inr (failed_ids, unblocked_ids)) \<Rightarrow>
                    (let s2 = count (\<lambda>c. c\<lparr>dependency_failures := dependency_failures c + length failed_ids\<rparr>) s1;
                         s3 = fold (\<lambda>fid. emit (EvDependencyFailed fid (t_id task))) failed_ids s2;
                         s4 = fold (\<lambda>uid. emit (EvTaskUnblocked uid)) unblocked_ids s3
                     in if unblocked_ids \<noteq> [] then notify s4 else s4)
                | (s1, Inl e) \<Rightarrow> s1)
      in case t_parent_id task of
           None \<Rightarrow> s1
         | Some parent_id \<Rightarrow> fail_parent rnd now task error parent_id s1)"

definition count_failure :: "bool \<Rightarrow> bool \<Rightarrow> scheduler \<Rightarrow> scheduler" where
  "count_failure retryable retry =
     count (\<lambda>c. c\<lparr>failed := failed c + 1,
                  failed_retryable := (if retryable then failed_retryable c + 1 else failed_retryable c),
                  retried := (if retry then retried c + 1 else retried c)\<rparr>)"

definition write_failure ::
    "(nat \<Rightarrow> nat) \<Rightarrow> timestamp \<Rightarrow> bool \<Rightarrow> task_record \<Rightarrow> task_error \<Rightarrow> io_budget \<Rightarrow> duration \<Rightarrow> scheduler \<Rightarrow> scheduler" where
  "write_failure rnd now leader task error metrics delay s =
     (if will_retry task error s then on_rows (requeue_for_retry now (t_id task) (err_message error) delay) s
      else if t_parent_id task \<noteq> None
      then record_failure rnd now task (err_message error) (err_retryable error) (effective_max_retries task s) metrics
             \<lparr>fb_strategy = backoff_strategy_for task s, fb_executor_retry_after_ms = err_retry_after_ms error\<rparr> s
      else (let s1 = s\<lparr>s_failure_queue := s_failure_queue s @ [(task, err_message error, err_retryable error, metrics)]\<rparr>
            in if leader then drain_failures rnd now s1 else s1))"

definition handle_failure ::
    "(nat \<Rightarrow> nat) \<Rightarrow> timestamp \<Rightarrow> bool \<Rightarrow> task_record \<Rightarrow> task_error \<Rightarrow> io_budget \<Rightarrow> scheduler \<Rightarrow> scheduler option" where
  "handle_failure rnd now leader task error metrics s =
     (let retry = will_retry task error s
      in case (if retry then attempt_delay rnd task error s else Some 0) of
           None \<Rightarrow> None
         | Some delay \<Rightarrow>
             (let s1 = write_failure rnd now leader task error metrics delay (count_failure (err_retryable error) retry s);
                  s2 = fst (active_remove (t_id task) (decrement_module task s1));
                  retry_delay = (if retry \<and> (err_retry_after_ms error \<noteq> None \<or> delay \<noteq> 0) then Some delay else None);
                  s3 = (if err_retryable error \<and> \<not> retry
                        then emit (EvDeadLettered (event_header task) (err_message error) (t_retry_count task + 1))
                               (count (\<lambda>c. c\<lparr>dead_lettered := dead_lettered c + 1\<rparr>) s2)
                        else emit (EvFailed (event_header task) (err_message error) retry retry_delay) s2);
                  s4 = notify s3
              in Some (if retry then s4 else propagate_failure rnd now task error s4)))"

section \<open>An execution returns\<close>

text \<open>\<open>Inr\<close> is success with the memo, \<open>Inl\<close> an error. A zero delay retries in place: the
  execution stays, with the retry counted in its record and in the store.\<close>

definition retry_inline :: "execution \<Rightarrow> task_error \<Rightarrow> scheduler \<Rightarrow> scheduler" where
  "retry_inline e error s =
     (let task = (ex_task e)\<lparr>t_retry_count := t_retry_count (ex_task e) + 1\<rparr>;
          s1 = on_rows (increment_retry (t_id task) (err_message error)) s;
          s2 = count_failure True True s1;
          s3 = emit (EvFailed (event_header task) (err_message error) True None) s2
      in s3\<lparr>s_executions := map (\<lambda>x. if ex_id x = ex_id e then x\<lparr>ex_task := task\<rparr> else x) (s_executions s3)\<rparr>)"

definition execution_fails ::
    "(nat \<Rightarrow> nat) \<Rightarrow> timestamp \<Rightarrow> bool \<Rightarrow> execution \<Rightarrow> task_error \<Rightarrow> io_budget \<Rightarrow> scheduler \<Rightarrow> scheduler option" where
  "execution_fails rnd now leader e error metrics s =
     (let task = ex_task e
      in if ex_cancelled e then Some (drop_execution (ex_id e) (fst (active_remove (t_id task) (decrement_module task s))))
         else if ex_phase e = Execute \<and> will_retry task error s
         then (case attempt_delay rnd task error s of
                 None \<Rightarrow> None
               | Some delay \<Rightarrow>
                   if delay = 0 then Some (retry_inline e error s)
                   else map_option (drop_execution (ex_id e)) (handle_failure rnd now leader task error metrics s))
         else map_option (drop_execution (ex_id e)) (handle_failure rnd now leader task error metrics s))"

definition execution_returns ::
    "(nat \<Rightarrow> nat) \<Rightarrow> timestamp \<Rightarrow> bool \<Rightarrow> nat \<Rightarrow> (task_error + bytes option) \<Rightarrow> io_budget \<Rightarrow> scheduler \<Rightarrow> scheduler" where
  "execution_returns rnd now leader tok result metrics s =
     (case find (\<lambda>e. ex_id e = tok) (s_executions s) of
        None \<Rightarrow> s
      | Some e \<Rightarrow>
          (case result of
             Inr memo \<Rightarrow>
               drop_execution tok (handle_success rnd now leader (ex_task e) (ex_phase e) metrics
                 (if ex_phase e = Execute then memo else None) s)
           | Inl error \<Rightarrow>
               (case execution_fails rnd now leader e error metrics s of
                  None \<Rightarrow> drop_execution tok s
                | Some s' \<Rightarrow> s')))"

end
