(* ===== verification/Scheduler_Dispatch.thy ===== *)
theory Scheduler_Dispatch
  imports Scheduler_Spawn
begin

text \<open>
  Dispatch (\<open>src/src/scheduler/run_loop.rs\<close>): popping or peeking the next task, the gate, the
  claim and the spawn; the fast path that pops in batches; the three passes of fair
  dispatch; and the finalize phase of parents.

  One attempt reads both clocks once: \<open>now\<close> is the wall clock in milliseconds, \<open>tick\<close> the
  monotonic one in nanoseconds. The loops that run until nothing more can be dispatched
  take the list of the readings of their attempts, and return \<open>None\<close> when the list is too
  short. A \<open>HashSet\<close> is a list without duplicates; its iteration order is that list's.
\<close>

section \<open>One task\<close>

definition current_aging :: "timestamp \<Rightarrow> scheduler \<Rightarrow> aging_params option" where
  "current_aging now s = map_option (aging_params_from_config now) (s_aging_config s)"

definition spawn_dispatched_task ::
    "(nat \<Rightarrow> nat) \<Rightarrow> timestamp \<Rightarrow> instant \<Rightarrow> task_record \<Rightarrow> scheduler \<Rightarrow> scheduler \<times> (store_error + bool)" where
  "spawn_dispatched_task rnd now tick task s =
     (if is_registered (s_registry s) (t_task_type task)
      then (spawn_task now tick task Execute s, Inr True)
      else case fail_with_record rnd now task
                  (''no executor registered for type '' @ [CHR 0x27] @ t_task_type task @ [CHR 0x27]) False 0 io_default
                  fail_backoff_default (s_store s) of
             None \<Rightarrow> (s, Inr True)
           | Some (st, Inl e) \<Rightarrow> (s\<lparr>s_store := st\<rparr>, Inl e)
           | Some (st, Inr _) \<Rightarrow> (s\<lparr>s_store := st\<rparr>, Inr True))"

definition expire_task_inline :: "bool \<Rightarrow> timestamp \<Rightarrow> int \<Rightarrow> scheduler \<Rightarrow> scheduler" where
  "expire_task_inline counted now i s =
     (case on_store (expire_single now i) s of
        (s1, Inr (Some task)) \<Rightarrow>
          emit (EvTaskExpired (event_header task) (from_millis (nat (now - t_created_at task))))
            (if counted then count (\<lambda>c. c\<lparr>expired := expired c + 1\<rparr>) s1 else s1)
      | (s1, _) \<Rightarrow> s1)"

definition gate_context_of :: "string list \<Rightarrow> bool \<Rightarrow> scheduler \<Rightarrow> gate_context" where
  "gate_context_of paused skip s =
     \<lparr>gc_store = s_store s, gc_resource = s_resource s, gc_group_limits = Some (s_group_limits s),
      gc_module_caps = s_module_caps s, gc_module_running = s_module_running s, gc_paused_groups = paused,
      gc_type_rate_limits = s_type_rate_limits s, gc_group_rate_limits = s_group_rate_limits s,
      gc_skip_group_concurrency = skip, gc_counters = s_counters s\<rparr>"

definition consult_gate :: "string list \<Rightarrow> bool \<Rightarrow> instant \<Rightarrow> task_record \<Rightarrow> scheduler \<Rightarrow> scheduler \<times> admission" where
  "consult_gate paused skip tick task s =
     (case admit (s_gate s) tick task (gate_context_of paused skip s) of
        (ctx, a) \<Rightarrow> (s\<lparr>s_type_rate_limits := gc_type_rate_limits ctx, s_group_rate_limits := gc_group_rate_limits ctx,
                      s_counters := gc_counters ctx\<rparr>, a))"

text \<open>The record of a claimed task, patched in memory.\<close>

definition claimed_record :: "timestamp \<Rightarrow> task_record \<Rightarrow> task_record" where
  "claimed_record now task =
     (let t1 = task\<lparr>t_status := Running, t_started_at := Some now\<rparr>
      in if t_ttl_from t1 = FirstAttempt \<and> t_expires_at t1 = None
         then (case t_ttl_seconds t1 of
                 Some ttl \<Rightarrow> t1\<lparr>t_expires_at := Some (now + ttl * 1000)\<rparr>
               | None \<Rightarrow> t1)
         else t1)"

definition defer_task :: "timestamp \<Rightarrow> instant \<Rightarrow> instant \<Rightarrow> int \<Rightarrow> scheduler \<Rightarrow> scheduler" where
  "defer_task now tick nxt i = on_rows (set_run_after i (now + max 0 (nxt - tick) div 1000000))"

datatype attempt = NoCandidate | Expired | Started | NotClaimed | Deferred | Denied | Broken store_error

text \<open>Expiry check, gate, claim and spawn of a peeked candidate.\<close>

definition attempt_task ::
    "(nat \<Rightarrow> nat) \<Rightarrow> bool \<Rightarrow> string list \<Rightarrow> bool \<Rightarrow> timestamp \<Rightarrow> instant \<Rightarrow> task_record option \<Rightarrow> scheduler \<Rightarrow> scheduler \<times> attempt" where
  "attempt_task rnd counted paused skip now tick peeked s =
     (case peeked of
        None \<Rightarrow> (s, NoCandidate)
      | Some cand \<Rightarrow>
          if expirable now cand then (expire_task_inline counted now (t_id cand) s, Expired)
          else (let candidate = populate_tags (s_store s) cand
                in case consult_gate paused skip tick candidate s of
                     (s1, Admit) \<Rightarrow>
                       (case on_store (claim_task now (t_id candidate)) s1 of
                          (s2, False) \<Rightarrow> (s2, NotClaimed)
                        | (s2, True) \<Rightarrow>
                            (case spawn_dispatched_task rnd now tick (claimed_record now candidate) s2 of
                               (s3, Inl e) \<Rightarrow> (s3, Broken e)
                             | (s3, Inr _) \<Rightarrow> (s3, Started)))
                   | (s1, RateLimited nxt) \<Rightarrow> (defer_task now tick nxt (t_id candidate) s1, Deferred)
                   | (s1, Deny) \<Rightarrow> (s1, Denied)))"

section \<open>Without group weights\<close>

definition try_dispatch :: "(nat \<Rightarrow> nat) \<Rightarrow> timestamp \<Rightarrow> instant \<Rightarrow> scheduler \<Rightarrow> scheduler \<times> (store_error + bool)" where
  "try_dispatch rnd now tick s =
     (if active_count s \<ge> s_max_concurrency s then (s, Inr False)
      else if s_fast_dispatch s
      then (case on_store (pop_next now (current_aging now s)) s of
              (s1, None) \<Rightarrow> (s1, Inr False)
            | (s1, Some task) \<Rightarrow> spawn_dispatched_task rnd now tick (populate_tags (s_store s1) task) s1)
      else (case attempt_task rnd True (s_paused_groups s) False now tick
                   (peek_next now (current_aging now s) (st_db (s_store s))) s of
              (s1, NoCandidate) \<Rightarrow> (s1, Inr False)
            | (s1, Expired) \<Rightarrow> (s1, Inr True)
            | (s1, Started) \<Rightarrow> (s1, Inr True)
            | (s1, NotClaimed) \<Rightarrow> (s1, Inr False)
            | (s1, Deferred) \<Rightarrow> (s1, Inr True)
            | (s1, Denied) \<Rightarrow> (s1, Inr False)
            | (s1, Broken e) \<Rightarrow> (s1, Inl e)))"

fun dispatch_loop ::
    "(nat \<Rightarrow> nat) \<Rightarrow> (timestamp \<times> instant) list \<Rightarrow> scheduler \<Rightarrow> (scheduler \<times> (store_error + unit)) option" where
  "dispatch_loop rnd [] s = None"
| "dispatch_loop rnd ((now, tick) # clock) s =
     (case try_dispatch rnd now tick s of
        (s1, Inr True) \<Rightarrow> dispatch_loop rnd clock s1
      | (s1, Inr False) \<Rightarrow> Some (s1, Inr ())
      | (s1, Inl e) \<Rightarrow> Some (s1, Inl e))"

fun spawn_all ::
    "(nat \<Rightarrow> nat) \<Rightarrow> timestamp \<Rightarrow> instant \<Rightarrow> task_record list \<Rightarrow> scheduler \<Rightarrow> scheduler \<times> (store_error + unit)" where
  "spawn_all rnd now tick [] s = (s, Inr ())"
| "spawn_all rnd now tick (task # ts) s =
     (case spawn_dispatched_task rnd now tick task s of
        (s1, Inl e) \<Rightarrow> (s1, Inl e)
      | (s1, Inr _) \<Rightarrow> spawn_all rnd now tick ts s1)"

fun batch_loop ::
    "(nat \<Rightarrow> nat) \<Rightarrow> aging_params option \<Rightarrow> (timestamp \<times> instant) list \<Rightarrow> scheduler \<Rightarrow> (scheduler \<times> (store_error + unit)) option" where
  "batch_loop rnd aging [] s = None"
| "batch_loop rnd aging ((now, tick) # clock) s =
     (if active_count s \<ge> s_max_concurrency s then Some (s, Inr ())
      else case on_store (pop_next_batch now (s_max_concurrency s - active_count s) aging) s of
             (s1, popped) \<Rightarrow>
               if popped = [] then Some (s1, Inr ())
               else (case spawn_all rnd now tick (map (populate_tags (s_store s1)) popped) s1 of
                       (s2, Inl e) \<Rightarrow> Some (s2, Inl e)
                     | (s2, Inr _) \<Rightarrow> batch_loop rnd aging clock s2))"

section \<open>Fair dispatch\<close>

definition merge_demand :: "(group \<times> nat) list \<Rightarrow> (group \<times> nat) list \<Rightarrow> (group \<times> group_demand) list" where
  "merge_demand running pending =
     map (\<lambda>g. (g, \<lparr>d_running = slots running g, d_pending = slots pending g\<rparr>))
       (remdups (map fst running @ map fst pending))"

definition peek_group :: "timestamp \<Rightarrow> aging_params option \<Rightarrow> group \<Rightarrow> scheduler \<Rightarrow> task_record option" where
  "peek_group now aging g s =
     (case g of
        Some key \<Rightarrow> peek_next_in_group now key aging (st_db (s_store s))
      | None \<Rightarrow> peek_next_ungrouped now aging (st_db (s_store s)))"

text \<open>Pass 1 within one group: at most \<open>n\<close> attempts; the number of tasks launched in this
  cycle is threaded through.\<close>

fun fair_group ::
    "(nat \<Rightarrow> nat) \<Rightarrow> nat \<Rightarrow> string list \<Rightarrow> aging_params option \<Rightarrow> timestamp \<Rightarrow> instant \<Rightarrow> group \<Rightarrow> nat \<Rightarrow> nat \<Rightarrow> scheduler
     \<Rightarrow> scheduler \<times> (store_error + nat)" where
  "fair_group rnd mx paused aging now tick g 0 launched s = (s, Inr launched)"
| "fair_group rnd mx paused aging now tick g (Suc n) launched s =
     (if active_count s + launched \<ge> mx then (s, Inr launched)
      else case attempt_task rnd False paused True now tick (peek_group now aging g s) s of
             (s1, NoCandidate) \<Rightarrow> (s1, Inr launched)
           | (s1, Started) \<Rightarrow> fair_group rnd mx paused aging now tick g n (launched + 1) s1
           | (s1, Denied) \<Rightarrow> (s1, Inr launched)
           | (s1, Broken e) \<Rightarrow> (s1, Inl e)
           | (s1, _) \<Rightarrow> fair_group rnd mx paused aging now tick g n launched s1)"

fun fair_pass ::
    "(nat \<Rightarrow> nat) \<Rightarrow> nat \<Rightarrow> string list \<Rightarrow> aging_params option \<Rightarrow> timestamp \<Rightarrow> instant \<Rightarrow> (group \<times> nat) list \<Rightarrow> slot_allocation
     \<Rightarrow> nat \<Rightarrow> scheduler \<Rightarrow> scheduler \<times> (store_error + nat)" where
  "fair_pass rnd mx paused aging now tick running [] launched s = (s, Inr launched)"
| "fair_pass rnd mx paused aging now tick running ((g, total_slots) # alloc) launched s =
     (case fair_group rnd mx paused aging now tick g (total_slots - slots running g) launched s of
        (s1, Inl e) \<Rightarrow> (s1, Inl e)
      | (s1, Inr n) \<Rightarrow> fair_pass rnd mx paused aging now tick running alloc n s1)"

text \<open>Passes 2 and 3: at most \<open>n\<close> attempts on what \<open>peek\<close> finds.\<close>

fun greedy_pass ::
    "(nat \<Rightarrow> nat) \<Rightarrow> string list \<Rightarrow> (scheduler \<Rightarrow> task_record option) \<Rightarrow> timestamp \<Rightarrow> instant \<Rightarrow> nat \<Rightarrow> scheduler
     \<Rightarrow> scheduler \<times> (store_error + unit)" where
  "greedy_pass rnd paused peek now tick 0 s = (s, Inr ())"
| "greedy_pass rnd paused peek now tick (Suc n) s =
     (case attempt_task rnd False paused False now tick (peek s) s of
        (s1, NoCandidate) \<Rightarrow> (s1, Inr ())
      | (s1, Denied) \<Rightarrow> (s1, Inr ())
      | (s1, Broken e) \<Rightarrow> (s1, Inl e)
      | (s1, _) \<Rightarrow> greedy_pass rnd paused peek now tick n s1)"

definition dispatch_urgent ::
    "(nat \<Rightarrow> nat) \<Rightarrow> priority \<Rightarrow> nat \<Rightarrow> aging_params option \<Rightarrow> timestamp \<Rightarrow> instant \<Rightarrow> scheduler \<Rightarrow> scheduler \<times> (store_error + unit)" where
  "dispatch_urgent rnd threshold limit aging now tick s =
     greedy_pass rnd (s_paused_groups s) (\<lambda>s. peek_next_urgent now threshold aging (st_db (s_store s))) now tick limit s"

definition urgent_pass ::
    "(nat \<Rightarrow> nat) \<Rightarrow> nat \<Rightarrow> aging_params option \<Rightarrow> timestamp \<Rightarrow> instant \<Rightarrow> scheduler \<Rightarrow> scheduler \<times> (store_error + unit)" where
  "urgent_pass rnd mx aging now tick s =
     (case s_aging_config s of
        None \<Rightarrow> (s, Inr ())
      | Some config \<Rightarrow>
          (case urgent_threshold config of
             None \<Rightarrow> (s, Inr ())
           | Some urgent \<Rightarrow> dispatch_urgent rnd urgent (mx - active_count s) aging now tick s))"

definition dispatch_fair :: "(nat \<Rightarrow> nat) \<Rightarrow> timestamp \<Rightarrow> instant \<Rightarrow> scheduler \<Rightarrow> scheduler \<times> (store_error + unit)" where
  "dispatch_fair rnd now tick s =
     (let mx = s_max_concurrency s
      in if active_count s \<ge> mx then (s, Inr ())
         else (let aging = current_aging now s;
                   running = running_counts_per_group (st_db (s_store s));
                   pending = pending_counts_per_group now (st_db (s_store s));
                   paused = s_paused_groups s;
                   alloc = compute_allocation mx (merge_demand running pending) (s_group_weights s) (s_group_limits s) paused
               in case fair_pass rnd mx paused aging now tick running alloc 0 s of
                    (s1, Inl e) \<Rightarrow> (s1, Inl e)
                  | (s1, Inr launched) \<Rightarrow>
                      (case greedy_pass rnd paused (\<lambda>s. peek_next now aging (st_db (s_store s))) now tick
                              (mx - (active_count s1 + launched)) s1 of
                         (s2, Inl e) \<Rightarrow> (s2, Inl e)
                       | (s2, Inr _) \<Rightarrow> urgent_pass rnd mx aging now tick s2)))"

definition dispatch_pending ::
    "(nat \<Rightarrow> nat) \<Rightarrow> timestamp \<Rightarrow> instant \<Rightarrow> (timestamp \<times> instant) list \<Rightarrow> scheduler \<Rightarrow> (scheduler \<times> (store_error + unit)) option" where
  "dispatch_pending rnd now tick clock s =
     (if is_configured (s_group_weights s) then Some (dispatch_fair rnd now tick s)
      else if s_fast_dispatch s then batch_loop rnd (current_aging now s) clock s
      else dispatch_loop rnd clock s)"

section \<open>Finalizers\<close>

definition try_dispatch_finalizer ::
    "(nat \<Rightarrow> nat) \<Rightarrow> timestamp \<Rightarrow> instant \<Rightarrow> scheduler \<Rightarrow> scheduler \<times> (store_error + bool)" where
  "try_dispatch_finalizer rnd now tick s =
     (case s_pending_finalizers s of
        [] \<Rightarrow> (s, Inr False)
      | parent_id # rest \<Rightarrow>
          (let s1 = s\<lparr>s_pending_finalizers := rest\<rparr>;
               deferred = (case task_by_id parent_id (s_store s1) of
                             Some parent \<Rightarrow> (case t_group_key parent of Some g \<Rightarrow> g \<in> set (s_paused_groups s1) | None \<Rightarrow> False)
                           | None \<Rightarrow> False)
           in if deferred then (s1\<lparr>s_pending_finalizers := List.insert parent_id rest\<rparr>, Inr False)
              else (let s2 = on_rows (set_running_for_finalize now parent_id) s1
                    in case task_by_id parent_id (s_store s2) of
                         None \<Rightarrow> (s2, Inr False)
                       | Some task \<Rightarrow>
                           if is_registered (s_registry s2) (t_task_type task)
                           then (spawn_task now tick task Finalize s2, Inr True)
                           else (case fail rnd now parent_id ''no executor for finalize'' False 0 io_default
                                        fail_backoff_default (s_store s2) of
                                   None \<Rightarrow> (s2, Inr True)
                                 | Some (st, Inl e) \<Rightarrow> (s2\<lparr>s_store := st\<rparr>, Inl e)
                                 | Some (st, Inr _) \<Rightarrow> (s2\<lparr>s_store := st\<rparr>, Inr True)))))"

text \<open>The loop over the finalizers; each round that goes on has removed one, so their number
  bounds it.\<close>

fun finalizer_loop :: "nat \<Rightarrow> (nat \<Rightarrow> nat) \<Rightarrow> timestamp \<Rightarrow> instant \<Rightarrow> scheduler \<Rightarrow> scheduler" where
  "finalizer_loop 0 rnd now tick s = s"
| "finalizer_loop (Suc n) rnd now tick s =
     (case try_dispatch_finalizer rnd now tick s of
        (s1, Inr True) \<Rightarrow> finalizer_loop n rnd now tick s1
      | (s1, _) \<Rightarrow> s1)"

definition dispatch_finalizers :: "(nat \<Rightarrow> nat) \<Rightarrow> timestamp \<Rightarrow> instant \<Rightarrow> scheduler \<Rightarrow> scheduler" where
  "dispatch_finalizers rnd now tick s = finalizer_loop (Suc (length (s_pending_finalizers s))) rnd now tick s"

end
