(* ===== verification/Scheduler_Submit.thy ===== *)
theory Scheduler_Submit
  imports Scheduler_Dispatch
begin

text \<open>
  Submission and cancellation through the scheduler (\<open>src/src/scheduler/submit.rs\<close>): the
  store's operation, then what the scheduler adds to it: the time to live of the type, the
  counters, the replaced execution of a superseded task, preemption, and the wake-up of
  the run loop.

  A submission that loses the race for the channel waits in \<open>s_submit_queue\<close>; whoever
  drains the channel next decides its outcome, and what its caller does with the outcome
  follows in the order of the channel. The \<open>on_cancel\<close> hook is user code that runs beside
  the scheduler; it does not appear.
\<close>

section \<open>Submission\<close>

definition resolve_ttl :: "scheduler \<Rightarrow> task_submission \<Rightarrow> task_submission" where
  "resolve_ttl s sub =
     (if sub_ttl sub \<noteq> None then sub
      else case type_ttl (s_registry s) (sub_task_type sub) of
             Some ttl \<Rightarrow> sub\<lparr>sub_ttl := Some ttl\<rparr>
           | None \<Rightarrow> (case s_default_ttl s of
                        Some ttl \<Rightarrow> sub\<lparr>sub_ttl := Some ttl\<rparr>
                      | None \<Rightarrow> sub))"

definition count_outcome :: "submit_outcome \<Rightarrow> scheduler \<Rightarrow> scheduler" where
  "count_outcome outcome s =
     (case outcome of
        Inserted _ _ \<Rightarrow> count (\<lambda>c. c\<lparr>submitted := submitted c + 1\<rparr>) s
      | Superseded _ _ \<Rightarrow> count (\<lambda>c. c\<lparr>submitted := submitted c + 1, superseded := superseded c + 1\<rparr>) s
      | _ \<Rightarrow> s)"

text \<open>Take an execution out of the active map: \<open>Inr True\<close> when it was there. The record
  goes to the history first; an error there is returned with the execution already gone.\<close>

definition cancel_active :: "timestamp \<Rightarrow> int \<Rightarrow> (scheduler, store_error, bool) stmt" where
  "cancel_active now i s =
     (case active_remove i s of
        (s1, None) \<Rightarrow> (s1, Inr False)
      | (s1, Some a) \<Rightarrow>
          (case on_store (cancel_to_history_with_record now (at_record a)) (cancel_token (at_token a) s1) of
             (s2, Inl e) \<Rightarrow> (s2, Inl e)
           | (s2, Inr _) \<Rightarrow> (emit (EvCancelled (event_header (at_record a))) s2, Inr True)))"

text \<open>The same for the children of a superseded task, where the error is dropped.\<close>

definition cancel_replaced_child :: "timestamp \<Rightarrow> int \<Rightarrow> scheduler \<Rightarrow> scheduler" where
  "cancel_replaced_child now i s =
     (case active_remove i s of
        (s1, None) \<Rightarrow> s1
      | (s1, Some a) \<Rightarrow>
          emit (EvCancelled (event_header (at_record a)))
            (fst (on_store (cancel_to_history_with_record now (at_record a)) (cancel_token (at_token a) s1))))"

definition handle_superseded_active :: "timestamp \<Rightarrow> int \<Rightarrow> scheduler \<Rightarrow> scheduler" where
  "handle_superseded_active now replaced s =
     (let s1 = (case on_store (cancel_children now replaced) s of
                  (s1, Inr running) \<Rightarrow> fold (cancel_replaced_child now) running s1
                | (s1, Inl e) \<Rightarrow> s1)
      in case active_remove replaced s1 of
           (s2, None) \<Rightarrow> s2
         | (s2, Some a) \<Rightarrow> emit (EvCancelled (event_header (at_record a))) (cancel_token (at_token a) s2))"

definition superseded_header :: "(bytes \<Rightarrow> string) \<Rightarrow> int \<Rightarrow> task_submission \<Rightarrow> task_event_header" where
  "superseded_header sha256_hex replaced sub =
     \<lparr>eh_task_id = replaced, eh_task_type = sub_task_type sub, eh_module = module_of_type (sub_task_type sub),
      eh_key = effective_key sha256_hex sub, eh_label = sub_label sub, eh_tags = sub_tags sub,
      eh_base_priority = sub_priority sub, eh_effective_priority = sub_priority sub\<rparr>"

definition handle_superseded ::
    "(bytes \<Rightarrow> string) \<Rightarrow> timestamp \<Rightarrow> task_submission \<Rightarrow> submit_outcome \<Rightarrow> scheduler \<Rightarrow> scheduler" where
  "handle_superseded sha256_hex now sub outcome s =
     (case outcome of
        Superseded new_id replaced \<Rightarrow>
          emit (EvSuperseded (superseded_header sha256_hex replaced sub) new_id) (handle_superseded_active now replaced s)
      | _ \<Rightarrow> s)"

definition preempt_for :: "timestamp \<Rightarrow> priority \<Rightarrow> scheduler \<Rightarrow> scheduler" where
  "preempt_for now p s =
     (if pvalue p \<le> pvalue (s_preempt_priority s)
      then (case preempt_below now p s of
              (s1, []) \<Rightarrow> s1
            | (s1, _ # _) \<Rightarrow> s1\<lparr>s_has_paused_tasks := True\<rparr>)
      else s)"

definition changed :: "submit_outcome \<Rightarrow> bool" where
  "changed outcome \<longleftrightarrow> outcome \<noteq> Duplicate \<and> outcome \<noteq> Rejected"

definition after_submit ::
    "(bytes \<Rightarrow> string) \<Rightarrow> timestamp \<Rightarrow> task_submission \<Rightarrow> submit_outcome \<Rightarrow> scheduler \<Rightarrow> scheduler" where
  "after_submit sha256_hex now sub outcome s =
     (let s1 = handle_superseded sha256_hex now sub outcome (count_outcome outcome s)
      in if changed outcome then notify (preempt_for now (sub_priority sub) s1) else s1)"

definition after_submits ::
    "(bytes \<Rightarrow> string) \<Rightarrow> timestamp \<Rightarrow> (task_submission \<times> (store_error + submit_outcome)) list \<Rightarrow> scheduler \<Rightarrow> scheduler" where
  "after_submits sha256_hex now =
     fold (\<lambda>(sub, r) s. case r of Inl e \<Rightarrow> s | Inr outcome \<Rightarrow> after_submit sha256_hex now sub outcome s)"

definition sched_submit ::
    "(bytes \<Rightarrow> string) \<Rightarrow> timestamp \<Rightarrow> task_submission \<Rightarrow> (scheduler, store_error, submit_outcome) stmt" where
  "sched_submit sha256_hex now sub0 s =
     (let sub = resolve_ttl s sub0
      in case prevalidate sub of
           Inl e \<Rightarrow> (s, Inl e)
         | Inr _ \<Rightarrow>
             (case submit sha256_hex now (s_submit_queue s) sub (s_store s) of
                (st, rs, r) \<Rightarrow>
                  (let s1 = after_submits sha256_hex now (zip (s_submit_queue s) rs @ [(sub, r)])
                              (s\<lparr>s_store := st, s_submit_queue := []\<rparr>)
                   in (s1, r))))"

text \<open>A submission while another caller is draining the channel.\<close>

definition sched_submit_queued :: "task_submission \<Rightarrow> (scheduler, store_error, unit) stmt" where
  "sched_submit_queued sub0 s =
     (let sub = resolve_ttl s sub0
      in case prevalidate sub of
           Inl e \<Rightarrow> (s, Inl e)
         | Inr _ \<Rightarrow> (s\<lparr>s_submit_queue := s_submit_queue s @ [sub]\<rparr>, Inr ()))"

fun best_priority :: "priority list \<Rightarrow> priority option" where
  "best_priority [] = None"
| "best_priority (p # ps) = Some (fold (\<lambda>q m. if pvalue q < pvalue m then q else m) ps p)"

definition sched_submit_batch ::
    "(bytes \<Rightarrow> string) \<Rightarrow> timestamp \<Rightarrow> task_submission list \<Rightarrow> (scheduler, store_error, batch_outcome) stmt" where
  "sched_submit_batch sha256_hex now subs s =
     (let resolved = map (resolve_ttl s) subs
      in case on_store (submit_batch sha256_hex now resolved) s of
           (s1, Inl e) \<Rightarrow> (s1, Inl e)
         | (s1, Inr results) \<Rightarrow>
             (let s2 = fold count_outcome results (count (\<lambda>c. c\<lparr>batches_submitted := batches_submitted c + 1\<rparr>) s1);
                  s3 = fold (\<lambda>(sub, outcome). handle_superseded sha256_hex now sub outcome) (zip resolved results) s2;
                  best = best_priority (map (sub_priority \<circ> fst) (filter (changed \<circ> snd) (zip resolved results)));
                  s4 = (case best of Some p \<Rightarrow> preempt_for now p s3 | None \<Rightarrow> s3);
                  s5 = (if list_ex changed results
                        then notify (emit (EvBatchSubmitted (length resolved) (batch_inserted results)) s4) else s4)
              in (s5, Inr results)))"

definition submit_built ::
    "(bytes \<Rightarrow> string) \<Rightarrow> timestamp \<Rightarrow> batch_submission \<Rightarrow> (scheduler, store_error, batch_outcome) stmt" where
  "submit_built sha256_hex now batch = sched_submit_batch sha256_hex now (batch_build batch)"

definition sched_task_lookup :: "(bytes \<Rightarrow> string) \<Rightarrow> string \<Rightarrow> bytes option \<Rightarrow> scheduler \<Rightarrow> task_lookup" where
  "sched_task_lookup sha256_hex ty dedup_input s =
     lookup_task (generate_dedup_key sha256_hex ty dedup_input) (s_store s)"

section \<open>Cancellation\<close>

definition sched_cancel :: "timestamp \<Rightarrow> int \<Rightarrow> (scheduler, store_error, bool) stmt" where
  "sched_cancel now i =
     andThen (on_store (cancel_children now i)) (\<lambda>running.
     andThen (for_each (\<lambda>child. andThen (cancel_active now child) (\<lambda>_. ok ())) running) (\<lambda>_.
     andThen (cancel_active now i) (\<lambda>was_active.
       if was_active then ok True else on_store (cancel_to_history now i))))"

text \<open>The ids that were found, in order.\<close>

definition cancel_each :: "timestamp \<Rightarrow> int list \<Rightarrow> (scheduler, store_error, int list) stmt" where
  "cancel_each now ids =
     andThen (collect_each (\<lambda>i. andThen (sched_cancel now i) (\<lambda>found. ok (if found then [i] else []))) ids)
       (\<lambda>found. ok (concat found))"

definition cancel_group :: "timestamp \<Rightarrow> string \<Rightarrow> (scheduler, store_error, int list) stmt" where
  "cancel_group now g s = cancel_each now (map t_id (tasks_by_group g (s_store s))) s"

definition cancel_type :: "timestamp \<Rightarrow> string \<Rightarrow> (scheduler, store_error, int list) stmt" where
  "cancel_type now ty s = cancel_each now (map t_id (tasks_by_type ty (s_store s))) s"

definition cancel_by_tag :: "timestamp \<Rightarrow> string \<Rightarrow> string \<Rightarrow> (scheduler, store_error, int list) stmt" where
  "cancel_by_tag now k v s = cancel_each now (task_ids_by_tags [(k, v)] None (st_db (s_store s))) s"

definition cancel_by_tag_key_prefix :: "timestamp \<Rightarrow> string \<Rightarrow> (scheduler, store_error, int list) stmt" where
  "cancel_by_tag_key_prefix now prefix s =
     cancel_each now (task_ids_by_tag_key_prefix prefix None (st_db (s_store s))) s"

definition cancel_where :: "timestamp \<Rightarrow> (task_record \<Rightarrow> bool) \<Rightarrow> (scheduler, store_error, int list) stmt" where
  "cancel_where now p s = cancel_each now (map t_id (filter p (all_active_tasks (s_store s)))) s"

definition sched_pause_recurring :: "int \<Rightarrow> scheduler \<Rightarrow> scheduler" where
  "sched_pause_recurring i = on_rows (pause_recurring i)"

definition sched_resume_recurring :: "int \<Rightarrow> scheduler \<Rightarrow> scheduler" where
  "sched_resume_recurring i = on_rows (resume_recurring i)"

definition sched_cancel_recurring :: "timestamp \<Rightarrow> int \<Rightarrow> (scheduler, store_error, bool) stmt" where
  "sched_cancel_recurring now i =
     andThen (cancel_active now i) (\<lambda>was_active.
       if was_active then ok True else on_store (cancel_recurring now i))"

section \<open>Dead letters\<close>

fun debug_history_status :: "history_status \<Rightarrow> string" where
  "debug_history_status HCompleted = ''Completed''"
| "debug_history_status HFailed = ''Failed''"
| "debug_history_status HCancelled = ''Cancelled''"
| "debug_history_status HSuperseded = ''Superseded''"
| "debug_history_status HExpired = ''Expired''"
| "debug_history_status HDependencyFailed = ''DependencyFailed''"
| "debug_history_status HDeadLetter = ''DeadLetter''"

definition resubmission :: "history_record \<Rightarrow> task_submission" where
  "resubmission h =
     (let sub = (submission_new (h_task_type h))
                  \<lparr>sub_priority := h_priority h, sub_expected_io := h_expected_io h, sub_tags := h_tags h\<rparr>;
          sub1 = (if h_label h \<noteq> h_task_type h then with_key (h_label h) sub else sub)
      in sub1\<lparr>sub_payload := h_payload h, sub_parent_id := h_parent_id h, sub_fail_fast := h_fail_fast h,
              sub_group_key := h_group_key h, sub_max_retries := h_max_retries h\<rparr>)"

definition retry_dead_letter ::
    "(bytes \<Rightarrow> string) \<Rightarrow> timestamp \<Rightarrow> int \<Rightarrow> (scheduler, store_error, submit_outcome) stmt" where
  "retry_dead_letter sha256_hex now hid s =
     (case history_by_id hid (st_db (s_store s)) of
        None \<Rightarrow> (s, Inl (NotFound (''history record '' @ show_int hid)))
      | Some h \<Rightarrow>
          if h_status h \<noteq> HDeadLetter
          then (s, Inl (InvalidState (''history record '' @ show_int hid @ '' has status ''
                  @ debug_history_status (h_status h) @ '', expected DeadLetter'')))
          else andThen (sched_submit sha256_hex now (resubmission h))
                 (\<lambda>outcome. if is_inserted outcome
                            then (\<lambda>s. (on_rows (fst \<circ> delete_history hid) s, Inr outcome)) else ok outcome) s)"

end
