(* ===== verification/Scheduler_Control.thy ===== *)
theory Scheduler_Control
  imports Scheduler_Submit
begin

text \<open>
  Runtime control (\<open>src/src/scheduler/control.rs\<close>) and the cycle of the run loop
  (\<open>poll_and_dispatch\<close>, the expiry sweep and \<open>shutdown\<close> of
  \<open>src/src/scheduler/run_loop.rs\<close>).

  The write of a queue in a cycle runs at one reading of the clocks; dispatch has its own
  readings. The gauges of the optional \<open>metrics\<close> feature and the closing of the connection
  pool have no counterpart.
\<close>

section \<open>Limits, weights and rates\<close>

definition set_max_concurrency :: "nat \<Rightarrow> scheduler \<Rightarrow> scheduler" where
  "set_max_concurrency n s = s\<lparr>s_max_concurrency := n\<rparr>"

definition maybe_restore_fast_dispatch :: "scheduler \<Rightarrow> scheduler" where
  "maybe_restore_fast_dispatch s =
     (let has_groups = (gl_default (s_group_limits s) > 0 \<or> has_overrides (s_group_limits s) \<or> s_paused_groups s \<noteq> []);
          has_module_caps = (s_module_caps s \<noteq> []);
          has_rate_limits = (s_type_rate_limits s \<noteq> [] \<or> s_group_rate_limits s \<noteq> []);
          has_group_weights = is_configured (s_group_weights s)
      in if \<not> has_groups \<and> \<not> s_has_resource_monitoring s \<and> \<not> has_module_caps \<and> \<not> s_has_pressure_sources s
            \<and> \<not> has_rate_limits \<and> \<not> has_group_weights
         then s\<lparr>s_fast_dispatch := True\<rparr> else s)"

definition set_group_limit :: "string \<Rightarrow> nat \<Rightarrow> scheduler \<Rightarrow> scheduler" where
  "set_group_limit g n s = s\<lparr>s_group_limits := set_limit g n (s_group_limits s)\<rparr>"

definition remove_group_limit :: "string \<Rightarrow> scheduler \<Rightarrow> scheduler" where
  "remove_group_limit g s = s\<lparr>s_group_limits := remove_limit g (s_group_limits s)\<rparr>"

definition set_default_group_concurrency :: "nat \<Rightarrow> scheduler \<Rightarrow> scheduler" where
  "set_default_group_concurrency n s = s\<lparr>s_group_limits := set_default_limit n (s_group_limits s)\<rparr>"

definition set_group_weight :: "string \<Rightarrow> 32 word \<Rightarrow> scheduler \<Rightarrow> scheduler" where
  "set_group_weight g w s =
     emit (EvGroupWeightChanged g (weight_for (s_group_weights s) g) w)
       (s\<lparr>s_group_weights := set_weight g w (s_group_weights s), s_fast_dispatch := False\<rparr>)"

definition remove_group_weight :: "string \<Rightarrow> scheduler \<Rightarrow> scheduler" where
  "remove_group_weight g s = maybe_restore_fast_dispatch (s\<lparr>s_group_weights := remove_weight g (s_group_weights s)\<rparr>)"

definition reset_group_weights :: "scheduler \<Rightarrow> scheduler" where
  "reset_group_weights s = maybe_restore_fast_dispatch (s\<lparr>s_group_weights := reset_all (s_group_weights s)\<rparr>)"

definition set_group_minimum_slots :: "string \<Rightarrow> nat \<Rightarrow> scheduler \<Rightarrow> scheduler" where
  "set_group_minimum_slots g n s =
     s\<lparr>s_group_weights := set_min_slots g n (s_group_weights s), s_fast_dispatch := False\<rparr>"

definition sched_set_rate_limit :: "instant \<Rightarrow> string \<Rightarrow> rate_limit \<Rightarrow> scheduler \<Rightarrow> scheduler" where
  "sched_set_rate_limit tick ty l s =
     s\<lparr>s_type_rate_limits := set_rate_limit tick ty l (s_type_rate_limits s), s_fast_dispatch := False\<rparr>"

definition sched_remove_rate_limit :: "string \<Rightarrow> scheduler \<Rightarrow> scheduler" where
  "sched_remove_rate_limit ty s =
     maybe_restore_fast_dispatch (s\<lparr>s_type_rate_limits := remove_rate_limit ty (s_type_rate_limits s)\<rparr>)"

definition set_group_rate_limit :: "instant \<Rightarrow> string \<Rightarrow> rate_limit \<Rightarrow> scheduler \<Rightarrow> scheduler" where
  "set_group_rate_limit tick g l s =
     s\<lparr>s_group_rate_limits := set_rate_limit tick g l (s_group_rate_limits s), s_fast_dispatch := False\<rparr>"

definition remove_group_rate_limit :: "string \<Rightarrow> scheduler \<Rightarrow> scheduler" where
  "remove_group_rate_limit g s =
     maybe_restore_fast_dispatch (s\<lparr>s_group_rate_limits := remove_rate_limit g (s_group_rate_limits s)\<rparr>)"

section \<open>Pausing and resuming\<close>

definition pause_all :: "timestamp \<Rightarrow> scheduler \<Rightarrow> scheduler" where
  "pause_all now s = emit EvPaused (fst (pause_active_all now (s\<lparr>s_paused := True\<rparr>)))"

definition resume_all :: "timestamp \<Rightarrow> scheduler \<Rightarrow> scheduler" where
  "resume_all now s = emit EvResumed (notify (on_rows (fst \<circ> clear_pause_bit now GLOBAL) (s\<lparr>s_paused := False\<rparr>)))"

text \<open>A write of the database that returns a value.\<close>

definition on_rows_get :: "(db \<Rightarrow> db \<times> 'a) \<Rightarrow> scheduler \<Rightarrow> scheduler \<times> 'a" where
  "on_rows_get f s = (on_rows (fst \<circ> f) s, snd (f (st_db (s_store s))))"

definition pause_group_inner :: "timestamp \<Rightarrow> string \<Rightarrow> timestamp option \<Rightarrow> scheduler \<Rightarrow> scheduler \<times> nat option" where
  "pause_group_inner now g resume_at s =
     (case on_rows_get (pause_group_state now g resume_at) s of
        (s1, False) \<Rightarrow> (s1, None)
      | (s1, True) \<Rightarrow>
          (let s2 = s1\<lparr>s_paused_groups := List.insert g (s_paused_groups s1), s_fast_dispatch := False\<rparr>;
               (s3, pending_paused) = on_rows_get (pause_tasks_in_group now g) s2;
               (s4, running_paused) = pause_active_group now g s3;
               s5 = count (\<lambda>c. c\<lparr>group_pauses := group_pauses c + 1\<rparr>) s4
           in (emit (EvGroupPaused g pending_paused running_paused) s5, Some pending_paused)))"

definition pause_group :: "timestamp \<Rightarrow> string \<Rightarrow> scheduler \<Rightarrow> scheduler" where
  "pause_group now g s = fst (pause_group_inner now g None s)"

definition pause_group_until :: "timestamp \<Rightarrow> string \<Rightarrow> timestamp \<Rightarrow> scheduler \<Rightarrow> scheduler" where
  "pause_group_until now g deadline s = fst (pause_group_inner now g (Some deadline) s)"

text \<open>The two halves of resuming a group. Between them any other operation may run: the
  lock is only taken for the in-memory set.\<close>

definition resume_group_tasks :: "timestamp \<Rightarrow> string \<Rightarrow> scheduler \<Rightarrow> scheduler \<times> nat" where
  "resume_group_tasks now g = on_rows_get (resume_paused_by_group now g)"

definition resume_group_finish :: "string \<Rightarrow> nat \<Rightarrow> scheduler \<Rightarrow> scheduler" where
  "resume_group_finish g resumed s =
     (let s1 = on_rows (fst \<circ> resume_group_state g) s;
          s2 = s1\<lparr>s_paused_groups := removeAll g (s_paused_groups s1)\<rparr>;
          s3 = (if s_paused_groups s2 = [] then maybe_restore_fast_dispatch s2 else s2);
          s4 = (if resumed > 0 then notify s3 else s3);
          s5 = count (\<lambda>c. c\<lparr>group_resumes := group_resumes c + 1\<rparr>) s4
      in emit (EvGroupResumed g resumed) s5)"

definition resume_group :: "timestamp \<Rightarrow> string \<Rightarrow> scheduler \<Rightarrow> scheduler" where
  "resume_group now g s =
     (if g \<notin> set (s_paused_groups s) then s
      else case resume_group_tasks now g s of (s1, resumed) \<Rightarrow> resume_group_finish g resumed s1)"

section \<open>One cycle of the run loop\<close>

definition maybe_expire_tasks :: "timestamp \<Rightarrow> instant \<Rightarrow> scheduler \<Rightarrow> scheduler" where
  "maybe_expire_tasks now tick s =
     (case s_expiry_sweep_interval s of
        None \<Rightarrow> s
      | Some iv \<Rightarrow>
          if max 0 (tick - s_last_expiry_sweep s) < int iv then s
          else (case on_store (expire_tasks now) (s\<lparr>s_last_expiry_sweep := tick\<rparr>) of
                  (s1, Inl e) \<Rightarrow> s1
                | (s1, Inr gone) \<Rightarrow>
                    fold (\<lambda>task. emit (EvTaskExpired (event_header task) (from_millis (nat (now - t_created_at task))))) gone
                      (count (\<lambda>c. c\<lparr>expired := expired c + length gone\<rparr>) s1)))"

definition drain_submits :: "(bytes \<Rightarrow> string) \<Rightarrow> timestamp \<Rightarrow> scheduler \<Rightarrow> scheduler" where
  "drain_submits sha256_hex now s =
     (if s_submit_queue s = [] then s
      else case process_submit_batch sha256_hex now (s_submit_queue s) (s_store s) of
             (st, rs) \<Rightarrow> after_submits sha256_hex now (zip (s_submit_queue s) rs) (s\<lparr>s_store := st, s_submit_queue := []\<rparr>))"

definition resume_unpreempted :: "timestamp \<Rightarrow> scheduler \<Rightarrow> scheduler" where
  "resume_unpreempted now s =
     (if \<not> s_has_paused_tasks s then s
      else (let paused = preemption_paused_tasks (s_store s);
                s1 = (if paused = [] then s\<lparr>s_has_paused_tasks := False\<rparr> else s)
            in fold (\<lambda>task s. if has_preemptors_for (t_priority task) (s_preempt_priority s) s then s
                               else on_rows (resume_preempted now (t_id task)) s) paused s1))"

definition auto_resume_groups :: "timestamp \<Rightarrow> instant \<Rightarrow> scheduler \<Rightarrow> scheduler" where
  "auto_resume_groups now tick s =
     (if s_paused_groups s = [] \<or> max 0 (tick - s_last_group_resume_check s) < int (from_secs 5) then s
      else fold (resume_group now) (groups_due_for_resume now (st_db (s_store s)))
             (s\<lparr>s_last_group_resume_check := tick\<rparr>))"

definition drain_queues :: "(bytes \<Rightarrow> string) \<Rightarrow> (nat \<Rightarrow> nat) \<Rightarrow> timestamp \<Rightarrow> scheduler \<Rightarrow> scheduler" where
  "drain_queues sha256_hex rnd now s = drain_failures rnd now (drain_completions rnd now (drain_submits sha256_hex now s))"

definition housekeeping :: "(bytes \<Rightarrow> string) \<Rightarrow> (nat \<Rightarrow> nat) \<Rightarrow> timestamp \<Rightarrow> instant \<Rightarrow> scheduler \<Rightarrow> scheduler" where
  "housekeeping sha256_hex rnd now tick s =
     auto_resume_groups now tick (resume_unpreempted now (maybe_expire_tasks now tick (drain_queues sha256_hex rnd now s)))"

text \<open>An error of dispatch is logged; \<open>None\<close> when the clock readings do not suffice for the
  dispatch loop.\<close>

definition poll_and_dispatch ::
    "(bytes \<Rightarrow> string) \<Rightarrow> (nat \<Rightarrow> nat) \<Rightarrow> timestamp \<Rightarrow> instant \<Rightarrow> (timestamp \<times> instant) list \<Rightarrow> scheduler \<Rightarrow> scheduler option" where
  "poll_and_dispatch sha256_hex rnd now tick clock s =
     (if s_paused s then Some s
      else map_option fst
             (dispatch_pending rnd now tick clock
               (dispatch_finalizers rnd now tick (housekeeping sha256_hex rnd now tick s))))"

definition sleep_duration :: "timestamp \<Rightarrow> bool \<Rightarrow> scheduler \<Rightarrow> bool \<times> duration" where
  "sleep_duration now check_scheduled s =
     (if check_scheduled
      then (case next_run_after (st_db (s_store s)) of
              Some nxt \<Rightarrow> (True, min (s_poll_interval s) (from_millis (nat (nxt - now))))
            | None \<Rightarrow> (False, s_poll_interval s))
      else (False, s_poll_interval s))"

text \<open>A graceful shutdown waits for the executions in turn: \<open>returned\<close> are those that return
  before the deadline. The first that does not is left running, the rest are aborted.\<close>

definition shutdown ::
    "(bytes \<Rightarrow> string) \<Rightarrow> (nat \<Rightarrow> nat) \<Rightarrow> timestamp \<Rightarrow> (nat \<times> bool \<times> (task_error + bytes option) \<times> io_budget) list \<Rightarrow> scheduler \<Rightarrow> scheduler" where
  "shutdown sha256_hex rnd now returned s =
     drain_queues sha256_hex rnd now
       (case s_shutdown_mode s of
          Hard \<Rightarrow> cancel_all s
        | Graceful timeout \<Rightarrow>
            (let (s1, handles) = cancel_and_drain_handles s;
                 s2 = fold (\<lambda>(tok, leader, result, metrics). execution_returns rnd now leader tok result metrics)
                        (filter (\<lambda>(tok, _). tok \<in> set handles) returned) s1;
                 late = filter (\<lambda>tok. tok \<notin> fst ` set returned) handles
             in fold drop_execution (drop 1 late) s2))"

end
