(* ===== verification/Task_Modules.thy ===== *)
theory Task_Modules
  imports Scheduler_Control
begin

text \<open>
  Modules (\<open>src/src/module.rs\<close>), the builder that resolves a submission through the layers
  of defaults (\<open>src/src/task/submit_builder.rs\<close>) and the submission of children by a
  running task (\<open>src/src/registry/child_spawner.rs\<close>).

  A handle of a module is its name, prefix and defaults; the scheduler it refers to is the
  argument of each operation. A module is represented without its executors' code and
  without its application state, which only user code reads.
\<close>

section \<open>Definition of a module\<close>

record executor_options =
  eo_ttl :: "duration option"
  eo_retry_policy :: "retry_policy option"

record module_executor =
  mx_task_type :: string
  mx_options :: executor_options

record module_def =
  mod_name :: string
  mod_executors :: "module_executor list"
  mod_default_priority :: "priority option"
  mod_default_retry_policy :: "retry_policy option"
  mod_default_group :: "string option"
  mod_default_ttl :: "duration option"
  mod_default_tags :: "(string, string) assoc"
  mod_max_concurrency :: "nat option"

text \<open>An empty name or one with the separator panics.\<close>

definition module_new :: "string \<Rightarrow> module_def option" where
  "module_new name =
     (if name = [] \<or> split_once_colons name \<noteq> None then None
      else Some \<lparr>mod_name = name, mod_executors = [], mod_default_priority = None, mod_default_retry_policy = None,
                 mod_default_group = None, mod_default_ttl = None, mod_default_tags = [], mod_max_concurrency = None\<rparr>)"

definition executor_with_options ::
    "string \<Rightarrow> duration option \<Rightarrow> retry_policy option \<Rightarrow> module_def \<Rightarrow> module_def" where
  "executor_with_options ty ttl policy m =
     m\<lparr>mod_executors := mod_executors m @ [\<lparr>mx_task_type = ty, mx_options = \<lparr>eo_ttl = ttl, eo_retry_policy = policy\<rparr>\<rparr>]\<rparr>"

definition module_executor_plain :: "string \<Rightarrow> module_def \<Rightarrow> module_def" where
  "module_executor_plain ty = executor_with_options ty None None"

definition executor_with_ttl :: "string \<Rightarrow> duration \<Rightarrow> module_def \<Rightarrow> module_def" where
  "executor_with_ttl ty ttl = executor_with_options ty (Some ttl) None"

definition executor_with_retry_policy :: "string \<Rightarrow> retry_policy \<Rightarrow> module_def \<Rightarrow> module_def" where
  "executor_with_retry_policy ty policy = executor_with_options ty None (Some policy)"

definition module_default_tag :: "string \<Rightarrow> string \<Rightarrow> module_def \<Rightarrow> module_def" where
  "module_default_tag k v m = m\<lparr>mod_default_tags := assoc_insert k v (mod_default_tags m)\<rparr>"

definition module_prefix :: "module_def \<Rightarrow> string" where
  "module_prefix m = mod_name m @ ''::''"

definition registry_get :: "string \<Rightarrow> module_entry list \<Rightarrow> module_entry option" where
  "registry_get name entries = find (\<lambda>e. me_name e = name) entries"

section \<open>Layers of defaults\<close>

record module_submit_defaults =
  msd_priority :: "priority option"
  msd_group :: "string option"
  msd_ttl :: "duration option"
  msd_tags :: "(string, string) assoc"

record typed_task_defaults =
  ttd_priority :: priority
  ttd_group :: "string option"
  ttd_ttl :: "duration option"
  ttd_tags :: "(string, string) assoc"

record submit_builder =
  sb_submission :: task_submission
  sb_module_name :: string
  sb_module_defaults :: module_submit_defaults
  sb_typed_defaults :: "typed_task_defaults option"
  sb_priority :: "priority option"
  sb_group :: "string option"
  sb_key :: "string option"
  sb_run_after :: "timestamp option"
  sb_ttl :: "duration option"
  sb_depends_on :: "int list"
  sb_on_dependency_failure :: "dependency_failure_policy option"
  sb_tags :: "(string, string) assoc"
  sb_parent_id :: "int option"
  sb_fail_fast :: "bool option"

definition builder_new :: "task_submission \<Rightarrow> string \<Rightarrow> module_submit_defaults \<Rightarrow> submit_builder" where
  "builder_new sub name defaults =
     \<lparr>sb_submission = sub, sb_module_name = name, sb_module_defaults = defaults, sb_typed_defaults = None,
      sb_priority = None, sb_group = None, sb_key = None, sb_run_after = None, sb_ttl = None, sb_depends_on = [],
      sb_on_dependency_failure = None, sb_tags = [], sb_parent_id = None, sb_fail_fast = None\<rparr>"

definition with_typed_defaults :: "typed_task_defaults \<Rightarrow> submit_builder \<Rightarrow> submit_builder" where
  "with_typed_defaults td b = b\<lparr>sb_typed_defaults := Some td\<rparr>"

definition builder_run_after :: "timestamp \<Rightarrow> duration \<Rightarrow> submit_builder \<Rightarrow> submit_builder" where
  "builder_run_after now delay b = b\<lparr>sb_run_after := Some (now + int (as_millis delay))\<rparr>"

definition builder_depends_on :: "int \<Rightarrow> submit_builder \<Rightarrow> submit_builder" where
  "builder_depends_on i b = b\<lparr>sb_depends_on := sb_depends_on b @ [i]\<rparr>"

definition builder_tag :: "string \<Rightarrow> string \<Rightarrow> submit_builder \<Rightarrow> submit_builder" where
  "builder_tag k v b = b\<lparr>sb_tags := assoc_insert k v (sb_tags b)\<rparr>"

definition merge_tags :: "(string, string) assoc \<Rightarrow> task_submission \<Rightarrow> task_submission" where
  "merge_tags tags sub = sub\<lparr>sub_tags := fold (\<lambda>(k, v). assoc_or_insert k v) tags (sub_tags sub)\<rparr>"

definition apply_prefix :: "string \<Rightarrow> task_submission \<Rightarrow> task_submission" where
  "apply_prefix name sub =
     (if name = [] then sub
      else (let ty = name @ ''::'' @ sub_task_type sub
            in sub\<lparr>sub_task_type := ty, sub_label := (if sub_label sub = sub_task_type sub then ty else sub_label sub)\<rparr>))"

definition apply_module_scalar_defaults :: "bool \<Rightarrow> module_submit_defaults \<Rightarrow> task_submission \<Rightarrow> task_submission" where
  "apply_module_scalar_defaults unconditional d sub =
     (let sub1 = (case msd_priority d of
                    Some p \<Rightarrow> if unconditional \<or> sub_priority sub = NORMAL then sub\<lparr>sub_priority := p\<rparr> else sub
                  | None \<Rightarrow> sub);
          sub2 = (case msd_group d of
                    Some g \<Rightarrow> if unconditional \<or> sub_group_key sub1 = None then sub1\<lparr>sub_group_key := Some g\<rparr> else sub1
                  | None \<Rightarrow> sub1)
      in case msd_ttl d of
           Some t \<Rightarrow> if unconditional \<or> sub_ttl sub2 = None then sub2\<lparr>sub_ttl := Some t\<rparr> else sub2
         | None \<Rightarrow> sub2)"

definition apply_defaults :: "typed_task_defaults option \<Rightarrow> module_submit_defaults \<Rightarrow> task_submission \<Rightarrow> task_submission" where
  "apply_defaults typed d sub =
     (case typed of
        Some td \<Rightarrow>
          apply_module_scalar_defaults True d
            (merge_tags (msd_tags d)
              (sub\<lparr>sub_priority := ttd_priority td, sub_group_key := ttd_group td, sub_ttl := ttd_ttl td,
                   sub_tags := ttd_tags td\<rparr>))
      | None \<Rightarrow> merge_tags (msd_tags d) (apply_module_scalar_defaults False d sub))"

definition override_with :: "('a \<Rightarrow> task_submission \<Rightarrow> task_submission) \<Rightarrow> 'a option \<Rightarrow> task_submission \<Rightarrow> task_submission" where
  "override_with f x sub = (case x of Some v \<Rightarrow> f v sub | None \<Rightarrow> sub)"

definition apply_overrides :: "submit_builder \<Rightarrow> task_submission \<Rightarrow> task_submission" where
  "apply_overrides b sub0 =
     (let sub1 = override_with (\<lambda>p sub. sub\<lparr>sub_priority := p\<rparr>) (sb_priority b) sub0;
          sub2 = override_with (\<lambda>g sub. sub\<lparr>sub_group_key := Some g\<rparr>) (sb_group b) sub1;
          sub3 = override_with with_key (sb_key b) sub2;
          sub4 = override_with (\<lambda>t sub. sub\<lparr>sub_run_after := Some t\<rparr>) (sb_run_after b) sub3;
          sub5 = override_with (\<lambda>t sub. sub\<lparr>sub_ttl := Some t\<rparr>) (sb_ttl b) sub4;
          sub6 = with_depends_on_all (sb_depends_on b) sub5;
          sub7 = override_with (\<lambda>p sub. sub\<lparr>sub_on_dependency_failure := p\<rparr>) (sb_on_dependency_failure b) sub6;
          sub8 = sub7\<lparr>sub_tags := fold (\<lambda>(k, v). assoc_insert k v) (sb_tags b) (sub_tags sub7)\<rparr>;
          sub9 = override_with (\<lambda>i sub. sub\<lparr>sub_parent_id := Some i\<rparr>) (sb_parent_id b) sub8
      in override_with (\<lambda>f sub. sub\<lparr>sub_fail_fast := f\<rparr>) (sb_fail_fast b) sub9)"

definition resolve_builder :: "submit_builder \<Rightarrow> task_submission" where
  "resolve_builder b =
     apply_overrides b
       (apply_defaults (sb_typed_defaults b) (sb_module_defaults b) (apply_prefix (sb_module_name b) (sb_submission b)))"

section \<open>Inheriting from a parent\<close>

definition inherit_ttl :: "timestamp \<Rightarrow> task_record \<Rightarrow> task_submission \<Rightarrow> task_submission" where
  "inherit_ttl now parent sub =
     (if sub_ttl sub \<noteq> None then sub
      else case remaining_ttl now parent of
             Some d \<Rightarrow> sub\<lparr>sub_ttl := Some d, sub_ttl_from := Submission\<rparr>
           | None \<Rightarrow> sub)"

definition inherit_from :: "timestamp \<Rightarrow> task_record \<Rightarrow> task_submission \<Rightarrow> task_submission" where
  "inherit_from now parent sub = merge_tags (t_tags parent) (inherit_ttl now parent sub)"

definition builder_submit :: "(bytes \<Rightarrow> string) \<Rightarrow> timestamp \<Rightarrow> submit_builder \<Rightarrow> (scheduler, store_error, submit_outcome) stmt" where
  "builder_submit sha256_hex now b s =
     (let sub = resolve_builder b;
          sub1 = (case sb_parent_id b of
                    Some pid \<Rightarrow> (case task_by_id pid (s_store s) of Some parent \<Rightarrow> inherit_from now parent sub | None \<Rightarrow> sub)
                  | None \<Rightarrow> sub)
      in sched_submit sha256_hex now sub1 s)"

text \<open>Children of a running task go to the store directly: the scheduler's own layer of
  defaults and its preemption do not see them. The parent's record is the one the execution
  was given.\<close>

definition prepare_child :: "timestamp \<Rightarrow> task_record \<Rightarrow> task_submission \<Rightarrow> task_submission" where
  "prepare_child now parent sub = inherit_from now parent (sub\<lparr>sub_parent_id := Some (t_id parent)\<rparr>)"

definition spawn_child ::
    "(bytes \<Rightarrow> string) \<Rightarrow> timestamp \<Rightarrow> task_record \<Rightarrow> task_submission \<Rightarrow> (scheduler, store_error, submit_outcome) stmt" where
  "spawn_child sha256_hex now parent sub0 s =
     (let sub = prepare_child now parent sub0
      in case prevalidate sub of
           Inl e \<Rightarrow> (s, Inl e)
         | Inr _ \<Rightarrow>
             (case submit sha256_hex now (s_submit_queue s) sub (s_store s) of
                (st, rs, r) \<Rightarrow>
                  (let s1 = after_submits sha256_hex now (zip (s_submit_queue s) rs) (s\<lparr>s_store := st, s_submit_queue := []\<rparr>)
                   in (case r of Inl e \<Rightarrow> (s1, Inl e) | Inr outcome \<Rightarrow> (notify s1, Inr outcome)))))"

definition spawn_children ::
    "(bytes \<Rightarrow> string) \<Rightarrow> timestamp \<Rightarrow> task_record \<Rightarrow> task_submission list \<Rightarrow> (scheduler, store_error, batch_outcome) stmt" where
  "spawn_children sha256_hex now parent subs =
     andThen (on_store (submit_batch sha256_hex now (map (prepare_child now parent) subs)))
       (\<lambda>outcomes s. (notify s, Inr outcomes))"

section \<open>Module handles\<close>

record module_handle =
  mh_name :: string
  mh_prefix :: string
  mh_defaults :: module_submit_defaults

definition handle_new :: "module_entry \<Rightarrow> module_handle" where
  "handle_new e =
     \<lparr>mh_name = me_name e, mh_prefix = me_prefix e,
      mh_defaults = \<lparr>msd_priority = me_default_priority e, msd_group = me_default_group e, msd_ttl = me_default_ttl e,
                     msd_tags = assoc_or_insert ''_module'' (me_name e) (me_default_tags e)\<rparr>\<rparr>"

definition module_submit :: "module_handle \<Rightarrow> task_submission \<Rightarrow> submit_builder" where
  "module_submit h sub = builder_new sub (mh_name h) (mh_defaults h)"

text \<open>The parent of the first submission is the one all submissions inherit from.\<close>

definition module_submit_batch ::
    "(bytes \<Rightarrow> string) \<Rightarrow> timestamp \<Rightarrow> module_handle \<Rightarrow> task_submission list \<Rightarrow> (scheduler, store_error, batch_outcome) stmt" where
  "module_submit_batch sha256_hex now h subs s =
     (let resolved = map (\<lambda>sub. resolve_builder (module_submit h sub)) subs;
          inherited = (case resolved of
                         [] \<Rightarrow> resolved
                       | sub # _ \<Rightarrow>
                           (case sub_parent_id sub of
                              None \<Rightarrow> resolved
                            | Some pid \<Rightarrow> (case task_by_id pid (s_store s) of
                                             Some parent \<Rightarrow> map (inherit_from now parent) resolved
                                           | None \<Rightarrow> resolved)))
      in sched_submit_batch sha256_hex now inherited s)"

definition task_belongs :: "module_handle \<Rightarrow> int \<Rightarrow> scheduler \<Rightarrow> bool" where
  "task_belongs h i s =
     (case find (\<lambda>r. t_id r = i) (active_records None s) of
        Some r \<Rightarrow> starts_with (mh_prefix h) (t_task_type r)
      | None \<Rightarrow> (case task_by_id i (s_store s) of
                   Some r \<Rightarrow> starts_with (mh_prefix h) (t_task_type r)
                 | None \<Rightarrow> False))"

definition validate_ownership :: "module_handle \<Rightarrow> int \<Rightarrow> scheduler \<Rightarrow> store_error + unit" where
  "validate_ownership h i s =
     (if task_belongs h i s then Inr ()
      else Inl (InvalidState (''task '' @ show_int i @ '' does not belong to module '' @ [CHR 0x27] @ mh_name h @ [CHR 0x27])))"

definition module_cancel :: "timestamp \<Rightarrow> module_handle \<Rightarrow> int \<Rightarrow> (scheduler, store_error, bool) stmt" where
  "module_cancel now h i s = (if task_belongs h i s then sched_cancel now i s else (s, Inr False))"

definition module_retry_dead_letter ::
    "(bytes \<Rightarrow> string) \<Rightarrow> timestamp \<Rightarrow> module_handle \<Rightarrow> int \<Rightarrow> (scheduler, store_error, submit_outcome) stmt" where
  "module_retry_dead_letter sha256_hex now h hid s =
     (case history_by_id hid (st_db (s_store s)) of
        None \<Rightarrow> (s, Inl (NotFound (''history record '' @ show_int hid)))
      | Some r \<Rightarrow>
          if \<not> starts_with (mh_prefix h) (h_task_type r)
          then (s, Inl (InvalidState (''history record '' @ show_int hid @ '' belongs to a different module (task_type = ''
                  @ [CHR 0x27] @ h_task_type r @ [CHR 0x27] @ '')'')))
          else retry_dead_letter sha256_hex now hid s)"

definition module_cancel_all :: "timestamp \<Rightarrow> module_handle \<Rightarrow> (scheduler, store_error, int list) stmt" where
  "module_cancel_all now h s = cancel_each now (map t_id (tasks_by_type_prefix (mh_prefix h) (s_store s))) s"

definition module_cancel_where ::
    "timestamp \<Rightarrow> module_handle \<Rightarrow> (task_record \<Rightarrow> bool) \<Rightarrow> (scheduler, store_error, int list) stmt" where
  "module_cancel_where now h p s =
     cancel_each now (map t_id (filter p (tasks_by_type_prefix (mh_prefix h) (s_store s)))) s"

definition module_cancel_by_tag_key_prefix :: "timestamp \<Rightarrow> module_handle \<Rightarrow> string \<Rightarrow> (scheduler, store_error, int list) stmt" where
  "module_cancel_by_tag_key_prefix now h prefix s =
     cancel_each now (task_ids_by_tag_key_prefix_with_prefix (mh_prefix h) prefix None (st_db (s_store s))) s"

definition module_pause :: "timestamp \<Rightarrow> module_handle \<Rightarrow> scheduler \<Rightarrow> scheduler \<times> nat" where
  "module_pause now h s =
     (let s1 = s\<lparr>s_module_paused := AList.map_entry (mh_name h) (\<lambda>_. True) (s_module_paused s)\<rparr>;
          (s2, running_paused) = pause_active_module now (mh_prefix h) s1;
          (s3, pending_paused) = on_rows_get (pause_pending_by_type_prefix now (mh_prefix h)) s2
      in (s3, running_paused + pending_paused))"

definition module_resume :: "timestamp \<Rightarrow> module_handle \<Rightarrow> scheduler \<Rightarrow> scheduler \<times> nat" where
  "module_resume now h s =
     (let s1 = s\<lparr>s_module_paused := AList.map_entry (mh_name h) (\<lambda>_. False) (s_module_paused s)\<rparr>
      in if s_paused s1 then (s1, 0)
         else case on_rows_get (resume_paused_by_type_prefix now (mh_prefix h)) s1 of
                (s2, n) \<Rightarrow> (if n > 0 then notify s2 else s2, n))"

definition module_is_paused :: "module_handle \<Rightarrow> scheduler \<Rightarrow> bool" where
  "module_is_paused h s \<longleftrightarrow> map_of (s_module_paused s) (mh_name h) = Some True"

definition module_set_max_concurrency :: "module_handle \<Rightarrow> nat \<Rightarrow> scheduler \<Rightarrow> scheduler" where
  "module_set_max_concurrency h n s =
     s\<lparr>s_module_caps := (if n = 0 then AList.delete (mh_name h) (s_module_caps s)
                         else AList.update (mh_name h) n (s_module_caps s))\<rparr>"

definition module_max_concurrency :: "module_handle \<Rightarrow> scheduler \<Rightarrow> nat" where
  "module_max_concurrency h s = (case map_of (s_module_caps s) (mh_name h) of Some n \<Rightarrow> n | None \<Rightarrow> 0)"

definition module_set_rate_limit :: "instant \<Rightarrow> module_handle \<Rightarrow> string \<Rightarrow> rate_limit \<Rightarrow> scheduler \<Rightarrow> scheduler" where
  "module_set_rate_limit tick h ty = sched_set_rate_limit tick (mh_prefix h @ ty)"

definition module_remove_rate_limit :: "module_handle \<Rightarrow> string \<Rightarrow> scheduler \<Rightarrow> scheduler" where
  "module_remove_rate_limit h ty = sched_remove_rate_limit (mh_prefix h @ ty)"

definition module_pause_recurring :: "module_handle \<Rightarrow> int \<Rightarrow> (scheduler, store_error, unit) stmt" where
  "module_pause_recurring h i s =
     (case validate_ownership h i s of Inl e \<Rightarrow> (s, Inl e) | Inr _ \<Rightarrow> (sched_pause_recurring i s, Inr ()))"

definition module_resume_recurring :: "module_handle \<Rightarrow> int \<Rightarrow> (scheduler, store_error, unit) stmt" where
  "module_resume_recurring h i s =
     (case validate_ownership h i s of Inl e \<Rightarrow> (s, Inl e) | Inr _ \<Rightarrow> (sched_resume_recurring i s, Inr ()))"

definition module_cancel_recurring :: "timestamp \<Rightarrow> module_handle \<Rightarrow> int \<Rightarrow> (scheduler, store_error, bool) stmt" where
  "module_cancel_recurring now h i s = (if task_belongs h i s then sched_cancel_recurring now i s else (s, Inr False))"

text \<open>What a subscriber of the module receives of the trace of events.\<close>

definition module_event :: "module_handle \<Rightarrow> scheduler_event \<Rightarrow> bool" where
  "module_event h ev \<longleftrightarrow>
     (case event_header_of ev of Some eh \<Rightarrow> eh_module eh = mh_name h | None \<Rightarrow> False) \<or> ev = EvPaused \<or> ev = EvResumed"

definition module_events :: "module_handle \<Rightarrow> scheduler \<Rightarrow> scheduler_event list" where
  "module_events h s = filter (module_event h) (s_events s)"

section \<open>The order of the layers\<close>

lemma map_of_fold_insert: "map_of (fold (\<lambda>(k, v). assoc_insert k v) xs kvs) = map_of kvs ++ map_of (rev xs)"
proof (induction xs arbitrary: kvs)
  case (Cons x xs)
  obtain k v where x: "x = (k, v)" by force
  show ?case by (rule ext) (simp add: x Cons.IH map_add_def split: option.split)
qed simp

text \<open>An override changes its own field only.\<close>

lemma override_frame: "(\<And>v s. F (f v s) = F s) \<Longrightarrow> F (override_with f x s) = F s"
  by (simp add: override_with_def split: option.split)

lemmas override_frames = override_frame [of sub_priority] override_frame [of sub_group_key] override_frame [of sub_ttl]
  override_frame [of sub_tags] override_frame [of sub_task_type]

lemma override_sets:
  "sub_priority (override_with (\<lambda>p sub. sub\<lparr>sub_priority := p\<rparr>) x s) = (case x of Some p \<Rightarrow> p | None \<Rightarrow> sub_priority s)"
  "sub_group_key (override_with (\<lambda>g sub. sub\<lparr>sub_group_key := Some g\<rparr>) y s) = (case y of Some g \<Rightarrow> Some g | None \<Rightarrow> sub_group_key s)"
  "sub_ttl (override_with (\<lambda>t sub. sub\<lparr>sub_ttl := Some t\<rparr>) z s) = (case z of Some t \<Rightarrow> Some t | None \<Rightarrow> sub_ttl s)"
  by (simp_all add: override_with_def split: option.split)

lemma apply_overrides_fields:
  "sub_priority (apply_overrides b s) = (case sb_priority b of Some p \<Rightarrow> p | None \<Rightarrow> sub_priority s)"
  "sub_group_key (apply_overrides b s) = (case sb_group b of Some g \<Rightarrow> Some g | None \<Rightarrow> sub_group_key s)"
  "sub_ttl (apply_overrides b s) = (case sb_ttl b of Some t \<Rightarrow> Some t | None \<Rightarrow> sub_ttl s)"
  "map_of (sub_tags (apply_overrides b s)) = map_of (sub_tags s) ++ map_of (rev (sb_tags b))"
  "sub_task_type (apply_overrides b s) = sub_task_type s"
  by (simp_all add: apply_overrides_def Let_def override_frames override_sets with_key_def with_depends_on_all_def map_of_fold_insert
      split: option.split)

lemma scalar_default_fields:
  "sub_priority (apply_module_scalar_defaults u d s)
     = (case msd_priority d of Some p \<Rightarrow> if u \<or> sub_priority s = NORMAL then p else sub_priority s | None \<Rightarrow> sub_priority s)"
  "sub_group_key (apply_module_scalar_defaults u d s)
     = (case msd_group d of Some g \<Rightarrow> if u \<or> sub_group_key s = None then Some g else sub_group_key s | None \<Rightarrow> sub_group_key s)"
  "sub_ttl (apply_module_scalar_defaults u d s)
     = (case msd_ttl d of Some t \<Rightarrow> if u \<or> sub_ttl s = None then Some t else sub_ttl s | None \<Rightarrow> sub_ttl s)"
  "sub_tags (apply_module_scalar_defaults u d s) = sub_tags s"
  "sub_task_type (apply_module_scalar_defaults u d s) = sub_task_type s"
  by (auto simp: apply_module_scalar_defaults_def Let_def split: option.split)

lemma merge_tags_fields [simp]:
  "sub_priority (merge_tags tags s) = sub_priority s" "sub_group_key (merge_tags tags s) = sub_group_key s"
  "sub_ttl (merge_tags tags s) = sub_ttl s" "sub_task_type (merge_tags tags s) = sub_task_type s"
  "map_of (sub_tags (merge_tags tags s)) = map_of tags ++ map_of (sub_tags s)"
  by (simp_all add: merge_tags_def map_of_fold_or_insert)

lemma apply_prefix_fields [simp]:
  "sub_priority (apply_prefix n s) = sub_priority s" "sub_group_key (apply_prefix n s) = sub_group_key s"
  "sub_ttl (apply_prefix n s) = sub_ttl s" "sub_tags (apply_prefix n s) = sub_tags s"
  "sub_task_type (apply_prefix n s) = (if n = [] then sub_task_type s else n @ ''::'' @ sub_task_type s)"
  by (simp_all add: apply_prefix_def Let_def)

text \<open>What a layer below the per-call overrides decides: a typed task's own value gives way to
  the module's, an explicit value of a plain submission does not.\<close>

definition layered :: "'a option \<Rightarrow> 'a option \<Rightarrow> bool \<Rightarrow> 'a option \<Rightarrow> 'a option" where
  "layered override module_default typed own =
     (case override of
        Some x \<Rightarrow> Some x
      | None \<Rightarrow> if typed then (case module_default of Some m \<Rightarrow> Some m | None \<Rightarrow> own)
                else (case own of Some x \<Rightarrow> Some x | None \<Rightarrow> module_default))"


end
