(* ===== verification/Scheduler_Builder.thy ===== *)
theory Scheduler_Builder
  imports Task_Modules
begin

text \<open>
  Construction of a scheduler (\<open>src/src/scheduler/builder.rs\<close>): validation, the registry
  with prefixed task types, the gate, the limits, and the decision whether dispatch may
  skip the gate. A store path is represented by the database found there. The sampler loop,
  the application state and the metrics labels have no counterpart. \<open>None\<close> is a panic: the
  bandwidth limit must be positive.
\<close>

record scheduler_builder =
  sbd_persisted :: "db option"
  sbd_store_config :: store_config
  sbd_store :: "task_store option"
  sbd_modules :: "module_def list"
  sbd_config :: scheduler_config
  sbd_pressure_sources :: "pressure_source list"
  sbd_policy :: "throttle_policy option"
  sbd_enable_resource_monitoring :: bool
  sbd_bandwidth_limit_bps :: "rat option"
  sbd_default_group_concurrency :: nat
  sbd_group_concurrency_overrides :: "(string \<times> nat) list"
  sbd_type_rate_limits :: "(string \<times> rate_limit) list"
  sbd_group_rate_limits :: "(string \<times> rate_limit) list"
  sbd_group_weights :: "(string \<times> 32 word) list"
  sbd_default_group_weight :: "32 word"
  sbd_group_min_slots :: "(string \<times> nat) list"

definition scheduler_builder_new :: "store_config \<Rightarrow> scheduler_builder" where
  "scheduler_builder_new default_store_config =
     \<lparr>sbd_persisted = None, sbd_store_config = default_store_config, sbd_store = None, sbd_modules = [],
      sbd_config = config_default, sbd_pressure_sources = [], sbd_policy = None,
      sbd_enable_resource_monitoring = False, sbd_bandwidth_limit_bps = None, sbd_default_group_concurrency = 0,
      sbd_group_concurrency_overrides = [], sbd_type_rate_limits = [], sbd_group_rate_limits = [],
      sbd_group_weights = [], sbd_default_group_weight = 1, sbd_group_min_slots = []\<rparr>"

definition bandwidth_limit :: "rat \<Rightarrow> scheduler_builder \<Rightarrow> scheduler_builder" where
  "bandwidth_limit bps b = b\<lparr>sbd_bandwidth_limit_bps := Some bps, sbd_enable_resource_monitoring := True\<rparr>"

section \<open>The registry\<close>

fun register_executors :: "string \<Rightarrow> module_executor list \<Rightarrow> (task_type_registry, store_error, unit) stmt" where
  "register_executors prefix [] reg = (reg, Inr ())"
| "register_executors prefix (x # xs) reg =
     (let prefixed = prefix @ mx_task_type x
      in if is_registered reg prefixed
         then (reg, Inl (Database (''task type collision: '' @ [CHR 0x27] @ prefixed @ [CHR 0x27]
                                  @ '' is registered by multiple modules'')))
         else (let entry = (case (eo_ttl (mx_options x), eo_retry_policy (mx_options x)) of
                              (Some ttl, Some policy) \<Rightarrow>
                                map_option (set_retry_policy prefixed policy) (register_erased_with_ttl prefixed ttl reg)
                            | (Some ttl, None) \<Rightarrow> register_erased_with_ttl prefixed ttl reg
                            | (None, Some policy) \<Rightarrow> register_erased_with_retry_policy prefixed policy reg
                            | (None, None) \<Rightarrow> register_erased prefixed reg)
               in case entry of None \<Rightarrow> (reg, Inr ()) | Some reg' \<Rightarrow> register_executors prefix xs reg'))"

definition entry_of :: "module_def \<Rightarrow> module_entry" where
  "entry_of m =
     \<lparr>me_name = mod_name m, me_prefix = module_prefix m, me_default_priority = mod_default_priority m,
      me_default_retry_policy = mod_default_retry_policy m, me_default_group = mod_default_group m,
      me_default_ttl = mod_default_ttl m, me_default_tags = mod_default_tags m,
      me_max_concurrency = mod_max_concurrency m\<rparr>"

definition register_modules :: "module_def list \<Rightarrow> (task_type_registry, store_error, unit) stmt" where
  "register_modules = for_each (\<lambda>m. register_executors (module_prefix m) (mod_executors m))"

fun duplicate_name :: "string list \<Rightarrow> module_def list \<Rightarrow> string option" where
  "duplicate_name seen [] = None"
| "duplicate_name seen (m # ms) =
     (if mod_name m \<in> set seen then Some (mod_name m) else duplicate_name (mod_name m # seen) ms)"

section \<open>Building\<close>

definition builder_store :: "timestamp \<Rightarrow> scheduler_builder \<Rightarrow> task_store option" where
  "builder_store now b =
     (case sbd_store b of
        Some st \<Rightarrow> Some st
      | None \<Rightarrow> map_option (open_with_config now (sbd_store_config b)) (sbd_persisted b))"

text \<open>The pressure sources; the network source reads the fresh reader. \<open>None\<close> is the panic.\<close>

definition builder_pressure :: "scheduler_builder \<Rightarrow> composite_pressure option" where
  "builder_pressure b =
     (case (sbd_bandwidth_limit_bps b, sbd_enable_resource_monitoring b) of
        (Some bps, True) \<Rightarrow>
          map_option (\<lambda>mx. sbd_pressure_sources b
              @ [\<lparr>source_name = ''network'', source_pressure = network_pressure mx resource_default\<rparr>])
            (network_pressure_new bps)
      | _ \<Rightarrow> Some (sbd_pressure_sources b))"

definition apply_limits :: "instant \<Rightarrow> scheduler_builder \<Rightarrow> scheduler \<Rightarrow> scheduler" where
  "apply_limits tick b s =
     (let s1 = s\<lparr>s_type_rate_limits := fold (\<lambda>(scope, l). set_rate_limit tick scope l) (sbd_type_rate_limits b) (s_type_rate_limits s),
                 s_group_rate_limits := fold (\<lambda>(scope, l). set_rate_limit tick scope l) (sbd_group_rate_limits b) (s_group_rate_limits s)\<rparr>;
          w0 = (if sbd_default_group_weight b \<noteq> 1 then set_default_weight (sbd_default_group_weight b) (s_group_weights s1)
                else s_group_weights s1);
          w1 = fold (\<lambda>(g, n). set_weight g n) (sbd_group_weights b) w0;
          w2 = fold (\<lambda>(g, n). set_min_slots g n) (sbd_group_min_slots b) w1;
          l0 = (if sbd_default_group_concurrency b > 0
                then set_default_limit (sbd_default_group_concurrency b) (s_group_limits s1) else s_group_limits s1);
          l1 = fold (\<lambda>(g, n). set_limit g n) (sbd_group_concurrency_overrides b) l0
      in s1\<lparr>s_group_weights := w2, s_group_limits := l1\<rparr>)"

definition builder_allows_fast :: "scheduler_builder \<Rightarrow> scheduler \<Rightarrow> bool" where
  "builder_allows_fast b s \<longleftrightarrow>
     \<not> (sbd_default_group_concurrency b > 0 \<or> sbd_group_concurrency_overrides b \<noteq> [])
     \<and> \<not> sbd_enable_resource_monitoring b \<and> sbd_pressure_sources b = [] \<and> s_module_caps s = [] \<and> s_paused_groups s = []
     \<and> \<not> (sbd_type_rate_limits b \<noteq> [] \<or> sbd_group_rate_limits b \<noteq> [])
     \<and> \<not> (sbd_group_weights b \<noteq> [] \<or> sbd_group_min_slots b \<noteq> [])"

definition assemble ::
    "instant \<Rightarrow> scheduler_builder \<Rightarrow> task_store \<Rightarrow> task_type_registry \<Rightarrow> composite_pressure \<Rightarrow> scheduler" where
  "assemble tick b st reg pressure =
     (let gate = \<lparr>dg_pressure = pressure, dg_policy = (case sbd_policy b of Some p \<Rightarrow> p | None \<Rightarrow> default_three_tier)\<rparr>;
          s0 = with_gate tick st (sbd_config b) reg gate (map entry_of (sbd_modules b));
          s1 = s0\<lparr>s_paused_groups := remdups (map fst (list_paused_groups (st_db st))),
                  s_has_pressure_sources := (sbd_pressure_sources b \<noteq> []),
                  s_has_resource_monitoring := sbd_enable_resource_monitoring b\<rparr>;
          s2 = apply_limits tick b s1;
          s3 = (if sbd_enable_resource_monitoring b then set_resource_reader resource_default s2 else s2);
          s4 = (if builder_allows_fast b s3 then s3\<lparr>s_fast_dispatch := True\<rparr> else s3)
      in if paused_count (st_db st) > 0 then s4\<lparr>s_has_paused_tasks := True\<rparr> else s4)"

definition build_scheduler :: "timestamp \<Rightarrow> instant \<Rightarrow> scheduler_builder \<Rightarrow> (store_error + scheduler) option" where
  "build_scheduler now tick b =
     (case builder_store now b of
        None \<Rightarrow> Some (Inl (Database ''SchedulerBuilder requires either store_path() or store()''))
      | Some st \<Rightarrow>
          if sbd_modules b = []
          then Some (Inl (Database (''SchedulerBuilder requires at least one module '' @ [CHR 0xE2, CHR 0x80, CHR 0x94]
                             @ '' use .module() to register one'')))
          else (case duplicate_name [] (sbd_modules b) of
                  Some name \<Rightarrow> Some (Inl (Database (''duplicate module name '' @ [CHR 0x27] @ name @ [CHR 0x27])))
                | None \<Rightarrow>
                    (case register_modules (sbd_modules b) registry_new of
                       (_, Inl e) \<Rightarrow> Some (Inl e)
                     | (reg, Inr _) \<Rightarrow>
                         (case builder_pressure b of
                            None \<Rightarrow> None
                          | Some pressure \<Rightarrow>
                              (case cfg_aging_config (sbd_config b) of
                                 Some aging \<Rightarrow>
                                   (case aging_validate aging of
                                      Inl msg \<Rightarrow> Some (Inl (Database msg))
                                    | Inr _ \<Rightarrow> Some (Inr (assemble tick b st reg pressure)))
                               | None \<Rightarrow> Some (Inr (assemble tick b st reg pressure)))))))"

text \<open>The retry policy a module declares as its default reaches no task: the registry, from
  which policies are looked up, does not depend on it.\<close>

lemma default_retry_policy_unused:
  "register_modules (map (\<lambda>m. m\<lparr>mod_default_retry_policy := p\<rparr>) ms) = register_modules ms"
proof -
  have "module_prefix (m\<lparr>mod_default_retry_policy := p\<rparr>) = module_prefix m" for m
    by (simp add: module_prefix_def)
  then show ?thesis unfolding register_modules_def by (induction ms) simp_all
qed

end
