(* ===== verification/Scheduler_Contract.thy ===== *)
theory Scheduler_Contract
  imports Scheduler_Builder
begin

text \<open>
  A contract for invariants of the scheduler: a property of its store, its active map and
  its executions that the primitive changes keep is kept by every operation, whatever path
  it takes. The contract is stated once and every operation is walked once, here;
  \<open>Scheduler_System\<close> instantiates it.
\<close>

section \<open>Changes of the configuration\<close>

text \<open>What decides whether the gate can refuse a task.\<close>

record control =
  c_fast :: bool
  c_group_limits :: group_limits
  c_paused_groups :: "string list"
  c_module_caps :: "(string, nat) assoc"
  c_rate_limits :: bool
  c_weights :: bool
  c_pressure :: bool
  c_reader :: bool
  c_has_pressure_sources :: bool
  c_has_resource_monitoring :: bool

definition control_of :: "scheduler \<Rightarrow> control" where
  "control_of s =
     \<lparr>c_fast = s_fast_dispatch s, c_group_limits = s_group_limits s, c_paused_groups = s_paused_groups s,
      c_module_caps = s_module_caps s, c_rate_limits = (s_type_rate_limits s \<noteq> [] \<or> s_group_rate_limits s \<noteq> []),
      c_weights = is_configured (s_group_weights s), c_pressure = (dg_pressure (s_gate s) \<noteq> []),
      c_reader = (s_resource s \<noteq> None), c_has_pressure_sources = s_has_pressure_sources s,
      c_has_resource_monitoring = s_has_resource_monitoring s\<rparr>"

text \<open>The operations that change it. Those that add a limit without leaving the fast path
  need \<open>limits\<close>. The readings of the resource monitor and of the pressure sources change
  at any time.\<close>

inductive control_op :: "bool \<Rightarrow> scheduler \<Rightarrow> scheduler \<Rightarrow> bool" for limits :: bool where
  co_group_limit: "limits \<Longrightarrow> control_op limits s (set_group_limit g n s)"
| co_default_limit: "limits \<Longrightarrow> control_op limits s (set_default_group_concurrency n s)"
| co_module_cap: "limits \<or> n = 0 \<Longrightarrow> control_op limits s (module_set_max_concurrency m n s)"
| co_resource_reader: "limits \<or> s_resource s \<noteq> None \<Longrightarrow> control_op limits s (set_resource_reader r s)"
| co_pressure: "length p = length (dg_pressure (s_gate s))
    \<Longrightarrow> control_op limits s (s\<lparr>s_gate := (s_gate s)\<lparr>dg_pressure := p\<rparr>\<rparr>)"
| co_remove_limit: "control_op limits s (remove_group_limit g s)"
| co_weight: "control_op limits s (set_group_weight g w s)"
| co_remove_weight: "control_op limits s (remove_group_weight g s)"
| co_reset_weights: "control_op limits s (reset_group_weights s)"
| co_minimum: "control_op limits s (set_group_minimum_slots g n s)"
| co_rate: "control_op limits s (sched_set_rate_limit tick ty l s)"
| co_remove_rate: "control_op limits s (sched_remove_rate_limit ty s)"
| co_group_rate: "control_op limits s (set_group_rate_limit tick g l s)"
| co_remove_group_rate: "control_op limits s (remove_group_rate_limit g s)"
| co_pause: "control_op limits s (s\<lparr>s_paused_groups := List.insert g (s_paused_groups s), s_fast_dispatch := False\<rparr>)"
| co_unpause: "s' = s\<lparr>s_paused_groups := removeAll g (s_paused_groups s)\<rparr>
    \<Longrightarrow> control_op limits s (if s_paused_groups s' = [] then maybe_restore_fast_dispatch s' else s')"

inductive_cases control_opE: "control_op limits s t"

lemmas control_defs = set_group_limit_def remove_group_limit_def set_default_group_concurrency_def
  set_group_weight_def remove_group_weight_def reset_group_weights_def set_group_minimum_slots_def
  sched_set_rate_limit_def sched_remove_rate_limit_def set_group_rate_limit_def remove_group_rate_limit_def
  set_resource_reader_def module_set_max_concurrency_def maybe_restore_fast_dispatch_def emit_def

lemma control_op_same:
  assumes "control_op limits s t"
  shows "s_store t = s_store s \<and> s_active t = s_active s \<and> s_executions t = s_executions s
    \<and> s_next_token t = s_next_token s"
  using assms by (rule control_opE) (simp_all add: control_defs Let_def)

section \<open>The contract\<close>

definition holds ::
    "(task_store \<Rightarrow> (int, active_task) assoc \<Rightarrow> execution list \<Rightarrow> nat \<Rightarrow> control \<Rightarrow> bool) \<Rightarrow> scheduler \<Rightarrow> bool" where
  "holds R s \<longleftrightarrow> R (s_store s) (s_active s) (s_executions s) (s_next_token s) (control_of s)"

text \<open>The other fields do not matter.\<close>

lemma holds_update [simp]:
  "holds R (s_events_update f1 s) = holds R s"
  "holds R (s_notified_update f2 s) = holds R s"
  "holds R (s_counters_update f3 s) = holds R s"
  "holds R (s_pending_finalizers_update f4 s) = holds R s"
  "holds R (s_paused_update f5 s) = holds R s"
  "holds R (s_last_expiry_sweep_update f6 s) = holds R s"
  "holds R (s_module_paused_update f7 s) = holds R s"
  "holds R (s_module_running_update f8 s) = holds R s"
  "holds R (s_has_paused_tasks_update f9 s) = holds R s"
  "holds R (s_last_group_resume_check_update f10 s) = holds R s"
  "holds R (s_submit_queue_update f11 s) = holds R s"
  "holds R (s_completion_queue_update f12 s) = holds R s"
  "holds R (s_failure_queue_update f13 s) = holds R s"
  "holds R (s_max_concurrency_update f14 s) = holds R s"
  by (simp_all add: holds_def control_of_def)

lemma control_of_core [simp]:
  "control_of (s_store_update f1 s) = control_of s"
  "control_of (s_active_update f2 s) = control_of s"
  "control_of (s_executions_update f3 s) = control_of s"
  "control_of (s_next_token_update f4 s) = control_of s"
  "control_of (s_counters_update f5 s) = control_of s"
  "control_of (s_events_update f6 s) = control_of s"
  "control_of (s_module_running_update f7 s) = control_of s"
  by (simp_all add: control_of_def)

lemma acquire_scope_empty: "fst (acquire_scope now scope m) = [] \<longleftrightarrow> m = []"
  by (auto simp: acquire_scope_def AList.update_conv' split: option.splits prod.splits dest: arg_cong [of _ _ "map fst"])

lemma acquire_scope_nonempty: "acquire_scope now scope m = (m', r) \<Longrightarrow> m' = [] \<longleftrightarrow> m = []"
  using acquire_scope_empty [of now scope m] by simp

lemma holds_emit [simp]: "holds R (emit ev s) = holds R s"
  by (simp add: emit_def)

lemma holds_notify [simp]: "holds R (notify s) = holds R s"
  by (simp add: notify_def)

lemma holds_count [simp]: "holds R (count f s) = holds R s"
  by (simp add: count_def)

lemma holds_module_add [simp]: "holds R (module_add task s) = holds R s"
  by (simp add: module_add_def split: option.split)

lemma holds_decrement_module [simp]: "holds R (decrement_module task s) = holds R s"
  by (simp add: decrement_module_def split: option.split)

lemma holds_count_failure [simp]: "holds R (count_failure b c s) = holds R s"
  by (simp add: count_failure_def)

lemma holds_fold_emit [simp]: "holds R (fold (\<lambda>x. emit (f x)) xs s) = holds R s"
  by (induction xs arbitrary: s) simp_all

lemma on_store_eq: "on_store m s = (s\<lparr>s_store := fst (m (s_store s))\<rparr>, snd (m (s_store s)))"
  by (simp add: on_store_def split: prod.split)

lemma admit_rate_limits:
  "admit gate now task ctx = (ctx', a) \<Longrightarrow>
     (gc_type_rate_limits ctx' = [] \<longleftrightarrow> gc_type_rate_limits ctx = [])
     \<and> (gc_group_rate_limits ctx' = [] \<longleftrightarrow> gc_group_rate_limits ctx = [])"
  by (auto simp: admit_eq acquire_tokens_def acquire_group_def count_denial_def count_throttle_def Let_def
      dest!: acquire_scope_nonempty split: if_splits prod.splits option.splits sum.splits)

locale scheduler_contract =
  fixes sha256_hex :: "bytes \<Rightarrow> string"
    and limits :: bool
    and R :: "task_store \<Rightarrow> (int, active_task) assoc \<Rightarrow> execution list \<Rightarrow> nat \<Rightarrow> control \<Rightarrow> bool"
  assumes R_store: "R st act ex n c \<Longrightarrow> store_step sha256_hex True st st' \<Longrightarrow> R st' act ex n c"
    and R_spawn: "R st act ex n c \<Longrightarrow> at_token a = n \<Longrightarrow> at_record a = task \<Longrightarrow> at_reported_progress a = None
      \<Longrightarrow> R st (AList.update (t_id task) a act)
            (ex @ [\<lparr>ex_id = n, ex_task = task, ex_phase = phase, ex_cancelled = False\<rparr>]) (Suc n) c"
    and R_progress: "R st act ex n c \<Longrightarrow> map_of act i = Some a \<Longrightarrow> at_token b = at_token a \<Longrightarrow> at_record b = at_record a
      \<Longrightarrow> at_reported_progress b = Some x \<Longrightarrow> 0 \<le> x \<Longrightarrow> x \<le> 1 \<Longrightarrow> R st (AList.update i b act) ex n c"
    and R_filter: "R st act ex n c \<Longrightarrow> R st (filter p act) ex n c"
    and R_drop: "R st act ex n c \<Longrightarrow> R st act (filter q ex) n c"
    and R_cancel: "R st act ex n c \<Longrightarrow> R st act (map (\<lambda>e. if ex_id e = tok then e\<lparr>ex_cancelled := True\<rparr> else e) ex) n c"
    and R_retry: "R st act ex n c \<Longrightarrow> e \<in> set ex \<Longrightarrow> t_id task = t_id (ex_task e)
      \<Longrightarrow> R st act (map (\<lambda>x. if ex_id x = ex_id e then x\<lparr>ex_task := task\<rparr> else x) ex) n c"
    and R_control: "R st act ex n (control_of s) \<Longrightarrow> control_op limits s t \<Longrightarrow> R st act ex n (control_of t)"
    and R_restart: "R st act ex n c \<Longrightarrow> build_scheduler now tick bd = Some (Inr t) \<Longrightarrow> sbd_store bd = None
      \<Longrightarrow> sbd_persisted bd = Some (st_db st)
      \<Longrightarrow> R (s_store t) (s_active t) (s_executions t) (s_next_token t) (control_of t)"
begin

section \<open>Primitives\<close>

lemma h_store: "holds R s \<Longrightarrow> store_step sha256_hex True (s_store s) st \<Longrightarrow> holds R (s\<lparr>s_store := st\<rparr>)"
  by (simp add: holds_def R_store)

lemma h_on_rows: "holds R s \<Longrightarrow> (\<And>d. db_op d (f d)) \<Longrightarrow> holds R (on_rows f s)"
  unfolding on_rows_def by (rule h_store) (auto intro: st_db_op)

lemma h_on_store: "holds R s \<Longrightarrow> (\<And>st. store_step sha256_hex True st (fst (m st))) \<Longrightarrow> holds R (fst (on_store m s))"
  unfolding on_store_eq by (auto intro: h_store)

lemma h_on_store_eq:
  "holds R s \<Longrightarrow> (\<And>st. store_step sha256_hex True st (fst (m st))) \<Longrightarrow> on_store m s = (t, x) \<Longrightarrow> holds R t"
  by (metis fst_conv h_on_store)

lemma h_keeps_store: "(\<And>st. store_step sha256_hex True st (fst (m st))) \<Longrightarrow> keeps (holds R) (on_store m)"
  by (rule keepsI) (rule h_on_store)

lemma h_fold: "(\<And>x s. holds R s \<Longrightarrow> holds R (f x s)) \<Longrightarrow> holds R s \<Longrightarrow> holds R (fold f xs s)"
  by (induction xs arbitrary: s) simp_all

lemma h_remove: "holds R s \<Longrightarrow> holds R (fst (active_remove i s))"
  by (simp add: active_remove_def holds_def AList.delete_eq R_filter)

lemma h_remove_eq: "holds R s \<Longrightarrow> active_remove i s = (t, x) \<Longrightarrow> holds R t"
  by (metis fst_conv h_remove)

lemma h_cancel_token: "holds R s \<Longrightarrow> holds R (cancel_token tok s)"
  by (simp add: cancel_token_def holds_def R_cancel)

lemma h_drain: "holds R s \<Longrightarrow> holds R (fst (drain_where p s))"
  by (simp add: drain_where_def holds_def R_filter)

lemma h_drop: "holds R s \<Longrightarrow> holds R (drop_execution tok s)"
  by (simp add: drop_execution_def holds_def R_drop)

lemma h_report: "holds R s \<Longrightarrow> holds R (report now header p message s)"
  by (auto simp: report_def update_progress_def holds_def emit_def Let_def R_progress [where x = "min 1 (max 0 p)"]
      split: option.split)

lemma h_spawn_task: "holds R s \<Longrightarrow> holds R (spawn_task now tick task phase s)"
proof -
  assume h: "holds R s"
  let ?a = "\<lparr>at_record = task, at_token = s_next_token s, at_reported_progress = None, at_reported_at = None, at_started_at = tick\<rparr>"
  let ?s = "(active_insert (t_id task) ?a s)\<lparr>s_executions := s_executions s @ [\<lparr>ex_id = s_next_token s, ex_task = task,
              ex_phase = phase, ex_cancelled = False\<rparr>], s_next_token := s_next_token s + 1\<rparr>"
  have "holds R ?s" using h by (simp add: holds_def active_insert_def R_spawn)
  moreover have "holds R (spawn_task now tick task phase s) = holds R ?s"
    by (simp add: spawn_task_def Let_def holds_def emit_def count_def module_add_def active_insert_def split: option.split)
  ultimately show ?thesis by simp
qed

section \<open>Pausing and preempting\<close>

lemma h_cancel_pause_one: "reason \<noteq> 0 \<Longrightarrow> holds R s \<Longrightarrow> holds R (cancel_pause_one now reason x s)"
  by (cases x) (auto simp: cancel_pause_one_def Let_def intro: h_on_rows h_cancel_token op_pause)

lemma h_cancel_pause_emit: "reason \<noteq> 0 \<Longrightarrow> holds R s \<Longrightarrow> holds R (cancel_pause_emit now drained reason s)"
  by (simp add: cancel_pause_emit_def h_fold h_cancel_pause_one)

lemma reasons_nonzero [simp]: "PREEMPTION \<noteq> 0" "MODULE \<noteq> 0" "GLOBAL \<noteq> 0" "GROUP \<noteq> 0"
  by (simp_all add: PREEMPTION_def MODULE_def GLOBAL_def GROUP_def)

lemma h_drain_pause:
  "reason \<noteq> 0 \<Longrightarrow> holds R s \<Longrightarrow> drain_where p s = (s1, drained) \<Longrightarrow> holds R (cancel_pause_emit now drained reason s1)"
  using h_drain [of s p] by (simp add: h_cancel_pause_emit)

lemma h_preempt_below: "holds R s \<Longrightarrow> holds R (fst (preempt_below now p s))"
  by (auto simp: preempt_below_def intro: h_drain_pause split: prod.split)

lemma h_pause_active_module: "holds R s \<Longrightarrow> holds R (fst (pause_active_module now p s))"
  by (auto simp: pause_active_module_def intro: h_drain_pause split: prod.split)

lemma h_pause_active_all: "holds R s \<Longrightarrow> holds R (fst (pause_active_all now s))"
  by (auto simp: pause_active_all_def intro: h_drain_pause split: prod.split)

lemma h_pause_active_group: "holds R s \<Longrightarrow> holds R (fst (pause_active_group now g s))"
  by (auto simp: pause_active_group_def intro: h_drain_pause split: prod.split)

lemma h_cancel_tokens: "holds R s \<Longrightarrow> holds R (fold (\<lambda>(_, a) s. cancel_token (at_token a) s) xs s)"
  by (rule h_fold) (auto intro: h_cancel_token)

lemma h_clear_active: "holds R s \<Longrightarrow> holds R (s\<lparr>s_active := []\<rparr>)"
  using R_filter [of _ _ _ _ _ "\<lambda>_. False"] by (simp add: holds_def)

lemma h_keep_executions: "holds R s \<Longrightarrow> holds R (s\<lparr>s_executions := filter p (s_executions s)\<rparr>)"
  by (simp add: holds_def R_drop)

section \<open>Executions that return\<close>

lemma h_record_failure: "holds R s \<Longrightarrow> holds R (record_failure rnd now task e r m io b s)"
  by (auto simp: record_failure_def intro: h_store st_fail_with_record split: option.split)

lemma h_parent_resolution: "holds R s \<Longrightarrow> holds R (handle_parent_resolution rnd now i s)"
  by (auto simp: handle_parent_resolution_def intro: h_record_failure split: option.split parent_resolution.split)

lemma h_completion_events: "holds R (emit_completion_events task info u s) = holds R s"
  by (auto simp: emit_completion_events_def Let_def split: option.split prod.split)

lemma h_completion_batch: "holds R s \<Longrightarrow> holds R (process_completion_batch rnd now batch s)"
proof -
  assume h: "holds R s"
  have "holds R (fst (on_store (complete_batch_with_resolve now batch) s))"
    by (rule h_on_store [OF h]) (rule st_complete_batch)
  then show ?thesis
    by (auto simp: process_completion_batch_def Let_def h_completion_events
        intro!: h_fold h_parent_resolution split: prod.split sum.split option.split)
qed

lemma h_drain_completions: "holds R s \<Longrightarrow> holds R (drain_completions rnd now s)"
  by (simp add: drain_completions_def Let_def h_completion_batch)

lemma h_removed: "holds R s \<Longrightarrow> holds R (fst (active_remove i (decrement_module task s)))"
  by (rule h_remove) simp

lemma h_success: "holds R s \<Longrightarrow> holds R (handle_success rnd now leader task phase io memo s)"
  by (auto simp: handle_success_def Let_def
      intro!: h_drain_completions h_parent_resolution h_removed h_on_rows op_set_waiting)

lemma h_drain_failures: "holds R s \<Longrightarrow> holds R (drain_failures rnd now s)"
  by (auto simp: drain_failures_def process_failure_batch_def Let_def intro!: h_store st_fail_batch split: option.split)

lemma h_cancel_sibling: "holds R s \<Longrightarrow> holds R (cancel_sibling i s)"
  using h_remove [of s i]
  by (auto simp: cancel_sibling_def intro!: h_on_rows h_cancel_token split: prod.split option.split)
     (simp add: op_delete_task)

lemma h_fail_parent: "holds R s \<Longrightarrow> holds R (fail_parent rnd now task e i s)"
proof -
  assume h: "holds R s"
  have "holds R (fst (on_store (cancel_children now i) s))"
    by (rule h_on_store [OF h]) (rule st_cancel_children)
  with h show ?thesis
    by (auto simp: fail_parent_def Let_def intro!: h_record_failure h_fold h_cancel_sibling h_parent_resolution
        split: prod.split sum.split option.split)
qed

lemma h_propagate_failure: "holds R s \<Longrightarrow> holds R (propagate_failure rnd now task e s)"
proof -
  assume h: "holds R s"
  have "holds R (fst (on_store (fail_dependents now (t_id task)) s))"
    by (rule h_on_store [OF h]) (rule st_fail_dependents)
  with h show ?thesis
    by (auto simp: propagate_failure_def Let_def intro!: h_fail_parent
        split: prod.split sum.split option.split)
qed

lemma h_write_failure: "holds R s \<Longrightarrow> holds R (write_failure rnd now leader task e io delay s)"
  by (auto simp: write_failure_def Let_def intro!: h_on_rows op_requeue_for_retry h_record_failure h_drain_failures)

lemma h_failure: "holds R s \<Longrightarrow> handle_failure rnd now leader task e io s = Some t \<Longrightarrow> holds R t"
  by (auto simp: handle_failure_def Let_def intro!: h_propagate_failure h_removed h_write_failure
      split: option.splits if_splits)

lemma h_retry_inline: "holds R s \<Longrightarrow> e \<in> set (s_executions s) \<Longrightarrow> holds R (retry_inline e error s)"
proof -
  assume h: "holds R s" and e: "e \<in> set (s_executions s)"
  have "holds R (on_rows (increment_retry i m) s)" for i m
    using h by (rule h_on_rows) (rule op_increment_retry)
  with e show ?thesis
    by (auto simp: retry_inline_def Let_def holds_def emit_def count_failure_def count_def on_rows_def intro!: R_retry)
qed

lemma h_execution_fails:
  assumes "holds R s" "e \<in> set (s_executions s)" "execution_fails rnd now leader e error io s = Some t"
  shows "holds R t"
  using assms by (auto simp: execution_fails_def Let_def intro!: h_drop h_removed h_retry_inline
      intro: h_failure split: option.splits if_splits)

lemma h_execution_returns: "holds R s \<Longrightarrow> holds R (execution_returns rnd now leader tok result io s)"
  by (auto simp: execution_returns_def find_Some_iff intro!: h_drop h_success intro: h_execution_fails nth_mem
      split: option.split sum.split)

section \<open>Dispatch\<close>

lemma h_spawn_dispatched: "holds R s \<Longrightarrow> holds R (fst (spawn_dispatched_task rnd now tick task s))"
  by (auto simp: spawn_dispatched_task_def intro: h_spawn_task h_store st_fail_with_record
      split: option.split prod.split sum.split)

lemma h_expire_inline: "holds R s \<Longrightarrow> holds R (expire_task_inline counted now i s)"
proof -
  assume h: "holds R s"
  have "holds R (fst (on_store (expire_single now i) s))"
    by (rule h_on_store [OF h]) (rule st_expire_single)
  then show ?thesis by (auto simp: expire_task_inline_def split: prod.split sum.split option.split)
qed

lemma h_consult_gate: "holds R (fst (consult_gate paused skip tick task s)) = holds R s"
  by (auto simp: consult_gate_def holds_def control_of_def gate_context_of_def dest!: admit_rate_limits split: prod.split)

lemma h_attempt: "holds R s \<Longrightarrow> holds R (fst (attempt_task rnd counted paused skip now tick peeked s))"
proof (cases peeked)
  case (Some cand)
  assume h: "holds R s"
  let ?c = "populate_tags (s_store s) cand"
  obtain s1 a where g: "consult_gate paused skip tick ?c s = (s1, a)" by force
  then have s1: "holds R s1" using h h_consult_gate [of paused skip tick ?c s] by simp
  obtain s2 claimed where c: "on_store (claim_task now (t_id ?c)) s1 = (s2, claimed)" by force
  have "holds R s2" by (rule h_on_store_eq [OF s1 st_claim_task c])
  then have "holds R (fst (spawn_dispatched_task rnd now tick (claimed_record now ?c) s2))"
    by (rule h_spawn_dispatched)
  with h s1 g c \<open>holds R s2\<close> Some show ?thesis
    by (auto simp: attempt_task_def Let_def defer_task_def intro!: h_expire_inline h_on_rows op_set_run_after
        split: admission.split bool.split prod.split sum.split)
qed (simp add: attempt_task_def)

lemma h_try_dispatch: "holds R s \<Longrightarrow> holds R (fst (try_dispatch rnd now tick s))"
proof -
  assume h: "holds R s"
  have pop: "holds R (fst (on_store (pop_next now (current_aging now s)) s))"
    by (rule h_on_store [OF h]) (rule st_pop_next)
  show ?thesis
    using h pop h_attempt [OF h, of rnd True "s_paused_groups s" False now tick
        "peek_next now (current_aging now s) (st_db (s_store s))"]
    by (auto simp: try_dispatch_def intro: h_spawn_dispatched split: prod.split option.split attempt.split)
qed

lemma h_dispatch_loop: "dispatch_loop rnd clock s = Some (t, r) \<Longrightarrow> holds R s \<Longrightarrow> holds R t"
proof (induction rnd clock s rule: dispatch_loop.induct)
  case (2 rnd now tick clock s)
  then show ?case using h_try_dispatch [of s rnd now tick] by (auto split: prod.splits sum.splits bool.splits)
qed simp

lemma h_spawn_all: "holds R s \<Longrightarrow> holds R (fst (spawn_all rnd now tick ts s))"
proof (induction ts arbitrary: s)
  case (Cons task ts)
  then show ?case using h_spawn_dispatched [OF Cons.prems, of rnd now tick task]
    by (auto split: prod.split sum.split)
qed simp

lemma h_batch_loop: "batch_loop rnd aging clock s = Some (t, r) \<Longrightarrow> holds R s \<Longrightarrow> holds R t"
proof (induction rnd aging clock s rule: batch_loop.induct)
  case (2 rnd aging now tick clock s)
  let ?m = "pop_next_batch now (s_max_concurrency s - active_count s) aging"
  obtain s1 popped where pop: "on_store ?m s = (s1, popped)" by force
  have s1: "holds R s1" by (rule h_on_store_eq [OF 2(3) st_pop_next_batch pop])
  obtain s2 r2 where all: "spawn_all rnd now tick (map (populate_tags (s_store s1)) popped) s1 = (s2, r2)" by force
  with h_spawn_all [OF s1, of rnd now tick "map (populate_tags (s_store s1)) popped"] have "holds R s2" by simp
  with 2 pop s1 all show ?case by (auto split: if_splits sum.splits)
qed simp

lemma h_fair_group: "holds R s \<Longrightarrow> holds R (fst (fair_group rnd mx paused aging now tick g n k s))"
proof (induction n arbitrary: k s)
  case (Suc n)
  obtain s1 a where at: "attempt_task rnd False paused True now tick (peek_group now aging g s) s = (s1, a)" by force
  have "holds R s1"
    using h_attempt [OF Suc.prems, of rnd False paused True now tick "peek_group now aging g s"] at by simp
  with Suc at show ?case by (auto split: attempt.split)
qed simp

lemma h_fair_pass: "holds R s \<Longrightarrow> holds R (fst (fair_pass rnd mx paused aging now tick running alloc k s))"
proof (induction alloc arbitrary: k s)
  case (Cons ga alloc)
  obtain g n where ga: "ga = (g, n)" by force
  show ?case using Cons h_fair_group [OF Cons.prems, of rnd mx paused aging now tick g "n - slots running g" k]
    by (auto simp: ga split: prod.split sum.split)
qed simp

lemma h_greedy_pass: "holds R s \<Longrightarrow> holds R (fst (greedy_pass rnd paused peek now tick n s))"
proof (induction n arbitrary: s)
  case (Suc n)
  obtain s1 a where at: "attempt_task rnd False paused False now tick (peek s) s = (s1, a)" by force
  have "holds R s1" using h_attempt [OF Suc.prems, of rnd False paused False now tick "peek s"] at by simp
  with Suc at show ?case by (auto split: attempt.split)
qed simp

lemma h_urgent_pass: "holds R s \<Longrightarrow> holds R (fst (urgent_pass rnd mx aging now tick s))"
  by (auto simp: urgent_pass_def dispatch_urgent_def intro: h_greedy_pass split: option.split)

lemma h_dispatch_fair: "holds R s \<Longrightarrow> holds R (fst (dispatch_fair rnd now tick s))"
proof -
  assume h: "holds R s"
  let ?mx = "s_max_concurrency s" and ?paused = "s_paused_groups s" and ?aging = "current_aging now s"
    and ?running = "running_counts_per_group (st_db (s_store s))"
  obtain s1 r1 where f: "fair_pass rnd ?mx ?paused ?aging now tick ?running
      (compute_allocation ?mx (merge_demand ?running (pending_counts_per_group now (st_db (s_store s))))
        (s_group_weights s) (s_group_limits s) ?paused) 0 s = (s1, r1)" by force
  then have s1: "holds R s1" using h_fair_pass [OF h] by (metis fst_conv)
  obtain s2 r2 where g: "greedy_pass rnd ?paused (\<lambda>s. peek_next now ?aging (st_db (s_store s))) now tick
      (?mx - (active_count s1 + projr r1)) s1 = (s2, r2)" by force
  then have s2: "holds R s2" using h_greedy_pass [OF s1] by (metis fst_conv)
  have "holds R (fst (urgent_pass rnd ?mx ?aging now tick s2))" by (rule h_urgent_pass [OF s2])
  then show ?thesis using h f s1 g s2 by (cases r1; cases r2) (auto simp: dispatch_fair_def Let_def)
qed

lemma h_dispatch_pending: "dispatch_pending rnd now tick clock s = Some (t, r) \<Longrightarrow> holds R s \<Longrightarrow> holds R t"
  using h_dispatch_fair [of s rnd now tick]
  by (auto simp: dispatch_pending_def intro: h_batch_loop h_dispatch_loop split: if_splits)

lemma h_try_finalizer: "holds R s \<Longrightarrow> holds R (fst (try_dispatch_finalizer rnd now tick s))"
proof (cases "s_pending_finalizers s")
  case (Cons i rest)
  assume h: "holds R s"
  let ?s = "on_rows (set_running_for_finalize now i) (s\<lparr>s_pending_finalizers := rest\<rparr>)"
  have s2: "holds R ?s" by (rule h_on_rows) (simp_all add: h op_set_running)
  show ?thesis
    using h s2 by (auto simp: try_dispatch_finalizer_def Cons Let_def intro: h_spawn_task h_store st_fail
        split: option.split prod.split sum.split)
qed (simp add: try_dispatch_finalizer_def)

lemma h_finalizer_loop: "holds R s \<Longrightarrow> holds R (finalizer_loop n rnd now tick s)"
proof (induction n arbitrary: s)
  case (Suc n)
  then show ?case using h_try_finalizer [of s rnd now tick] by (auto split: prod.split sum.split bool.split)
qed simp

lemma h_finalizers: "holds R s \<Longrightarrow> holds R (dispatch_finalizers rnd now tick s)"
  unfolding dispatch_finalizers_def by (rule h_finalizer_loop)

section \<open>Submission and cancellation\<close>

lemma h_count_outcome [simp]: "holds R (count_outcome out s) = holds R s"
  by (simp add: count_outcome_def split: submit_outcome.split)

lemma h_count_outcomes [simp]: "holds R (fold count_outcome rs s) = holds R s"
  by (induction rs arbitrary: s) simp_all

lemma h_cancelled: "holds R s \<Longrightarrow> holds R (fst (on_store (cancel_to_history_with_record now r) s))"
  by (rule h_on_store) (simp_all add: st_cancel_with_record)

lemma h_cancel_active: "holds R s \<Longrightarrow> holds R (fst (cancel_active now i s))"
proof -
  assume h: "holds R s"
  obtain s1 x where rem: "active_remove i s = (s1, x)" by force
  with h h_cancelled [of "cancel_token t s1" now r for t r] show ?thesis
    by (auto simp: cancel_active_def on_store_eq dest: h_remove_eq intro!: h_cancel_token split: option.split sum.split)
qed

lemma k_cancel_active: "keeps (holds R) (cancel_active now i)"
  by (rule keepsI) (rule h_cancel_active)

lemma h_replaced_child: "holds R s \<Longrightarrow> holds R (cancel_replaced_child now i s)"
proof -
  assume "holds R s"
  then have "holds R (fst (active_remove i s))" by (rule h_remove)
  then show ?thesis
    by (auto simp: cancel_replaced_child_def intro!: h_cancelled h_cancel_token split: prod.split option.split)
qed

lemma h_superseded_active: "holds R s \<Longrightarrow> holds R (handle_superseded_active now i s)"
proof -
  assume h: "holds R s"
  obtain s1 r where c: "on_store (cancel_children now i) s = (s1, r)" by force
  have s1: "holds R s1" by (rule h_on_store_eq [OF h st_cancel_children c])
  then have "holds R (fold (cancel_replaced_child now) xs s1)" for xs by (intro h_fold h_replaced_child)
  with s1 c show ?thesis
    by (auto simp: handle_superseded_active_def Let_def dest: h_remove_eq intro!: h_cancel_token split: prod.split sum.split option.split)
qed

lemma h_superseded: "holds R s \<Longrightarrow> holds R (handle_superseded sha now sub out s)"
  by (simp add: handle_superseded_def h_superseded_active split: submit_outcome.split)

lemma h_preempt_for: "holds R s \<Longrightarrow> holds R (preempt_for now p s)"
  using h_preempt_below [of s now p] by (auto simp: preempt_for_def split: prod.split list.split)

lemma h_after_submits: "holds R s \<Longrightarrow> holds R (after_submits sha now xs s)"
  unfolding after_submits_def
  by (rule h_fold) (auto simp: after_submit_def Let_def intro!: h_preempt_for h_superseded split: sum.split)

lemma h_submit: "holds R s \<Longrightarrow> holds R (fst (sched_submit sha256_hex now sub s))"
proof -
  assume h: "holds R s"
  let ?sub = "resolve_ttl s sub"
  obtain st rs r where sub: "submit sha256_hex now (s_submit_queue s) ?sub (s_store s) = (st, rs, r)"
    using prod_cases3 by blast
  have "holds R (s\<lparr>s_store := st\<rparr>)"
    using st_submit [of True sha256_hex "s_store s" now "s_submit_queue s" ?sub] sub by (intro h_store [OF h]) simp
  with h sub show ?thesis
    by (auto simp: sched_submit_def Let_def intro!: h_after_submits split: sum.split)
qed

lemma h_submit_queued: "holds R s \<Longrightarrow> holds R (fst (sched_submit_queued sub s))"
  by (simp add: sched_submit_queued_def Let_def split: sum.split)

lemma h_submit_batch: "holds R s \<Longrightarrow> holds R (fst (sched_submit_batch sha256_hex now subs s))"
proof -
  assume h: "holds R s"
  obtain s1 r where b: "on_store (submit_batch sha256_hex now (map (resolve_ttl s) subs)) s = (s1, r)" by force
  have "holds R s1" by (rule h_on_store_eq [OF h st_submit_batch b])
  then have "holds R (fold (\<lambda>(sub, out). handle_superseded sha256_hex now sub out) xs (fold count_outcome rs (count f s1)))" for xs rs f
    by (intro h_fold) (auto intro: h_superseded)
  with b \<open>holds R s1\<close> show ?thesis
    by (auto simp: sched_submit_batch_def Let_def intro!: h_preempt_for split: sum.split option.split)
qed

lemma k_cancel: "keeps (holds R) (sched_cancel now i)"
  unfolding sched_cancel_def
  by (intro keeps_andThen keeps_for_each keeps_ok h_keeps_store st_cancel_children k_cancel_active)
     (auto intro: keeps_ok h_keeps_store st_cancel)

lemma k_cancel_each: "keeps (holds R) (cancel_each now ids)"
  unfolding cancel_each_def by (intro keeps_andThen keeps_collect_each keeps_ok k_cancel)

lemma h_cancel_each: "holds R s \<Longrightarrow> holds R (fst (cancel_each now ids s))"
  by (rule keepsD [OF k_cancel_each])

lemma k_cancel_recurring: "keeps (holds R) (sched_cancel_recurring now i)"
  unfolding sched_cancel_recurring_def
  by (intro keeps_andThen k_cancel_active) (auto intro: keeps_ok h_keeps_store st_cancel_recurring)

lemma h_retry_dead_letter: "holds R s \<Longrightarrow> holds R (fst (retry_dead_letter sha256_hex now hid s))"
proof -
  assume h: "holds R s"
  have rows: "holds R t \<Longrightarrow> holds R (on_rows (fst \<circ> delete_history hid) t)" for t
    by (rule h_on_rows) (simp_all add: op_delete_history)
  have "keeps (holds R) (andThen (sched_submit sha256_hex now sub)
          (\<lambda>out. if is_inserted out then (\<lambda>s. (on_rows (fst \<circ> delete_history hid) s, Inr out)) else ok out))" for sub
    by (intro keeps_andThen keepsI h_submit) (auto intro: rows)
  from keepsD [OF this h] h show ?thesis
    by (auto simp: retry_dead_letter_def split: option.split)
qed

section \<open>Control\<close>

lemma h_control: "holds R s \<Longrightarrow> control_op limits s t \<Longrightarrow> holds R t"
  using control_op_same [of limits s t] by (auto simp: holds_def intro: R_control)

lemma h_pause_all: "holds R s \<Longrightarrow> holds R (pause_all now s)"
  by (simp add: pause_all_def h_pause_active_all)

lemma h_resume_all: "holds R s \<Longrightarrow> holds R (resume_all now s)"
  by (auto simp: resume_all_def single_reason_def GLOBAL_def intro!: h_on_rows op_clear_pause_bit)

lemma h_rows_get: "holds R s \<Longrightarrow> (\<And>d. db_op d (fst (f d))) \<Longrightarrow> holds R (fst (on_rows_get f s))"
  by (simp add: on_rows_get_def h_on_rows)

lemma h_rows_get_eq: "holds R s \<Longrightarrow> (\<And>d. db_op d (fst (f d))) \<Longrightarrow> on_rows_get f s = (t, x) \<Longrightarrow> holds R t"
  by (metis fst_conv h_rows_get)

lemma h_pause_group: "holds R s \<Longrightarrow> holds R (fst (pause_group_inner now g until s))"
proof -
  assume h: "holds R s"
  obtain s1 b where p: "on_rows_get (pause_group_state now g until) s = (s1, b)" by force
  let ?s2 = "s1\<lparr>s_paused_groups := List.insert g (s_paused_groups s1), s_fast_dispatch := False\<rparr>"
  obtain s3 n where q: "on_rows_get (pause_tasks_in_group now g) ?s2 = (s3, n)" by force
  obtain s4 m where r: "pause_active_group now g s3 = (s4, m)" by force
  have s1: "holds R s1" by (rule h_rows_get_eq [OF h op_pause_group_state p])
  then have "holds R ?s2" by (rule h_control) (rule co_pause)
  then have "holds R s3" by (rule h_rows_get_eq [OF _ op_pause_tasks_in_group q])
  then have "holds R s4" using h_pause_active_group [of s3 now g] r by simp
  with s1 p q r show ?thesis by (cases b) (auto simp: pause_group_inner_def Let_def)
qed

lemma h_resume_finish: "holds R s \<Longrightarrow> holds R (resume_group_finish g n s)"
proof -
  assume "holds R s"
  then have s1: "holds R (on_rows (fst \<circ> resume_group_state g) s)"
    by (rule h_on_rows) (simp add: op_resume_group_state)
  have "holds R (if s_paused_groups s' = [] then maybe_restore_fast_dispatch s' else s')"
    if "s' = (on_rows (fst \<circ> resume_group_state g) s)\<lparr>s_paused_groups := removeAll g
      (s_paused_groups (on_rows (fst \<circ> resume_group_state g) s))\<rparr>" for s'
    by (rule h_control [OF s1]) (rule co_unpause [OF that])
  from this [OF refl] show ?thesis by (auto simp: resume_group_finish_def Let_def split: if_splits)
qed

lemma h_resume_tasks: "holds R s \<Longrightarrow> holds R (fst (resume_group_tasks now g s))"
  unfolding resume_group_tasks_def by (intro h_rows_get op_resume_paused_by_group)

lemma h_resume_group: "holds R s \<Longrightarrow> holds R (resume_group now g s)"
  using h_resume_tasks [of s now g] by (auto simp: resume_group_def intro: h_resume_finish split: prod.split)

section \<open>The cycle\<close>

lemma h_expire_tasks: "holds R s \<Longrightarrow> holds R (maybe_expire_tasks now tick s)"
proof -
  assume h: "holds R s"
  then have "holds R (s\<lparr>s_last_expiry_sweep := tick\<rparr>)" by simp
  then have "holds R (fst (on_store (expire_tasks now) (s\<lparr>s_last_expiry_sweep := tick\<rparr>)))"
    by (rule h_on_store) (rule st_expire_tasks)
  with h show ?thesis by (auto simp: maybe_expire_tasks_def split: option.split prod.split sum.split)
qed

lemma h_drain_submits: "holds R s \<Longrightarrow> holds R (drain_submits sha256_hex now s)"
proof -
  assume h: "holds R s"
  obtain st rs where b: "process_submit_batch sha256_hex now (s_submit_queue s) (s_store s) = (st, rs)" by force
  have "holds R (s\<lparr>s_store := st\<rparr>)"
    using st_drain_submits [of True sha256_hex "s_store s" now "s_submit_queue s"] b by (intro h_store [OF h]) simp
  with h b show ?thesis by (auto simp: drain_submits_def intro: h_after_submits)
qed

lemma h_drain_queues: "holds R s \<Longrightarrow> holds R (drain_queues sha256_hex rnd now s)"
  by (simp add: drain_queues_def h_drain_failures h_drain_completions h_drain_submits)

lemma h_resume_unpreempted: "holds R s \<Longrightarrow> holds R (resume_unpreempted now s)"
  by (auto simp: resume_unpreempted_def Let_def intro!: h_fold h_on_rows op_resume_preempted)

lemma h_auto_resume: "holds R s \<Longrightarrow> holds R (auto_resume_groups now tick s)"
  by (auto simp: auto_resume_groups_def intro!: h_fold h_resume_group)

lemma h_housekeeping: "holds R s \<Longrightarrow> holds R (housekeeping sha256_hex rnd now tick s)"
  by (simp add: housekeeping_def h_auto_resume h_resume_unpreempted h_expire_tasks h_drain_queues)

lemma h_poll: "poll_and_dispatch sha256_hex rnd now tick clock s = Some t \<Longrightarrow> holds R s \<Longrightarrow> holds R t"
  using h_finalizers [OF h_housekeeping, of s rnd now tick rnd now tick]
  by (auto simp: poll_and_dispatch_def intro: h_dispatch_pending split: if_splits)

lemma cancel_tokens_same:
  "s_store (fold (\<lambda>(_, a) s. cancel_token (at_token a) s) xs s) = s_store s"
  "s_next_token (fold (\<lambda>(_, a) s. cancel_token (at_token a) s) xs s) = s_next_token s"
  "control_of (fold (\<lambda>(_, a) s. cancel_token (at_token a) s) xs s) = control_of s"
  by (induction xs arbitrary: s) (auto simp: cancel_token_def)

lemma h_cancel_all: "holds R s \<Longrightarrow> holds R (cancel_all s)"
  using R_filter [of _ _ _ _ _ "\<lambda>_. False"] by (simp add: cancel_all_def holds_def cancel_tokens_same R_drop)

lemma h_cancel_and_drain: "holds R s \<Longrightarrow> holds R (fst (cancel_and_drain_handles s))"
  by (simp add: cancel_and_drain_handles_def h_clear_active h_cancel_tokens)

lemma h_shutdown: "holds R s \<Longrightarrow> holds R (shutdown sha256_hex rnd now returned s)"
proof -
  assume h: "holds R s"
  obtain s1 handles where c: "cancel_and_drain_handles s = (s1, handles)" by force
  then have s1: "holds R s1" using h_cancel_and_drain [OF h] by simp
  have "holds R (fold drop_execution late
      (fold (\<lambda>(tok, leader, result, metrics). execution_returns rnd now leader tok result metrics) xs s1))" for late xs
    by (intro h_fold h_drop s1) (auto intro!: h_execution_returns)
  with h c show ?thesis
    by (auto simp: shutdown_def Let_def intro!: h_drain_queues h_cancel_all split: shutdown_mode.split)
qed

section \<open>Modules and children\<close>

lemma h_builder_submit: "holds R s \<Longrightarrow> holds R (fst (builder_submit sha256_hex now b s))"
  by (simp add: builder_submit_def Let_def h_submit)

lemma h_spawn_child: "holds R s \<Longrightarrow> holds R (fst (spawn_child sha256_hex now parent sub s))"
proof -
  assume h: "holds R s"
  let ?sub = "prepare_child now parent sub"
  obtain st rs r where sub: "submit sha256_hex now (s_submit_queue s) ?sub (s_store s) = (st, rs, r)"
    using prod_cases3 by blast
  have "holds R (s\<lparr>s_store := st\<rparr>)"
    using st_submit [of True sha256_hex "s_store s" now "s_submit_queue s" ?sub] sub by (intro h_store [OF h]) simp
  with h sub show ?thesis
    by (auto simp: spawn_child_def Let_def intro!: h_after_submits split: sum.split)
qed

lemma h_spawn_children: "holds R s \<Longrightarrow> holds R (fst (spawn_children sha256_hex now parent subs s))"
proof -
  have "keeps (holds R) (spawn_children sha256_hex now parent subs)"
    unfolding spawn_children_def
    by (intro keeps_andThen h_keeps_store st_submit_batch keepsI) simp
  then show "holds R s \<Longrightarrow> ?thesis" by (rule keepsD)
qed

lemma h_module_batch: "holds R s \<Longrightarrow> holds R (fst (module_submit_batch sha256_hex now m subs s))"
  by (simp add: module_submit_batch_def Let_def h_submit_batch)

lemma h_module_pause: "holds R s \<Longrightarrow> holds R (fst (module_pause now m s))"
proof -
  assume h: "holds R s"
  let ?s1 = "s\<lparr>s_module_paused := AList.map_entry (mh_name m) (\<lambda>_. True) (s_module_paused s)\<rparr>"
  obtain s2 n where p: "pause_active_module now (mh_prefix m) ?s1 = (s2, n)" by force
  have "holds R s2" using h_pause_active_module [of ?s1 now "mh_prefix m"] h p by simp
  then have "holds R (fst (on_rows_get (pause_pending_by_type_prefix now (mh_prefix m)) s2))"
    by (intro h_rows_get op_pause_by_prefix)
  with p show ?thesis by (auto simp: module_pause_def Let_def split: prod.split)
qed

lemma h_module_resume: "holds R s \<Longrightarrow> holds R (fst (module_resume now m s))"
proof -
  assume h: "holds R s"
  let ?s1 = "s\<lparr>s_module_paused := AList.map_entry (mh_name m) (\<lambda>_. False) (s_module_paused s)\<rparr>"
  have "holds R (fst (on_rows_get (resume_paused_by_type_prefix now (mh_prefix m)) ?s1))"
    by (intro h_rows_get op_resume_by_prefix) (simp add: h)
  with h show ?thesis by (auto simp: module_resume_def Let_def split: prod.split)
qed

end

end
