(* ===== verification/Scheduler_System.thy ===== *)
theory Scheduler_System
  imports Scheduler_Contract
begin

text \<open>
  The scheduler as a transition system: one step per public operation, per returning
  execution, per cycle of the run loop, and a crash followed by a restart on the same
  database. Between steps anything may interleave: steps are the points where the code
  holds no lock across an \<open>await\<close>.
\<close>

section \<open>The steps\<close>

inductive sched_step :: "(bytes \<Rightarrow> string) \<Rightarrow> bool \<Rightarrow> scheduler \<Rightarrow> scheduler \<Rightarrow> bool"
  for sha256_hex :: "bytes \<Rightarrow> string" and limits :: bool where
  sc_submit: "sched_step sha256_hex limits s (fst (sched_submit sha256_hex now sub s))"
| sc_submit_queued: "sched_step sha256_hex limits s (fst (sched_submit_queued sub s))"
| sc_submit_batch: "sched_step sha256_hex limits s (fst (sched_submit_batch sha256_hex now subs s))"
| sc_builder_submit: "sched_step sha256_hex limits s (fst (builder_submit sha256_hex now b s))"
| sc_module_batch: "sched_step sha256_hex limits s (fst (module_submit_batch sha256_hex now m subs s))"
| sc_spawn_child: "sched_step sha256_hex limits s (fst (spawn_child sha256_hex now parent sub s))"
| sc_spawn_children: "sched_step sha256_hex limits s (fst (spawn_children sha256_hex now parent subs s))"
| sc_retry_dead_letter: "sched_step sha256_hex limits s (fst (retry_dead_letter sha256_hex now hid s))"
| sc_cancel: "sched_step sha256_hex limits s (fst (sched_cancel now i s))"
| sc_cancel_each: "sched_step sha256_hex limits s (fst (cancel_each now ids s))"
| sc_cancel_recurring: "sched_step sha256_hex limits s (fst (sched_cancel_recurring now i s))"
| sc_store: "store_step sha256_hex True (s_store s) st \<Longrightarrow> sched_step sha256_hex limits s (s\<lparr>s_store := st\<rparr>)"
| sc_control: "control_op limits s t \<Longrightarrow> sched_step sha256_hex limits s t"
| sc_max_concurrency: "sched_step sha256_hex limits s (set_max_concurrency n s)"
| sc_pause_all: "sched_step sha256_hex limits s (pause_all now s)"
| sc_resume_all: "sched_step sha256_hex limits s (resume_all now s)"
| sc_pause_group: "sched_step sha256_hex limits s (fst (pause_group_inner now g until s))"
| sc_resume_tasks: "sched_step sha256_hex limits s (fst (resume_group_tasks now g s))"
| sc_resume_finish: "sched_step sha256_hex limits s (resume_group_finish g n s)"
| sc_module_pause: "sched_step sha256_hex limits s (fst (module_pause now m s))"
| sc_module_resume: "sched_step sha256_hex limits s (fst (module_resume now m s))"
| sc_report: "sched_step sha256_hex limits s (report now header p message s)"
| sc_returns: "sched_step sha256_hex limits s (execution_returns rnd now leader tok result metrics s)"
| sc_poll: "poll_and_dispatch sha256_hex rnd now tick clock s = Some t \<Longrightarrow> sched_step sha256_hex limits s t"
| sc_try_dispatch: "sched_step sha256_hex limits s (fst (try_dispatch rnd now tick s))"
| sc_shutdown: "sched_step sha256_hex limits s (shutdown sha256_hex rnd now returned s)"
| sc_restart: "build_scheduler now tick bd = Some (Inr t) \<Longrightarrow> sbd_store bd = None
    \<Longrightarrow> sbd_persisted bd = Some (st_db (s_store s)) \<Longrightarrow> sched_step sha256_hex limits s t"

inductive_cases sched_stepE: "sched_step sha256_hex limits s t"

text \<open>A scheduler starts on a fresh database.\<close>

definition sched_init :: "scheduler \<Rightarrow> bool" where
  "sched_init s \<longleftrightarrow> (\<exists>now tick bd st. build_scheduler now tick bd = Some (Inr s)
     \<and> builder_store now bd = Some st \<and> store_init st)"

context scheduler_contract
begin

lemma h_restart:
  "holds R s \<Longrightarrow> build_scheduler now tick bd = Some (Inr t) \<Longrightarrow> sbd_store bd = None
   \<Longrightarrow> sbd_persisted bd = Some (st_db (s_store s)) \<Longrightarrow> holds R t"
  unfolding holds_def by (rule R_restart)

lemma h_step: "sched_step sha256_hex limits s t \<Longrightarrow> holds R s \<Longrightarrow> holds R t"
proof (erule sched_stepE, goal_cases)
  case (9 now i) then show ?case by (simp add: keepsD [OF k_cancel])
next
  case (11 now i) then show ?case by (simp add: keepsD [OF k_cancel_recurring])
qed (auto simp: set_max_concurrency_def
      intro: h_submit h_submit_queued h_submit_batch h_builder_submit h_module_batch h_spawn_child h_spawn_children
        h_retry_dead_letter h_cancel_each h_store h_control h_pause_all h_resume_all h_pause_group h_resume_tasks
        h_resume_finish h_module_pause h_module_resume h_report h_execution_returns h_poll h_try_dispatch
        h_shutdown h_restart)

end

section \<open>What a built scheduler looks like\<close>

lemma built_assembled:
  assumes "build_scheduler now tick bd = Some (Inr s)"
  obtains st reg pressure where "builder_store now bd = Some st" "builder_pressure bd = Some pressure"
    "register_modules (sbd_modules bd) registry_new = (reg, Inr ())" "s = assemble tick bd st reg pressure"
  using assms by (auto simp: build_scheduler_def split: option.splits if_splits prod.splits sum.splits)

lemma assemble_core:
  "s_store (assemble tick bd st reg pressure) = st" "s_active (assemble tick bd st reg pressure) = []"
  "s_executions (assemble tick bd st reg pressure) = []" "s_next_token (assemble tick bd st reg pressure) = 0"
  by (simp_all add: assemble_def Let_def apply_limits_def with_gate_def set_resource_reader_def)

section \<open>The store under the scheduler\<close>

definition store_runs :: "(bytes \<Rightarrow> string) \<Rightarrow> task_store \<Rightarrow> task_store \<Rightarrow> bool" where
  "store_runs sha256_hex = (store_step sha256_hex True)\<^sup>*\<^sup>*"

interpretation runs: scheduler_contract sha256_hex True "\<lambda>st act ex n c. store_runs sha256_hex st0 st"
  for sha256_hex st0
proof (unfold_locales, goal_cases)
  case (1 st act ex n c st')
  then show ?case unfolding store_runs_def by (rule rtranclp.rtrancl_into_rtrancl)
next
  case (9 st act ex n c now tick bd t)
  then obtain reg pressure where "t = assemble tick bd (open_with_config now (sbd_store_config bd) (st_db st)) reg pressure"
    by (elim built_assembled) (auto simp: builder_store_def)
  with 9(1) show ?case unfolding store_runs_def
    by (auto simp: assemble_core intro: rtranclp.rtrancl_into_rtrancl st_reopen)
qed simp_all

lemma step_runs: "sched_step sha256_hex True s t \<Longrightarrow> (store_step sha256_hex True)\<^sup>*\<^sup>* (s_store s) (s_store t)"
  using runs.h_step [of sha256_hex s t "s_store s"] by (simp add: holds_def store_runs_def)

interpretation refines: simulation sched_init "sched_step sha256_hex True" s_store store_init "store_step sha256_hex True"
  for sha256_hex
proof
  show "sched_init s \<Longrightarrow> store_init (s_store s)" for s
    by (auto simp: sched_init_def elim!: built_assembled simp: assemble_core)
qed (rule step_runs)

lemma sched_store_inv: "reachable sched_init (sched_step sha256_hex True) s \<Longrightarrow> store_inv (s_store s)"
  by (rule store_sys.inv_reachable [OF refines.reachable_view])

section \<open>Well-formed executions\<close>

text \<open>The active map has one entry per task, under the id of its record; every token has
  been issued; an execution with the token of an entry runs the task of that entry.\<close>

definition active_ok :: "(int, active_task) assoc \<Rightarrow> execution list \<Rightarrow> nat \<Rightarrow> bool" where
  "active_ok act ex n \<longleftrightarrow>
     distinct (map fst act) \<and> distinct (map (at_token \<circ> snd) act) \<and> distinct (map ex_id ex)
     \<and> (\<forall>(i, a) \<in> set act. t_id (at_record a) = i \<and> at_token a < n)
     \<and> (\<forall>e \<in> set ex. ex_id e < n)
     \<and> (\<forall>(i, a) \<in> set act. \<forall>e \<in> set ex. ex_id e = at_token a \<longrightarrow> t_id (ex_task e) = i)"

lemma set_update_subset: "set (AList.update k v al) \<subseteq> insert (k, v) (set al)"
  by (induction al) auto

lemma active_ok_filter: "active_ok act ex n \<Longrightarrow> active_ok (filter p act) (filter q ex) n"
  by (auto simp: active_ok_def distinct_map_filter)

lemma distinct_tokens_update:
  assumes "distinct (map (at_token \<circ> snd) act)" "\<forall>(i, b) \<in> set act. at_token b < n" "at_token a = n"
  shows "distinct (map (at_token \<circ> snd) (AList.update i a act))"
  using assms
proof (induction act)
  case (Cons x act)
  then have "at_token (snd x) \<notin> (\<lambda>x. at_token (snd x)) ` set (AList.update i a act)"
    using set_update_subset [of i a act] by (fastforce simp: image_iff)
  with Cons show ?case by (cases x) (auto split: if_splits)
qed simp

lemma active_ok_spawn:
  assumes ok: "active_ok act ex n" and a: "at_token a = n" "at_record a = task" and e: "ex_id e = n" "ex_task e = task"
  shows "active_ok (AList.update (t_id task) a act) (ex @ [e]) (Suc n)"
proof -
  note sub = set_update_subset [of "t_id task" a act]
  have "distinct (map fst (AList.update (t_id task) a act))"
    using ok by (simp add: active_ok_def distinct_update)
  moreover have "distinct (map (at_token \<circ> snd) (AList.update (t_id task) a act))"
    using ok a(1) by (intro distinct_tokens_update) (auto simp: active_ok_def)
  moreover have "distinct (map ex_id (ex @ [e]))" using ok e by (auto simp: active_ok_def)
  moreover have "\<forall>(i, b) \<in> set (AList.update (t_id task) a act). t_id (at_record b) = i \<and> at_token b < Suc n"
    using sub ok a by (fastforce simp: active_ok_def)
  moreover have "\<forall>x \<in> set (ex @ [e]). ex_id x < Suc n" using ok e by (auto simp: active_ok_def)
  moreover have "\<forall>(i, b) \<in> set (AList.update (t_id task) a act). \<forall>x \<in> set (ex @ [e]).
      ex_id x = at_token b \<longrightarrow> t_id (ex_task x) = i"
    using sub ok a e by (fastforce simp: active_ok_def)
  ultimately show ?thesis by (simp add: active_ok_def)
qed

lemma active_ok_map:
  assumes ok: "active_ok act ex n"
    and f: "\<And>e. e \<in> set ex \<Longrightarrow> ex_id (f e) = ex_id e \<and> t_id (ex_task (f e)) = t_id (ex_task e)"
  shows "active_ok act (map f ex) n"
proof -
  have ids: "map ex_id (map f ex) = map ex_id ex" using f by simp
  show ?thesis using ok f unfolding active_ok_def ids by auto
qed

lemma same_execution: "distinct (map ex_id ex) \<Longrightarrow> e \<in> set ex \<Longrightarrow> x \<in> set ex \<Longrightarrow> ex_id x = ex_id e \<Longrightarrow> x = e"
  by (auto simp: distinct_map inj_on_def)

lemma active_ok_progress:
  assumes ok: "active_ok act ex n" and a: "map_of act i = Some a" and b: "at_token b = at_token a" "at_record b = at_record a"
  shows "active_ok (AList.update i b act) ex n"
proof -
  have mem: "(i, a) \<in> set act" using a by (rule map_of_SomeD)
  have ids: "map fst (AList.update i b act) = map fst act"
    using mem by (force simp: update_keys)
  have toks: "map (at_token \<circ> snd) (AList.update i b act) = map (at_token \<circ> snd) act"
    using a b(1) by (induction act) (auto split: if_splits)
  have old: "\<exists>y. (j, y) \<in> set act \<and> at_token x = at_token y \<and> at_record x = at_record y"
    if "(j, x) \<in> set (AList.update i b act)" for j x
    using that set_update_subset [of i b act] mem b by auto
  have "t_id (at_record x) = j \<and> at_token x < n" if "(j, x) \<in> set (AList.update i b act)" for j x
    using old [OF that] ok by (auto simp: active_ok_def)
  moreover have "t_id (ex_task e) = j"
    if "(j, x) \<in> set (AList.update i b act)" "e \<in> set ex" "ex_id e = at_token x" for j x e
    using old [OF that(1)] that(2,3) ok by (auto simp: active_ok_def)
  ultimately show ?thesis using ok unfolding active_ok_def ids toks by auto
qed

interpretation active: scheduler_contract sha256_hex True "\<lambda>st act ex n c. active_ok act ex n" for sha256_hex
proof (unfold_locales, goal_cases)
  case (2 st act ex n c a task phase) then show ?case by (auto intro: active_ok_spawn)
next
  case (3 st act ex n c i a b p) then show ?case using active_ok_progress by blast
next
  case (4 st act ex n c p) then show ?case using active_ok_filter [of act ex n p "\<lambda>_. True"] by simp
next
  case (5 st act ex n c q) then show ?case using active_ok_filter [of act ex n "\<lambda>_. True" q] by simp
next
  case (6 st act ex n c tok) then show ?case by (rule active_ok_map) simp
next
  case (7 st act ex n c e task)
  then have "distinct (map ex_id ex)" by (simp add: active_ok_def)
  with 7 show ?case by (intro active_ok_map) (auto dest: same_execution)
next
  case (9 st act ex n c now tick bd t) then show ?case by (elim built_assembled) (simp add: assemble_core active_ok_def)
qed simp_all

definition executions_ok :: "scheduler \<Rightarrow> bool" where
  "executions_ok s \<longleftrightarrow> active_ok (s_active s) (s_executions s) (s_next_token s)"

interpretation active_sys: invariant_system sched_init "sched_step sha256_hex True" executions_ok for sha256_hex
proof
  show "sched_init s \<Longrightarrow> executions_ok s" for s
    by (auto simp: sched_init_def executions_ok_def active_ok_def assemble_core elim!: built_assembled)
  show "executions_ok s \<Longrightarrow> sched_step sha256_hex True s t \<Longrightarrow> executions_ok t" for s t
    using active.h_step [of sha256_hex s t] by (simp add: holds_def executions_ok_def)
qed

section \<open>When dispatch may skip the gate\<close>

text \<open>Nothing is configured for which the gate could refuse a task.\<close>

definition unrestricted :: "control \<Rightarrow> bool" where
  "unrestricted c \<longleftrightarrow> c_group_limits c = group_limits_new \<and> c_paused_groups c = [] \<and> c_module_caps c = []
     \<and> \<not> c_rate_limits c \<and> \<not> c_weights c \<and> \<not> c_pressure c \<and> \<not> c_reader c"

definition fast_ok :: "control \<Rightarrow> bool" where
  "fast_ok c \<longleftrightarrow> (c_fast c \<longrightarrow> unrestricted c)
     \<and> (\<not> c_has_pressure_sources c \<and> \<not> c_has_resource_monitoring c \<longrightarrow> \<not> c_pressure c \<and> \<not> c_reader c)"

lemma update_nonempty [simp]: "AList.update k v al \<noteq> []"
  by (cases al) auto

lemma set_rate_limit_nonempty: "set_rate_limit tick scope l m \<noteq> []"
  by (simp add: set_rate_limit_def split: option.split)

lemmas fast_defs = fast_ok_def unrestricted_def control_of_def

lemma fast_ok_control:
  assumes "fast_ok (control_of s)" "control_op False s t"
  shows "fast_ok (control_of t)"
  using assms(2)
proof (rule control_opE)
qed (use assms(1) in \<open>auto simp: fast_defs control_defs Let_def group_limits_new_def has_overrides_def set_rate_limit_nonempty
      is_configured_def set_weight_def set_min_slots_def remove_weight_def remove_limit_def remove_rate_limit_def reset_all_def
      split: if_splits\<close>)

lemma assemble_fast_ok:
  assumes "builder_pressure bd = Some pressure"
  shows "fast_ok (control_of (assemble tick bd st reg pressure))"
  using assms
  by (auto simp: fast_defs assemble_def Let_def apply_limits_def with_gate_def set_resource_reader_def builder_allows_fast_def
      builder_pressure_def is_configured_def weights_new_def set_default_weight_def split: option.splits bool.splits if_splits)

interpretation fast: scheduler_contract sha256_hex False "\<lambda>st act ex n c. fast_ok c" for sha256_hex
proof (unfold_locales, goal_cases)
  case (8 st act ex n s t) then show ?case by (rule fast_ok_control)
next
  case (9 st act ex n c now tick bd t) then show ?case by (elim built_assembled) (simp add: assemble_fast_ok)
qed simp_all

definition fast_sound :: "scheduler \<Rightarrow> bool" where
  "fast_sound s \<longleftrightarrow> fast_ok (control_of s)"

interpretation fast_sys: invariant_system sched_init "sched_step sha256_hex False" fast_sound for sha256_hex
proof
  show "sched_init s \<Longrightarrow> fast_sound s" for s
    by (auto simp: sched_init_def fast_sound_def assemble_fast_ok elim!: built_assembled)
  show "fast_sound s \<Longrightarrow> sched_step sha256_hex False s t \<Longrightarrow> fast_sound t" for s t
    using fast.h_step [of sha256_hex s t] by (simp add: holds_def fast_sound_def)
qed

definition policy_ok :: "throttle_policy \<Rightarrow> bool" where
  "policy_ok p \<longleftrightarrow> (\<forall>(_, limit) \<in> set (thresholds p). 0 \<le> limit)"

lemma unrestricted_admits:
  assumes "unrestricted (control_of s)" "policy_ok (dg_policy (s_gate s))"
  shows "consult_gate (s_paused_groups s) skip tick task s = (s, Admit)"
proof -
  let ?ctx = "gate_context_of (s_paused_groups s) skip s"
  have "gate_open (s_gate s) task ?ctx"
    using assms by (auto simp: gate_open_def should_throttle_def exceeds_any_iff policy_ok_def aggregate_pressure_def fast_defs
        gate_context_of_def has_io_headroom_def has_net_io_headroom_def group_paused_at_gate_def group_saturated_def
        module_saturated_def limit_for_def group_limits_new_def split: option.splits)
  moreover have "acquire_tokens tick task ?ctx = (?ctx, Admit)"
    using assms(1) by (simp add: acquire_tokens_def acquire_group_def acquire_scope_def fast_defs gate_context_of_def Let_def
        split: option.split)
  ultimately show ?thesis using assms(1)
    by (simp add: consult_gate_def admit_eq gate_context_of_def fast_defs)
qed

section \<open>Properties of every reachable scheduler\<close>


text \<open>A scheduler with one module on a fresh in-memory store.\<close>

definition example_builder :: scheduler_builder where
  "example_builder =
     \<lparr>sbd_persisted = None, sbd_store_config = \<lparr>cfg_retention_policy = None, cfg_prune_interval = 100\<rparr>,
      sbd_store = Some open_memory,
      sbd_modules = [\<lparr>mod_name = ''m'', mod_executors = [\<lparr>mx_task_type = ''t'', mx_options = \<lparr>eo_ttl = None, eo_retry_policy = None\<rparr>\<rparr>],
        mod_default_priority = None, mod_default_retry_policy = None, mod_default_group = None, mod_default_ttl = None,
        mod_default_tags = [], mod_max_concurrency = None\<rparr>],
      sbd_config = \<lparr>cfg_max_concurrency = 1, cfg_max_retries = 3, cfg_preempt_priority = REALTIME, cfg_poll_interval = 1,
        cfg_throughput_sample_size = 20, cfg_shutdown_mode = Hard, cfg_progress_interval = None, cfg_cancel_hook_timeout = 1,
        cfg_default_ttl = None, cfg_expiry_sweep_interval = None, cfg_aging_config = None\<rparr>, sbd_pressure_sources = [], sbd_policy = None,
      sbd_enable_resource_monitoring = False, sbd_bandwidth_limit_bps = None, sbd_default_group_concurrency = 0,
      sbd_group_concurrency_overrides = [], sbd_type_rate_limits = [], sbd_group_rate_limits = [],
      sbd_group_weights = [], sbd_default_group_weight = 1, sbd_group_min_slots = []\<rparr>"

definition example_scheduler :: scheduler where
  "example_scheduler = assemble 0 example_builder open_memory
     \<lparr>reg_types = [''m::t''], reg_type_ttls = [], reg_type_retry_policies = []\<rparr> []"

lemma example_built: "build_scheduler 0 0 example_builder = Some (Inr example_scheduler)"
  by (simp add: build_scheduler_def example_builder_def example_scheduler_def builder_store_def builder_pressure_def
      register_modules_def module_prefix_def register_erased_def registry_new_def is_registered_def andThen_def)

lemma example_init: "sched_init example_scheduler"
proof -
  have "builder_store 0 example_builder = Some open_memory" by (simp add: builder_store_def example_builder_def)
  then show ?thesis unfolding sched_init_def using example_built store_init_def by blast
qed

lemmas example_start = reachable_init [of sched_init, OF example_init]

lemma example_fast: "s_fast_dispatch example_scheduler" "policy_ok (dg_policy (s_gate example_scheduler))"
  by (simp_all add: example_scheduler_def example_builder_def assemble_def Let_def apply_limits_def with_gate_def
      builder_allows_fast_def entry_of_def list_paused_groups_def open_memory_def empty_db_def order_by_def
      paused_count_def policy_ok_def default_three_tier_def sql_count_def)

lemma example_reachable: "reachable sched_init (sched_step sha256_hex limits) (fst (sched_submit sha256_hex now sub example_scheduler))"
  by (rule reachable_step [OF example_start]) (rule sc_submit)


text \<open>C12: in every reachable scheduler the active map holds one entry per task, under the id
  of its own record, no two entries share a cancellation token, and an execution with the
  token of an entry runs the task of that entry: cancelling an entry never reaches the
  execution of another task.\<close>

theorem executions_well_formed:
  assumes "reachable sched_init (sched_step sha256_hex True) s"
  shows "distinct (map fst (s_active s)) \<and> distinct (map (at_token \<circ> snd) (s_active s)) \<and> distinct (map ex_id (s_executions s))
    \<and> (\<forall>(i, a) \<in> set (s_active s). t_id (at_record a) = i)
    \<and> (\<forall>(i, a) \<in> set (s_active s). \<forall>e \<in> set (s_executions s). ex_id e = at_token a \<longrightarrow> t_id (ex_task e) = i)"
  using active_sys.inv_reachable [OF assms] by (auto simp: executions_ok_def active_ok_def)

theorem executions_well_formed_witness:
  "reachable sched_init (sched_step plain_hex True) (fst (sched_submit plain_hex 5 (submission_new ''m::t'') example_scheduler))
   \<and> distinct (map fst (s_active (fst (sched_submit plain_hex 5 (submission_new ''m::t'') example_scheduler))))"
  using executions_well_formed [OF example_reachable] example_reachable by blast

text \<open>C7: as long as nobody adds a group limit, a module cap or a resource reader at run
  time, a scheduler that skips the gate is one whose gate would admit every task and
  change nothing, whatever else was configured, paused and resumed before.\<close>

theorem fast_dispatch_sound:
  assumes "reachable sched_init (sched_step sha256_hex False) s" and "s_fast_dispatch s"
    and "policy_ok (dg_policy (s_gate s))"
  shows "consult_gate (s_paused_groups s) skip tick task s = (s, Admit)"
proof -
  have "fast_sound s" by (rule fast_sys.inv_reachable [OF assms(1)])
  with assms(2) have "unrestricted (control_of s)" by (simp add: fast_sound_def fast_ok_def control_of_def)
  then show ?thesis using assms(3) by (rule unrestricted_admits)
qed

theorem fast_dispatch_sound_witness:
  "reachable sched_init (sched_step plain_hex False) example_scheduler \<and> s_fast_dispatch example_scheduler
   \<and> (\<forall>task. consult_gate (s_paused_groups example_scheduler) False 0 task example_scheduler = (example_scheduler, Admit))"
  using fast_dispatch_sound [OF example_start example_fast] example_start example_fast
  by blast

end
