(* ===== verification/Dispatch_Properties.thy ===== *)
theory Dispatch_Properties
  imports Scheduler_System Lifecycle_Outcomes
begin

text \<open>
  Properties of dispatch: the concurrency limit holds on every path, the one-at-a-time
  loop ends, the batch path stops only when the capacity or the queue is exhausted, and
  the fast path does what the path through the gate does.
\<close>

section \<open>The concurrency limit\<close>

lemma length_update_le: "length (AList.update k v al) \<le> Suc (length al)"
  by (induction al) auto

text \<open>An operation adds at most \<open>n\<close> entries to the active map and does not change the limit.\<close>

definition grows :: "nat \<Rightarrow> scheduler \<Rightarrow> scheduler \<Rightarrow> bool" where
  "grows n s t \<longleftrightarrow> active_count t \<le> active_count s + n \<and> s_max_concurrency t = s_max_concurrency s"

lemma grows_refl [simp]: "grows n s s"
  by (simp add: grows_def)

lemma grows_trans: "grows m s t \<Longrightarrow> grows n t u \<Longrightarrow> grows (m + n) s u"
  by (auto simp: grows_def)

lemma grows_weaken: "grows m s t \<Longrightarrow> m \<le> n \<Longrightarrow> grows n s t"
  by (auto simp: grows_def)

lemma grows_spawn: "grows 1 s (spawn_task now tick task phase s)"
  using length_update_le [of "t_id task" _ "s_active s"]
  by (simp add: grows_def active_count_def spawn_task_def Let_def emit_def count_def module_add_def active_insert_def
      split: option.split)

lemma grows_spawn_dispatched: "grows 1 s (fst (spawn_dispatched_task rnd now tick task s))"
  using grows_spawn [of s now tick task Execute]
  by (auto simp: spawn_dispatched_task_def grows_def active_count_def split: option.split prod.split sum.split)

lemma grows_on_store: "on_store m s = (t, x) \<Longrightarrow> grows 0 s t"
  by (auto simp: on_store_eq grows_def active_count_def)

lemma grows_consult: "consult_gate paused skip tick task s = (t, a) \<Longrightarrow> grows 0 s t"
  by (auto simp: consult_gate_def grows_def active_count_def split: prod.splits)

lemma grows_expire: "grows 0 s (expire_task_inline counted now i s)"
  by (auto simp: expire_task_inline_def on_store_eq grows_def active_count_def emit_def count_def
      split: sum.split option.split)

lemma grows_attempt:
  "attempt_task rnd counted paused skip now tick peeked s = (t, a) \<Longrightarrow> grows (if a = Started \<or> (\<exists>e. a = Broken e) then 1 else 0) s t"
proof (cases peeked)
  case (Some cand)
  assume at: "attempt_task rnd counted paused skip now tick peeked s = (t, a)"
  let ?c = "populate_tags (s_store s) cand"
  obtain s1 ad where g: "consult_gate paused skip tick ?c s = (s1, ad)" by force
  obtain s2 claimed where c: "on_store (claim_task now (t_id ?c)) s1 = (s2, claimed)" by force
  obtain s3 r where sp: "spawn_dispatched_task rnd now tick (claimed_record now ?c) s2 = (s3, r)" by force
  have g1: "grows 0 s s1" by (rule grows_consult [OF g])
  have g2: "grows 0 s s2" using grows_trans [OF g1 grows_on_store [OF c]] by simp
  have g3: "grows 1 s s3" using grows_trans [OF g2 grows_spawn_dispatched [of s2 rnd now tick "claimed_record now ?c"]] sp by simp
  have rows: "grows 0 s (on_rows f s1)" for f using g1 by (simp add: on_rows_def grows_def active_count_def)
  show ?thesis using at Some g c sp g1 g2 g3 grows_expire [of s counted now "t_id cand"] rows
    by (auto simp: attempt_task_def Let_def defer_task_def split: if_splits admission.splits bool.splits sum.splits)
qed (simp add: attempt_task_def)

lemma grows_attempt_any:
  "attempt_task rnd counted paused skip now tick peeked s = (t, a) \<Longrightarrow> grows 1 s t"
  by (drule grows_attempt, erule grows_weaken) simp

text \<open>The bound that all loops keep.\<close>

definition bounded :: "scheduler \<Rightarrow> scheduler \<Rightarrow> bool" where
  "bounded s t \<longleftrightarrow> active_count t \<le> max (active_count s) (s_max_concurrency s) \<and> s_max_concurrency t = s_max_concurrency s"

lemma bounded_refl [simp]: "bounded s s"
  by (simp add: bounded_def)

lemma bounded_trans: "bounded s t \<Longrightarrow> bounded t u \<Longrightarrow> bounded s u"
  by (auto simp: bounded_def)

lemma grows_bounded: "grows n s t \<Longrightarrow> active_count s + n \<le> s_max_concurrency s \<Longrightarrow> bounded s t"
  by (auto simp: grows_def bounded_def)

lemma grows0_bounded: "grows 0 s t \<Longrightarrow> bounded s t"
  by (auto simp: grows_def bounded_def)

lemma bounded_try_dispatch: "bounded s (fst (try_dispatch rnd now tick s))"
proof (cases "active_count s \<ge> s_max_concurrency s")
  case False
  then have room: "active_count s + 1 \<le> s_max_concurrency s" by simp
  obtain s1 x where pop: "on_store (pop_next now (current_aging now s)) s = (s1, x)" by force
  obtain s2 a where at: "attempt_task rnd True (s_paused_groups s) False now tick
      (peek_next now (current_aging now s) (st_db (s_store s))) s = (s2, a)" by force
  have "grows 0 s s1" by (rule grows_on_store [OF pop])
  then have "grows 1 s (fst (spawn_dispatched_task rnd now tick task s1))" for task
    using grows_trans [OF _ grows_spawn_dispatched [of s1 rnd now tick task]] by fastforce
  moreover have "grows 1 s s1" using \<open>grows 0 s s1\<close> by (rule grows_weaken) simp
  moreover have "grows 1 s s2" by (rule grows_attempt_any [OF at])
  ultimately have "grows 1 s (fst (try_dispatch rnd now tick s))"
    using pop at by (auto simp: try_dispatch_def split: option.split attempt.split)
  then show ?thesis using room by (rule grows_bounded)
qed (simp add: try_dispatch_def)

lemma bounded_dispatch_loop: "dispatch_loop rnd clock s = Some (t, r) \<Longrightarrow> bounded s t"
proof (induction rnd clock s rule: dispatch_loop.induct)
  case (2 rnd now tick clock s)
  then show ?case using bounded_try_dispatch [of s rnd now tick]
    by (auto split: prod.splits sum.splits bool.splits intro: bounded_trans)
qed simp

lemma grows_spawn_all: "grows (length ts) s (fst (spawn_all rnd now tick ts s))"
proof (induction ts arbitrary: s)
  case (Cons task ts)
  obtain s1 r where sp: "spawn_dispatched_task rnd now tick task s = (s1, r)" by force
  then have "grows 1 s s1" using grows_spawn_dispatched [of s rnd now tick task] by simp
  with Cons [of s1] sp show ?case
    using grows_trans [of 1 s s1 "length ts"] grows_weaken [of 1 s s1 "Suc (length ts)"] by (auto split: sum.split)
qed simp

lemma bounded_fair_group:
  "fair_group rnd mx paused aging now tick g n k s = (t, r) \<Longrightarrow> mx = s_max_concurrency s \<Longrightarrow> bounded s t"
proof (induction n arbitrary: k s)
  case (Suc n)
  show ?case
  proof (cases "active_count s + k \<ge> mx")
    case False
    obtain s1 a where at: "attempt_task rnd False paused True now tick (peek_group now aging g s) s = (s1, a)" by force
    have "bounded s s1" using grows_attempt_any [OF at] False Suc.prems(2) by (intro grows_bounded) auto
    then have mx: "mx = s_max_concurrency s1" using Suc.prems(2) by (simp add: bounded_def)
    have more: "bounded s t" if "fair_group rnd mx paused aging now tick g n k' s1 = (t, r)" for k'
      using \<open>bounded s s1\<close> Suc.IH [OF that mx] by (rule bounded_trans)
    show ?thesis using Suc.prems(1) at False \<open>bounded s s1\<close> by (cases a) (auto dest: more)
  qed (use Suc in simp)
qed simp

lemma bounded_fair_pass:
  "fair_pass rnd mx paused aging now tick running alloc k s = (t, r) \<Longrightarrow> mx = s_max_concurrency s \<Longrightarrow> bounded s t"
proof (induction alloc arbitrary: k s)
  case (Cons ga alloc)
  obtain g n where ga: "ga = (g, n)" by force
  obtain s1 r1 where fg: "fair_group rnd mx paused aging now tick g (n - slots running g) k s = (s1, r1)" by force
  have b: "bounded s s1" by (rule bounded_fair_group [OF fg Cons.prems(2)])
  then have mx: "mx = s_max_concurrency s1" using Cons.prems(2) by (simp add: bounded_def)
  show ?case using Cons.prems(1) fg b Cons.IH [OF _ mx] by (cases r1) (auto simp: ga intro: bounded_trans)
qed simp

lemma grows_greedy: "greedy_pass rnd paused peek now tick n s = (t, r) \<Longrightarrow> grows n s t"
proof (induction n arbitrary: s)
  case (Suc n)
  obtain s1 a where at: "attempt_task rnd False paused False now tick (peek s) s = (s1, a)" by force
  have g: "grows 1 s s1" by (rule grows_attempt_any [OF at])
  have more: "grows (Suc n) s t" if "greedy_pass rnd paused peek now tick n s1 = (t, r)"
    using grows_trans [OF g Suc.IH [OF that]] by simp
  have "grows (Suc n) s s1" using g by (rule grows_weaken) simp
  with Suc.prems at more show ?case by (cases a) auto
qed simp

lemma grows_available: "grows n s t \<Longrightarrow> n \<le> s_max_concurrency s - active_count s \<Longrightarrow> bounded s t"
  by (auto simp: grows_def bounded_def)

lemma bounded_urgent: "bounded s (fst (urgent_pass rnd (s_max_concurrency s) aging now tick s))"
proof -
  have "bounded s (fst (dispatch_urgent rnd urgent (s_max_concurrency s - active_count s) aging now tick s))" for urgent
    unfolding dispatch_urgent_def
    by (rule grows_available [OF grows_greedy]) (rule prod.collapse [symmetric], simp)
  then show ?thesis by (simp add: urgent_pass_def split: option.split)
qed

lemma bounded_dispatch_fair: "bounded s (fst (dispatch_fair rnd now tick s))"
proof -
  let ?mx = "s_max_concurrency s" and ?paused = "s_paused_groups s" and ?aging = "current_aging now s"
    and ?running = "running_counts_per_group (st_db (s_store s))"
  obtain s1 r1 where f: "fair_pass rnd ?mx ?paused ?aging now tick ?running
      (compute_allocation ?mx (merge_demand ?running (pending_counts_per_group now (st_db (s_store s))))
        (s_group_weights s) (s_group_limits s) ?paused) 0 s = (s1, r1)" by force
  then have s1: "bounded s s1" by (rule bounded_fair_pass) simp
  obtain s2 r2 where g: "greedy_pass rnd ?paused (\<lambda>s. peek_next now ?aging (st_db (s_store s))) now tick
      (?mx - (active_count s1 + projr r1)) s1 = (s2, r2)" by force
  have "bounded s1 s2" by (rule grows_available [OF grows_greedy [OF g]]) (use s1 in \<open>simp add: bounded_def\<close>)
  with s1 have s2: "bounded s s2" by (rule bounded_trans)
  then have "bounded s (fst (urgent_pass rnd ?mx ?aging now tick s2))"
    using bounded_trans [OF s2 bounded_urgent [of s2 rnd ?aging now tick]] by (simp add: bounded_def)
  then show ?thesis using f s1 g s2 by (cases r1; cases r2) (auto simp: dispatch_fair_def Let_def)
qed

text \<open>The invariant of the store through dispatch, by the scheduler's contract.\<close>

interpretation consistent: scheduler_contract sha256_hex True "\<lambda>st act ex n c. store_inv st" for sha256_hex
proof (unfold_locales, goal_cases)
  case (1 st act ex n c st') then show ?case by (rule store_sys.inv_step)
next
  case (9 st act ex n c now tick bd t)
  then obtain reg pressure where "t = assemble tick bd (open_with_config now (sbd_store_config bd) (st_db st)) reg pressure"
    by (elim built_assembled) (auto simp: builder_store_def)
  with 9(1) show ?case by (auto simp: assemble_core intro: store_sys.inv_step st_reopen)
qed simp_all

lemma holds_store_inv [simp]: "holds (\<lambda>st act ex n c. store_inv st) s = store_inv (s_store s)"
  by (simp add: holds_def)

lemma length_ids_le:
  "distinct (map t_id xs) \<Longrightarrow> length (filter (\<lambda>r. t_id r \<in> set ids) xs) \<le> length ids"
proof -
  assume "distinct (map t_id xs)"
  then have "length (filter (\<lambda>r. t_id r \<in> set ids) xs) = card (t_id ` set (filter (\<lambda>r. t_id r \<in> set ids) xs))"
    by (metis distinct_card distinct_map_filter length_map list.set_map)
  also have "\<dots> \<le> card (set ids)" by (rule card_mono) auto
  also have "\<dots> \<le> length ids" by (rule card_length)
  finally show ?thesis .
qed

lemma pop_next_batch_length:
  assumes "db_ok (st_db st)"
  shows "length (snd (pop_next_batch now n aging st)) \<le> n"
proof -
  have "distinct (map t_id (tasks (st_db st)))" using assms task_table.rowids_distinct by (auto simp: db_ok_def)
  from length_ids_le [OF this, of "map t_id (take n (dispatch_queue now aging (st_db st)))"]
  have "length (filter (\<lambda>r. t_id r \<in> set (map t_id (take n (dispatch_queue now aging (st_db st))))) (tasks (st_db st))) \<le> n"
    by (rule order_trans) simp
  then show ?thesis
    by (auto simp: pop_next_batch_def Let_def sql_select_def split: prod.split option.split)
qed

lemma bounded_batch_loop: "batch_loop rnd aging clock s = Some (t, r) \<Longrightarrow> store_inv (s_store s) \<Longrightarrow> bounded s t"
proof (induction rnd aging clock s rule: batch_loop.induct)
  case (2 rnd aging now tick clock s)
  let ?n = "s_max_concurrency s - active_count s"
  obtain s1 popped where pop: "on_store (pop_next_batch now ?n aging) s = (s1, popped)" by force
  let ?ts = "map (populate_tags (s_store s1)) popped"
  obtain s2 r2 where all: "spawn_all rnd now tick ?ts s1 = (s2, r2)" by force
  have g1: "grows 0 s s1" by (rule grows_on_store [OF pop])
  have "holds (\<lambda>st act ex n c. store_inv st) s1"
    by (rule consistent.h_on_store_eq [OF _ st_pop_next_batch pop]) (simp add: 2(3))
  then have inv2: "store_inv (s_store s2)"
    using consistent.h_spawn_all [of s1 rnd now tick ?ts] all by simp
  have "length ?ts \<le> ?n"
    using pop pop_next_batch_length [of "s_store s" now ?n aging] 2(3) by (auto simp: on_store_eq store_inv_def)
  moreover have "grows (length ?ts) s s2"
    using grows_trans [OF g1 grows_spawn_all [of ?ts s1 rnd now tick]] all by simp
  ultimately have b: "bounded s s2" by (intro grows_available)
  show ?case
    using 2(1) [OF _ pop [symmetric]] 2(2) pop all b inv2 grows0_bounded [OF g1]
    by (auto split: if_splits sum.splits intro: bounded_trans)
qed simp

text \<open>C6: dispatch never runs more tasks than the limit allows: on each of its three paths,
  one at a time, in batches, and by group weights, the number of active tasks afterwards is
  at most the limit, or what it was before if that was already more.\<close>

theorem dispatch_respects_max_concurrency:
  assumes "store_inv (s_store s)" and "dispatch_pending rnd now tick clock s = Some (t, r)"
  shows "active_count t \<le> max (active_count s) (s_max_concurrency s)"
proof -
  have "bounded s t"
    using assms bounded_dispatch_fair [of s rnd now tick] bounded_batch_loop bounded_dispatch_loop
    by (auto simp: dispatch_pending_def split: if_splits)
  then show ?thesis by (simp add: bounded_def)
qed

definition busy_scheduler :: scheduler where
  "busy_scheduler = example_scheduler\<lparr>s_store := open_memory\<lparr>st_db := empty_db
     \<lparr>tasks := [(sample_row 1 ''a'' Pending)\<lparr>t_task_type := ''m::t''\<rparr>, (sample_row 2 ''b'' Pending)\<lparr>t_task_type := ''m::t''\<rparr>]\<rparr>\<rparr>\<rparr>"

lemma busy_inv: "store_inv (s_store busy_scheduler)"
  by (simp add: store_inv_def db_ok_def blocked_ok_def paused_ok_def rowids_ok_def busy_scheduler_def sample_row_def empty_db_def open_memory_def)

lemma busy_run: "map_option (\<lambda>(t, r). (active_count t, r)) (dispatch_pending (\<lambda>_. 0) 10 0 [(10, 0), (10, 0)] busy_scheduler) = Some (1, Inr ())"
  by code_simp

theorem dispatch_respects_max_concurrency_witness:
  "store_inv (s_store busy_scheduler)
   \<and> (\<exists>t r. dispatch_pending (\<lambda>_. 0) 10 0 [(10, 0), (10, 0)] busy_scheduler = Some (t, r) \<and> active_count t = 1
        \<and> active_count t \<le> max (active_count busy_scheduler) (s_max_concurrency busy_scheduler))"
proof -
  obtain t where t: "dispatch_pending (\<lambda>_. 0) 10 0 [(10, 0), (10, 0)] busy_scheduler = Some (t, Inr ())" "active_count t = 1"
    using busy_run by auto
  then show ?thesis using dispatch_respects_max_concurrency [OF busy_inv t(1)] busy_inv by blast
qed

section \<open>The loops end\<close>

lemma count_map_le: "(\<And>x. p (f x) \<Longrightarrow> p x) \<Longrightarrow> sql_count p (map f xs) \<le> sql_count p xs"
  by (induction xs) (auto simp: sql_count_def)

lemma count_map_less:
  assumes "\<And>x. p (f x) \<Longrightarrow> p x" "y \<in> set xs" "p y" "\<not> p (f y)"
  shows "sql_count p (map f xs) < sql_count p xs"
  using assms(2)
proof (induction xs)
  case (Cons x xs)
  have "sql_count p (map f xs) \<le> sql_count p xs" by (rule count_map_le) (rule assms(1))
  moreover have "sql_count p (map f xs) < sql_count p xs" if "y \<noteq> x" using Cons that by simp
  ultimately show ?case using assms(1,3,4) by (cases "y = x") (auto simp: sql_count_def)
qed simp

lemma count_filter_le: "sql_count p (filter q xs) \<le> sql_count p xs"
  by (induction xs) (auto simp: sql_count_def)

lemma count_filter_less: "y \<in> set xs \<Longrightarrow> p y \<Longrightarrow> \<not> q y \<Longrightarrow> sql_count p (filter q xs) < sql_count p xs"
proof (induction xs)
  case (Cons x xs)
  then show ?case using count_filter_le [of p q xs] by (auto simp: sql_count_def)
qed simp

text \<open>Taking tasks out of the pending state.\<close>

lemma pending_run_less:
  assumes "r \<in> set (tasks d)" "t_status r = Pending" "p r"
  shows "pending_count (upd_tasks p (run_row now) d) < pending_count d"
  unfolding pending_count_def upd_tasks_def sql_update_def using assms
  by simp (rule count_map_less [of _ _ r], auto simp: run_row_def split: if_splits)

text \<open>What the loop relies on: every type has an executor, no rate limit is set, and the
  history can take another record.\<close>

definition loop_ok :: "scheduler \<Rightarrow> bool" where
  "loop_ok s \<longleftrightarrow> db_ok (st_db (s_store s)) \<and> history_tags_ok (st_db (s_store s))
     \<and> (\<forall>r \<in> set (tasks (st_db (s_store s))). is_registered (s_registry s) (t_task_type r))
     \<and> s_type_rate_limits s = [] \<and> s_group_rate_limits s = []"

lemma loop_ok_rows:
  assumes "loop_ok s" "s_registry t = s_registry s" "s_type_rate_limits t = []" "s_group_rate_limits t = []"
    "db_ok (st_db (s_store t))" "history_tags_ok (st_db (s_store t))"
    "t_task_type ` set (tasks (st_db (s_store t))) \<subseteq> t_task_type ` set (tasks (st_db (s_store s)))"
  shows "loop_ok t"
  using assms by (fastforce simp: loop_ok_def)

lemma no_rate_limits:
  assumes "consult_gate paused skip tick task s = (t, a)" "s_type_rate_limits s = []" "s_group_rate_limits s = []"
  shows "a \<noteq> RateLimited x \<and> s_type_rate_limits t = [] \<and> s_group_rate_limits t = [] \<and> s_store t = s_store s
    \<and> s_registry t = s_registry s"
  using assms by (auto simp: consult_gate_def gate_context_of_def admit_eq acquire_tokens_def acquire_group_def acquire_scope_def
      count_denial_def Let_def split: if_splits option.splits prod.splits)

lemma claim_pending:
  assumes "r \<in> set (tasks (st_db st))" "t_status r = Pending" "db_ok (st_db st)"
  shows "claim_task now (t_id r) st
    = (st\<lparr>st_db := upd_tasks (\<lambda>x. t_id x = t_id r) (run_row now) (st_db st), st_has_running := True\<rparr>, True)"
proof -
  have "t_status x = Pending" if "x \<in> set (tasks (st_db st))" "t_id x = t_id r" for x
    using tasks_inj [OF assms(3) that(1) assms(1) that(2)] assms(2) by simp
  then have "sql_update (\<lambda>x. t_id x = t_id r \<and> t_status x = Pending) (run_row now) (tasks (st_db st))
      = sql_update (\<lambda>x. t_id x = t_id r) (run_row now) (tasks (st_db st))"
    by (auto simp: sql_update_def)
  with assms show ?thesis by (auto simp: claim_task_def Let_def sql_exists_iff upd_tasks_def)
qed

text \<open>Expiring the candidate removes its row.\<close>

lemma expire_pending:
  assumes ok: "db_ok (st_db st)" "history_tags_ok (st_db st)"
    and r: "r \<in> set (tasks (st_db st))" "t_status r = Pending" "expirable now r"
  obtains st' x where "expire_single now (t_id r) st = (st', Inr (Some x))" "history_tags_ok (st_db st')"
    "tasks (st_db st') = filter (\<lambda>y. t_id y \<noteq> t_id r) (tasks (st_db st))"
proof -
  let ?d = "st_db st" and ?p = "\<lambda>y. t_id y = t_id r \<and> expirable now y \<and> t_status y \<in> {Pending, Paused}"
  have "r \<in> set (sql_select ?p (tasks ?d))" using r by (simp add: set_sql_select)
  then obtain y where y: "first_row (sql_select ?p (tasks ?d)) = Some y"
    by (cases "sql_select ?p (tasks ?d)") auto
  then have "y = r" using first_row_in [OF y] tasks_inj [OF ok(1)] r(1) by (auto simp: set_sql_select)
  obtain d1 where d1: "insert_history now r HExpired io_default None None False ?d = (d1, Inr ())" "history_tags_ok d1"
    using insert_history_succeeds [OF ok(2)] by blast
  have "tasks d1 = tasks ?d" using d1(1) insert_history_frame(1) by (metis fst_conv)
  then have run: "expire_single now (t_id r) st = (st\<lparr>st_db := del_tasks (\<lambda>x. t_id x = t_id r) (delete_task_tags (t_id r) d1)\<rparr>,
      Inr (Some (r\<lparr>t_tags := load_task_tags (t_id r) ?d\<rparr>)))"
    using y d1 \<open>y = r\<close> by (simp add: expire_single_def transact_def expire_child_def andThen_def map_result_def)
  show thesis
    by (rule that [OF run]) (use \<open>tasks d1 = tasks ?d\<close> d1(2) in \<open>simp_all add: history_tags_ok_frame sql_delete_def\<close>)
qed

lemma peek_next_pending:
  assumes "peek_next now aging d = Some r"
  shows "r \<in> set (tasks d)" "t_status r = Pending" "eligible now r"
  using first_row_order_by(1) [OF assms [unfolded peek_next_def]] by (auto simp: set_sql_select eligible_def)

lemma populate_tags_same [simp]:
  "t_id (populate_tags st r) = t_id r" "t_task_type (populate_tags st r) = t_task_type r"
  "t_status (populate_tags st r) = t_status r" "t_group_key (populate_tags st r) = t_group_key r"
  by (simp_all add: populate_tags_def split: list.split)

lemma claimed_record_same [simp]: "t_id (claimed_record now r) = t_id r" "t_task_type (claimed_record now r) = t_task_type r"
  by (simp_all add: claimed_record_def Let_def split: option.split)

lemma spawn_registered:
  assumes "is_registered (s_registry s) (t_task_type task)"
  shows "spawn_dispatched_task rnd now tick task s = (spawn_task now tick task Execute s, Inr True)"
  using assms by (simp add: spawn_dispatched_task_def)

lemma spawn_task_same [simp]:
  "s_store (spawn_task now tick task phase s) = s_store s" "s_registry (spawn_task now tick task phase s) = s_registry s"
  "s_type_rate_limits (spawn_task now tick task phase s) = s_type_rate_limits s"
  "s_group_rate_limits (spawn_task now tick task phase s) = s_group_rate_limits s"
  by (simp_all add: spawn_task_def Let_def emit_def count_def module_add_def active_insert_def split: option.split)

text \<open>An attempt that lets the loop go on has taken a task out of the pending state.\<close>

lemma attempt_progress:
  assumes ok: "loop_ok s" and peeked: "\<And>r. peeked = Some r \<Longrightarrow> r \<in> set (tasks (st_db (s_store s))) \<and> t_status r = Pending"
    and at: "attempt_task rnd counted paused skip now tick peeked s = (t, a)"
  shows "a \<in> {NoCandidate, Denied} \<and> loop_ok t \<and> pending_count (st_db (s_store t)) \<le> pending_count (st_db (s_store s))
    \<or> a \<in> {Expired, Started} \<and> loop_ok t \<and> pending_count (st_db (s_store t)) < pending_count (st_db (s_store s))"
proof (cases peeked)
  case None
  then show ?thesis using at ok by (simp add: attempt_task_def)
next
  case (Some r)
  let ?st = "s_store s"
  have db: "db_ok (st_db ?st)" "history_tags_ok (st_db ?st)" using ok by (simp_all add: loop_ok_def)
  have r: "r \<in> set (tasks (st_db ?st))" "t_status r = Pending" using peeked Some by simp_all
  show ?thesis
  proof (cases "expirable now r")
    case True
    obtain st' x where ex: "expire_single now (t_id r) ?st = (st', Inr (Some x))" "history_tags_ok (st_db st')"
      "tasks (st_db st') = filter (\<lambda>y. t_id y \<noteq> t_id r) (tasks (st_db ?st))"
      by (rule expire_pending [OF db r True])
    have t: "a = Expired" "s_store t = st'" "s_registry t = s_registry s" "s_type_rate_limits t = []" "s_group_rate_limits t = []"
      using at Some True ex ok
      by (auto simp: attempt_task_def expire_task_inline_def on_store_eq emit_def count_def loop_ok_def)
    have "db_ok (st_db st')" using db_ok.P_expire_single [OF db(1), of now "t_id r"] ex(1) by simp
    then have "loop_ok t" using ex t by (intro loop_ok_rows [OF ok]) auto
    moreover have "pending_count (st_db st') < pending_count (st_db ?st)"
      unfolding pending_count_def ex(3) using r by (intro count_filter_less [of r]) auto
    ultimately show ?thesis using t by simp
  next
    case False
    let ?c = "populate_tags ?st r"
    obtain s1 ad where g: "consult_gate paused skip tick ?c s = (s1, ad)" by force
    have s1: "ad \<noteq> RateLimited nxt" "s_store s1 = ?st" "s_registry s1 = s_registry s" "s_type_rate_limits s1 = []"
      "s_group_rate_limits s1 = []" for nxt
      using no_rate_limits [OF g] ok by (simp_all add: loop_ok_def)
    show ?thesis
    proof (cases ad)
      case Deny
      have "loop_ok s1" using ok s1 by (simp add: loop_ok_def)
      then show ?thesis using at Some False g Deny s1 by (simp add: attempt_task_def)
    next
      case Admit
      let ?d = "upd_tasks (\<lambda>x. t_id x = t_id r) (run_row now) (st_db ?st)"
      let ?s2 = "s1\<lparr>s_store := ?st\<lparr>st_db := ?d, st_has_running := True\<rparr>\<rparr>"
      have claim: "on_store (claim_task now (t_id r)) s1 = (?s2, True)"
        using claim_pending [OF r db(1), of now] s1 by (simp add: on_store_eq)
      have "is_registered (s_registry ?s2) (t_task_type (claimed_record now ?c))" using ok r s1 by (simp add: loop_ok_def)
      from spawn_registered [OF this]
      have t: "a = Started" "t = spawn_task now tick (claimed_record now ?c) Execute ?s2"
        using at Some False g Admit claim by (auto simp: attempt_task_def)
      have "t_task_type ` set (tasks ?d) \<subseteq> t_task_type ` set (tasks (st_db ?st))"
        by (auto simp: upd_tasks_def sql_update_def run_row_def)
      moreover have "db_ok ?d" using db_ok.P_upd [OF db(1), of "\<lambda>x. t_id x = t_id r" "run_row now"] by simp
      ultimately have "loop_ok t"
        unfolding t(2) using s1 db by (intro loop_ok_rows [OF ok]) (simp_all add: history_tags_ok_frame)
      moreover have "pending_count ?d < pending_count (st_db ?st)" by (rule pending_run_less [OF r]) simp
      ultimately show ?thesis using t by simp
    qed (use s1 in simp)
  qed
qed

lemma spawn_popped:
  assumes ok: "loop_ok s" and r: "r \<in> set (tasks (st_db (s_store s)))" "t_status r = Pending" "p r"
    and st: "st_db st = upd_tasks p (run_row now) (st_db (s_store s))"
  shows "loop_ok (s\<lparr>s_store := st\<rparr>) \<and> pending_count (st_db st) < pending_count (st_db (s_store s))"
proof -
  have "t_task_type ` set (tasks (st_db st)) \<subseteq> t_task_type ` set (tasks (st_db (s_store s)))"
    unfolding st by (auto simp: upd_tasks_def sql_update_def run_row_def)
  moreover have "db_ok (st_db st)"
    unfolding st using ok db_ok.P_upd [of "st_db (s_store s)" p "run_row now"] by (simp add: loop_ok_def)
  ultimately have "loop_ok (s\<lparr>s_store := st\<rparr>)"
    using ok by (intro loop_ok_rows [OF ok]) (simp_all add: loop_ok_def st history_tags_ok_frame)
  then show ?thesis using pending_run_less [OF r(1,2), of p now] r(3) st by simp
qed

lemma loop_ok_spawn: "loop_ok (spawn_task now tick task phase s) = loop_ok s"
  by (simp add: loop_ok_def)

lemma try_dispatch_progress:
  assumes ok: "loop_ok s" and run: "try_dispatch rnd now tick s = (t, r)"
  shows "r = Inr False \<or> r = Inr True \<and> loop_ok t \<and> pending_count (st_db (s_store t)) < pending_count (st_db (s_store s))"
proof (cases "active_count s \<ge> s_max_concurrency s")
  case False
  note room = this
  let ?aging = "current_aging now s" and ?st = "s_store s"
  show ?thesis
  proof (cases "s_fast_dispatch s")
    case True
    show ?thesis
    proof (cases "first_row (dispatch_queue now ?aging (st_db ?st))")
      case None
      then show ?thesis using run True room by (auto simp: try_dispatch_def pop_next_def on_store_eq)
    next
      case (Some x)
      let ?st' = "?st\<lparr>st_db := upd_tasks (\<lambda>y. t_id y = t_id x) (run_row now) (st_db ?st), st_has_running := True\<rparr>"
      have x: "x \<in> set (tasks (st_db ?st))" "t_status x = Pending"
        using first_row_in [OF Some] by (auto simp: dispatch_queue_set eligible_def)
      have "is_registered (s_registry s) (t_task_type x)" using ok x(1) by (simp add: loop_ok_def)
      then have "r = Inr True" "t = spawn_task now tick (populate_tags ?st' (run_row now x)) Execute (s\<lparr>s_store := ?st'\<rparr>)"
        using run True room Some by (auto simp: try_dispatch_def pop_next_def on_store_eq spawn_dispatched_task_def run_row_def)
      then show ?thesis
        using spawn_popped [OF ok x, of "\<lambda>y. t_id y = t_id x" ?st' now] by (simp add: loop_ok_spawn)
    qed
  next
    case False
    obtain s1 a where at: "attempt_task rnd True (s_paused_groups s) False now tick (peek_next now ?aging (st_db ?st)) s = (s1, a)"
      by force
    from attempt_progress [OF ok _ at] peek_next_pending(1,2)
    show ?thesis using run room False at by (auto simp: try_dispatch_def)
  qed
qed (use run in \<open>simp add: try_dispatch_def\<close>)


lemma busy_loop: "loop_ok (busy_scheduler\<lparr>s_fast_dispatch := False\<rparr>)"
  "pending_count (st_db (s_store (busy_scheduler\<lparr>s_fast_dispatch := False\<rparr>))) < length [(10::int, 0::int), (10, 0), (10, 0)]"
  by (simp_all add: loop_ok_def db_ok_def rowids_ok_def history_tags_ok_def busy_scheduler_def sample_row_def empty_db_def
      open_memory_def is_registered_def example_scheduler_def example_builder_def assemble_def Let_def apply_limits_def with_gate_def
      pending_count_def sql_count_def)


section \<open>The batch path is work-conserving\<close>

lemma spawn_all_registered:
  assumes "\<forall>task \<in> set ts. is_registered (s_registry s) (t_task_type task)"
  shows "\<exists>t. spawn_all rnd now tick ts s = (t, Inr ()) \<and> s_store t = s_store s \<and> loop_ok t = loop_ok s"
  using assms
proof (induction ts arbitrary: s)
  case (Cons task ts)
  let ?s = "spawn_task now tick task Execute s"
  from Cons.IH [of ?s] Cons.prems show ?case by (simp add: spawn_registered loop_ok_spawn)
qed simp

lemma pop_batch_takes:
  assumes "dispatch_queue now aging (st_db st) = x # q" "n > 0"
  shows "\<exists>p. st_db (fst (pop_next_batch now n aging st)) = upd_tasks p (run_row now) (st_db st) \<and> p x
    \<and> snd (pop_next_batch now n aging st) \<noteq> []
    \<and> (\<forall>r \<in> set (snd (pop_next_batch now n aging st)). \<exists>y \<in> set (tasks (st_db st)). r = run_row now y)"
proof (cases "n = 1")
  case True
  have "x \<in> set (tasks (st_db st))" using dispatch_queue_set [of now aging "st_db st"] assms(1) by auto
  with True assms show ?thesis
    by (auto simp: pop_next_batch_def pop_next_def intro!: exI [of _ "\<lambda>y. t_id y = t_id x"])
next
  case False
  let ?p = "\<lambda>r. t_id r \<in> set (map t_id (take n (dispatch_queue now aging (st_db st))))"
  have "x \<in> set (tasks (st_db st))" using dispatch_queue_set [of now aging "st_db st"] assms(1) by auto
  moreover have px: "?p x" using assms by (cases n) auto
  ultimately have "x \<in> set (sql_select ?p (tasks (st_db st)))" by (simp add: set_sql_select)
  then have "sql_select ?p (tasks (st_db st)) \<noteq> []" by auto
  moreover have "\<forall>y \<in> set (sql_select ?p (tasks (st_db st))). y \<in> set (tasks (st_db st))" by (simp add: set_sql_select)
  ultimately show ?thesis using False assms(2) px
    by (intro exI [of _ ?p]) (auto simp: pop_next_batch_def Let_def)
qed

lemma batch_round:
  assumes ok: "loop_ok s" and n: "n > 0" and pop: "on_store (pop_next_batch now n aging) s = (s1, popped)"
  shows "popped = [] \<and> dispatch_queue now aging (st_db (s_store s)) = [] \<and> s_store s1 = s_store s
    \<or> popped \<noteq> [] \<and> loop_ok s1 \<and> pending_count (st_db (s_store s1)) < pending_count (st_db (s_store s))
      \<and> (\<forall>task \<in> set popped. is_registered (s_registry s1) (t_task_type task))"
proof (cases "dispatch_queue now aging (st_db (s_store s))")
  case Nil
  have "pop_next_batch now n aging (s_store s) = (s_store s, [])"
    using Nil n by (auto simp: pop_next_batch_def pop_next_def Let_def sql_select_def upd_tasks_def sql_update_def)
  then show ?thesis using pop Nil by (auto simp: on_store_eq)
next
  case (Cons x q)
  let ?b = "pop_next_batch now n aging (s_store s)"
  obtain p where p: "st_db (fst ?b) = upd_tasks p (run_row now) (st_db (s_store s))" "p x" "snd ?b \<noteq> []"
    "\<forall>r \<in> set (snd ?b). \<exists>y \<in> set (tasks (st_db (s_store s))). r = run_row now y"
    using pop_batch_takes [OF Cons n] by blast
  have x: "x \<in> set (tasks (st_db (s_store s)))" "t_status x = Pending"
    using dispatch_queue_set [of now aging "st_db (s_store s)"] Cons by (auto simp: eligible_def)
  have s1: "s1 = s\<lparr>s_store := fst ?b\<rparr>" "popped = snd ?b" using pop by (simp_all add: on_store_eq)
  have "t_task_type (run_row now y) = t_task_type y" for y by (simp add: run_row_def)
  then have "\<forall>task \<in> set popped. is_registered (s_registry s1) (t_task_type task)"
    using p(4) ok s1 by (fastforce simp: loop_ok_def)
  with spawn_popped [OF ok x p(2) p(1)] p(3) s1 show ?thesis by simp
qed


lemma busy_ok: "loop_ok busy_scheduler" "pending_count (st_db (s_store busy_scheduler)) < length [(10::int, 0::int), (10, 0), (10, 0)]"
  using busy_loop by (simp_all add: loop_ok_def)


section \<open>The fast path is the slow path without the gate\<close>

lemma claimed_is_run_row: "claimed_record now (populate_tags st r) = populate_tags st (run_row now r)"
  by (rule task_record.equality)
     (simp_all add: claimed_record_def populate_tags_def run_row_def Let_def split: option.split list.split)

lemma populate_tags_rows:
  "st_has_tags st' = st_has_tags st \<Longrightarrow> task_tags (st_db st') = task_tags (st_db st) \<Longrightarrow> populate_tags st' r = populate_tags st r"
  by (simp add: populate_tags_def load_task_tags_def)

lemma spawn_commutes_fast:
  "spawn_dispatched_task rnd now tick task (s\<lparr>s_fast_dispatch := b\<rparr>)
   = map_prod (\<lambda>t. t\<lparr>s_fast_dispatch := b\<rparr>) id (spawn_dispatched_task rnd now tick task s)"
  by (simp add: spawn_dispatched_task_def spawn_task_def Let_def emit_def count_def module_add_def active_insert_def
      split: option.split prod.split sum.split)

lemma spawn_result:
  "spawn_dispatched_task rnd now tick task s
   = (case spawn_dispatched_task rnd now tick task s of (t, Inl e) \<Rightarrow> (t, Inl e) | (t, Inr _) \<Rightarrow> (t, Inr True))"
  by (simp add: spawn_dispatched_task_def split: option.split prod.split sum.split)

text \<open>C8: the fast path is an optimisation only. When nothing is configured that the gate
  could object to and no eligible task has expired, one dispatch attempt on the fast path,
  a single pop, has the same result and leaves the same store, active map, executions,
  events and counters as the attempt that peeks, consults the gate and claims.\<close>

theorem fast_path_equals_gated_path:
  assumes "store_inv (s_store s)" and "s_fast_dispatch s" and "unrestricted (control_of s)"
    and "policy_ok (dg_policy (s_gate s))"
    and "\<forall>r \<in> set (tasks (st_db (s_store s))). eligible now r \<longrightarrow> unexpired now r"
  shows "try_dispatch rnd now tick s
    = map_prod (\<lambda>t. t\<lparr>s_fast_dispatch := True\<rparr>) id (try_dispatch rnd now tick (s\<lparr>s_fast_dispatch := False\<rparr>))"
proof (cases "active_count s \<ge> s_max_concurrency s")
  case True
  then show ?thesis using assms(2) by (simp add: try_dispatch_def active_count_def)
next
  case False
  let ?st = "s_store s" and ?aging = "current_aging now s" and ?s = "s\<lparr>s_fast_dispatch := False\<rparr>"
  have db: "db_ok (st_db ?st)" using assms(1) by (simp add: store_inv_def)
  have "filter (\<lambda>r. eligible now r \<and> unexpired now r) (tasks (st_db ?st)) = filter (eligible now) (tasks (st_db ?st))"
    using assms(5) by (auto intro: filter_cong)
  then have same: "first_row (dispatch_queue now ?aging (st_db ?st)) = peek_next now ?aging (st_db ?st)"
    by (simp add: dispatch_queue_def peek_next_def sql_select_def)
  have aging: "current_aging now ?s = ?aging" by (simp add: current_aging_def)
  show ?thesis
  proof (cases "peek_next now ?aging (st_db ?st)")
    case None
    with same have "pop_next now ?aging ?st = (?st, None)" by (simp add: pop_next_def)
    with None False assms(2) show ?thesis
      by (simp add: try_dispatch_def on_store_eq attempt_task_def aging active_count_def)
  next
    case (Some r)
    note r = peek_next_pending [OF Some]
    let ?st' = "?st\<lparr>st_db := upd_tasks (\<lambda>x. t_id x = t_id r) (run_row now) (st_db ?st), st_has_running := True\<rparr>"
    have "\<not> expirable now r" using assms(5) r by (auto simp: expirable_def unexpired_def split: option.splits)
    moreover have "unrestricted (control_of ?s)" using assms(3) by (simp add: unrestricted_def control_of_def)
    then have "consult_gate (s_paused_groups ?s) False tick task ?s = (?s, Admit)" for task
      by (rule unrestricted_admits) (simp add: assms(4))
    moreover have "on_store (claim_task now (t_id r)) ?s = (?s\<lparr>s_store := ?st'\<rparr>, True)"
      using claim_pending [OF r(1,2) db] by (simp add: on_store_eq)
    ultimately have slow: "try_dispatch rnd now tick ?s
        = (case spawn_dispatched_task rnd now tick (populate_tags ?st (run_row now r)) (?s\<lparr>s_store := ?st'\<rparr>) of
             (t, Inl e) \<Rightarrow> (t, Inl e) | (t, Inr _) \<Rightarrow> (t, Inr True))"
      using False Some by (simp add: try_dispatch_def attempt_task_def aging active_count_def claimed_is_run_row split: prod.split sum.split)
    have "populate_tags ?st' (run_row now r) = populate_tags ?st (run_row now r)" by (rule populate_tags_rows) simp_all
    then have fast: "try_dispatch rnd now tick s
        = spawn_dispatched_task rnd now tick (populate_tags ?st (run_row now r)) (s\<lparr>s_store := ?st'\<rparr>)"
      using False Some same assms(2) by (simp add: try_dispatch_def pop_next_def on_store_eq)
    let ?X = "?s\<lparr>s_store := ?st'\<rparr>" and ?task = "populate_tags ?st (run_row now r)"
    have "s\<lparr>s_store := ?st'\<rparr> = ?X\<lparr>s_fast_dispatch := True\<rparr>" using assms(2) by simp
    then have "try_dispatch rnd now tick s = map_prod (\<lambda>t. t\<lparr>s_fast_dispatch := True\<rparr>) id (spawn_dispatched_task rnd now tick ?task ?X)"
      unfolding fast by (simp only: spawn_commutes_fast)
    also have "spawn_dispatched_task rnd now tick ?task ?X = try_dispatch rnd now tick ?s"
      unfolding slow by (rule spawn_result)
    finally show ?thesis .
  qed
qed

lemma busy_fast:
  "s_fast_dispatch busy_scheduler" "unrestricted (control_of busy_scheduler)" "policy_ok (dg_policy (s_gate busy_scheduler))"
  "\<forall>r \<in> set (tasks (st_db (s_store busy_scheduler))). eligible 10 r \<longrightarrow> unexpired 10 r"
  by (simp_all add: busy_scheduler_def example_fast unrestricted_def control_of_def example_scheduler_def example_builder_def
      assemble_def Let_def apply_limits_def with_gate_def entry_of_def builder_allows_fast_def list_paused_groups_def open_memory_def
      empty_db_def order_by_def is_configured_def weights_new_def unexpired_def sample_row_def policy_ok_def default_three_tier_def)

theorem fast_path_equals_gated_path_witness:
  "s_fast_dispatch busy_scheduler \<and> unrestricted (control_of busy_scheduler)
   \<and> try_dispatch (\<lambda>_. 0) 10 0 busy_scheduler = map_prod (\<lambda>t. t\<lparr>s_fast_dispatch := True\<rparr>) id
       (try_dispatch (\<lambda>_. 0) 10 0 (busy_scheduler\<lparr>s_fast_dispatch := False\<rparr>))"
  using fast_path_equals_gated_path [OF busy_inv busy_fast] busy_fast by blast

text \<open>The condition is needed: adding a group limit at run time does not leave the fast path,
  and on the fast path the limit has no effect.\<close>

lemma group_limit_ignored_on_fast_path:
  assumes "s_fast_dispatch s"
  shows "try_dispatch rnd now tick (set_group_limit g n s)
    = map_prod (set_group_limit g n) id (try_dispatch rnd now tick s)"
proof -
  have spawn: "spawn_dispatched_task rnd now tick task (set_group_limit g n s)
      = map_prod (set_group_limit g n) id (spawn_dispatched_task rnd now tick task s)" for task s
    by (simp add: set_group_limit_def spawn_dispatched_task_def spawn_task_def Let_def emit_def count_def module_add_def
        active_insert_def split: option.split prod.split sum.split)
  have pop: "on_store m (set_group_limit g n s) = map_prod (set_group_limit g n) id (on_store m s)"
    for m :: "task_store \<Rightarrow> task_store \<times> task_record option"
    by (simp add: on_store_eq set_group_limit_def)
  have same: "active_count (set_group_limit g n s) = active_count s" "s_max_concurrency (set_group_limit g n s) = s_max_concurrency s"
    "s_fast_dispatch (set_group_limit g n s) = s_fast_dispatch s" "current_aging now (set_group_limit g n s) = current_aging now s"
    "s_store (set_group_limit g n t) = s_store t" for t
    by (simp_all add: set_group_limit_def active_count_def current_aging_def)
  obtain s1 x where s1: "on_store (pop_next now (current_aging now s)) s = (s1, x)" by force
  show ?thesis
    using assms by (simp add: try_dispatch_def same pop s1 spawn split: option.split)
qed

end
