(* ===== verification/Group_Pause.thy ===== *)
theory Group_Pause
  imports Scheduler_System
begin

text \<open>
  Pausing and resuming a group of tasks (\<open>src/src/scheduler/control.rs\<close> and
  \<open>src/src/scheduler/dispatch.rs\<close>): what holds of the group afterwards, and a submission that
  falls between the two halves of resuming.
\<close>

section \<open>Pausing a group\<close>

lemma drain_where_active: "drain_where p s = (t, drained) \<Longrightarrow> s_active t = filter (\<lambda>(_, a). \<not> p a) (s_active s)
    \<and> drained = filter (\<lambda>(_, a). p a) (s_active s) \<and> s_store t = s_store s \<and> s_executions t = s_executions s
    \<and> s_paused_groups t = s_paused_groups s \<and> s_fast_dispatch t = s_fast_dispatch s"
  by (auto simp: drain_where_def)

text \<open>Pausing rows by id creates no pending row.\<close>

definition no_pending :: "string \<Rightarrow> db \<Rightarrow> bool" where
  "no_pending g d \<longleftrightarrow> (\<forall>r \<in> set (tasks d). t_group_key r = Some g \<longrightarrow> t_status r \<noteq> Pending)"

lemma no_pending_pause: "no_pending g d \<Longrightarrow> no_pending g (pause now i b d)"
  by (auto simp: no_pending_def pause_def upd_tasks_def sql_update_def suspend_row_def)

lemma cancel_pause_one_fields:
  "s_active (cancel_pause_one now b x s) = s_active s" "s_paused_groups (cancel_pause_one now b x s) = s_paused_groups s"
  "s_fast_dispatch (cancel_pause_one now b x s) = s_fast_dispatch s"
  "s_executions (cancel_pause_one now b x s)
     = map (\<lambda>e. if ex_id e = at_token (snd x) then e\<lparr>ex_cancelled := True\<rparr> else e) (s_executions s)"
  "st_db (s_store (cancel_pause_one now b x s)) = pause now (fst x) b (st_db (s_store s))"
  by (simp_all add: cancel_pause_one_def Let_def on_rows_def cancel_token_def emit_def split: prod.split)

lemma cancel_pause_emit_fields:
  "s_active (cancel_pause_emit now xs b s) = s_active s" "s_paused_groups (cancel_pause_emit now xs b s) = s_paused_groups s"
  "s_fast_dispatch (cancel_pause_emit now xs b s) = s_fast_dispatch s"
  "paused_groups (st_db (s_store (cancel_pause_emit now xs b s))) = paused_groups (st_db (s_store s))"
  unfolding cancel_pause_emit_def
  by (induction xs arbitrary: s) (simp_all add: cancel_pause_one_fields pause_def upd_tasks_def)

lemma no_pending_emit:
  "no_pending g (st_db (s_store s)) \<Longrightarrow> no_pending g (st_db (s_store (cancel_pause_emit now xs b s)))"
  unfolding cancel_pause_emit_def by (induction xs arbitrary: s) (simp_all add: cancel_pause_one_fields no_pending_pause)

text \<open>Tokens stay cancelled, and the drained entries' tokens are cancelled.\<close>

lemma cancelled_emit:
  "(\<And>e. e \<in> set (s_executions s) \<Longrightarrow> ex_id e \<in> T \<Longrightarrow> ex_cancelled e)
   \<Longrightarrow> e \<in> set (s_executions (cancel_pause_emit now xs b s)) \<Longrightarrow> ex_id e \<in> T \<union> (at_token \<circ> snd) ` set xs \<Longrightarrow> ex_cancelled e"
  unfolding cancel_pause_emit_def
proof (induction xs arbitrary: s T)
  case (Cons x xs)
  have "ex_cancelled f" if "f \<in> set (s_executions (cancel_pause_one now b x s))" "ex_id f \<in> insert (at_token (snd x)) T" for f
    using that Cons.prems(1) by (auto simp: cancel_pause_one_fields split: if_splits)
  from Cons.IH [of "cancel_pause_one now b x s" "insert (at_token (snd x)) T", OF this] Cons.prems(2,3) show ?case by simp
qed auto

lemma no_pending_upd: "no_pending g (upd_tasks (\<lambda>r. t_group_key r = Some g \<and> t_status r = Pending) (pause_row now b) d)"
  by (auto simp: no_pending_def upd_tasks_def sql_update_def pause_row_def)

lemma no_pending_tasks_in_group: "no_pending g (fst (pause_tasks_in_group now g d))"
  unfolding pause_tasks_in_group_def Let_def fst_conv by (rule no_pending_upd)


definition grouped_scheduler :: scheduler where
  "grouped_scheduler = example_scheduler\<lparr>s_store := open_memory\<lparr>st_db := empty_db
     \<lparr>tasks := [(sample_row 1 ''a'' Running)\<lparr>t_group_key := Some ''g''\<rparr>, (sample_row 2 ''b'' Pending)\<lparr>t_group_key := Some ''g''\<rparr>]\<rparr>\<rparr>,
     s_active := [(1, \<lparr>at_record = (sample_row 1 ''a'' Running)\<lparr>t_group_key := Some ''g''\<rparr>, at_token = 0,
       at_reported_progress = None, at_reported_at = None, at_started_at = 0\<rparr>)],
     s_executions := [\<lparr>ex_id = 0, ex_task = sample_row 1 ''a'' Running, ex_phase = Execute, ex_cancelled = False\<rparr>]\<rparr>"

lemma grouped_fresh: "''g'' \<notin> fst ` set (paused_groups (st_db (s_store grouped_scheduler)))"
  by (simp add: grouped_scheduler_def empty_db_def)


text \<open>Resuming is not atomic: it clears the tasks' pause bits first and removes the group from
  the paused groups afterwards. A task that is submitted to the group in between is stored as
  paused, by then the only task of the group, and nothing resumes it any more.\<close>

definition late_submission :: task_submission where
  "late_submission = (submission_new ''m::t'')\<lparr>sub_group_key := Some ''g''\<rparr>"

definition paused_store :: task_store where
  "paused_store = open_memory\<lparr>st_db := empty_db\<lparr>paused_groups := [(''g'', 5, None)]\<rparr>\<rparr>"

definition resume_race :: scheduler where
  "resume_race =
     (let s0 = pause_group 5 ''g'' (example_scheduler\<lparr>s_store := open_memory\<rparr>);
          (s1, n) = resume_group_tasks 6 ''g'' s0;
          s2 = fst (sched_submit plain_hex 7 late_submission s1)
      in resume_group_finish ''g'' n s2)"

lemma late_submit: "\<exists>r. submit_direct plain_hex 7 late_submission paused_store
    = (paused_store\<lparr>st_db := (st_db paused_store)\<lparr>tasks := [pause_row 7 GROUP (r\<lparr>t_id := 1\<rparr>)]\<rparr>\<rparr>, Inr (Inserted 1 True))"
proof -
  have f: "sub_payload_error late_submission = None" "sub_tags late_submission = []" "sub_parent_id late_submission = None"
    "sub_dependencies late_submission = []" "sub_group_key late_submission = Some ''g''" "validate_tags [] = Inr ()"
    by code_simp+
  let ?r = "submission_row 7 late_submission (effective_key plain_hex late_submission)"
  have "t_status ?r = Pending" by (simp add: submission_row_def base_row_def)
  then show ?thesis
    by (intro exI [of _ ?r]) (simp add: submit_direct_def in_transaction_def submit_one_def f Let_def on_db_def andThen_def insert_or_ignore_task_def
        paused_store_def open_memory_def empty_db_def sql_exists_def next_rowid_def submit_inserted_def insert_tags_flagged_def insert_tags_def
        insert_dependencies_def group_is_paused_def pause_inserted_def upd_tasks_def sql_update_def)
qed

lemma resume_strands_submission:
  "map t_status (tasks (st_db (s_store resume_race))) = [Paused] \<and> s_paused_groups resume_race = []
   \<and> paused_groups (st_db (s_store resume_race)) = []"
proof -
  define s where "s = pause_group 5 ''g'' (example_scheduler\<lparr>s_store := open_memory\<rparr>)"
  have s: "s_store s = paused_store" "s_paused_groups s = [''g'']" "s_submit_queue s = []" "pvalue (s_preempt_priority s) = 0"
    "resolve_ttl s late_submission = late_submission"
    unfolding s_def by code_simp+
  have tasks: "resume_group_tasks 6 ''g'' s = (s, 0)"
  proof -
    have none: "resume_paused_by_group 6 ''g'' (st_db paused_store) = (st_db paused_store, 0)" by code_simp
    have "on_rows (fst \<circ> resume_paused_by_group 6 ''g'') s = s"
      by (rule scheduler.equality) (simp_all add: on_rows_def s none)
    then show ?thesis by (simp add: resume_group_tasks_def on_rows_get_def s none)
  qed
  obtain r where r: "submit_direct plain_hex 7 late_submission paused_store
      = (paused_store\<lparr>st_db := (st_db paused_store)\<lparr>tasks := [pause_row 7 GROUP (r\<lparr>t_id := 1\<rparr>)]\<rparr>\<rparr>, Inr (Inserted 1 True))"
    using late_submit by blast
  have ok: "prevalidate late_submission = Inr ()" "pvalue (sub_priority late_submission) \<noteq> 0" by code_simp+
  have "s_store (fst (sched_submit plain_hex 7 late_submission s))
      = paused_store\<lparr>st_db := (st_db paused_store)\<lparr>tasks := [pause_row 7 GROUP (r\<lparr>t_id := 1\<rparr>)]\<rparr>\<rparr>
    \<and> s_paused_groups (fst (sched_submit plain_hex 7 late_submission s)) = [''g'']"
    using s ok r by (simp add: sched_submit_def Let_def submit_def after_submits_def after_submit_def count_outcome_def handle_superseded_def
        changed_def preempt_for_def notify_def count_def)
  then show ?thesis
    by (simp add: resume_race_def s_def [symmetric] tasks resume_group_finish_def Let_def on_rows_def resume_group_state_def paused_store_def
        emit_def count_def notify_def maybe_restore_fast_dispatch_def pause_row_def sql_delete_def)
qed

end
