(* ===== verification/Typed_Tasks.thy ===== *)
theory Typed_Tasks
  imports Scheduler_System
begin

text \<open>
  The typed layer: domains and typed submissions (\<open>src/src/domain.rs\<close>,
  \<open>src/src/task/typed.rs\<close>), the context a running task sees (\<open>src/src/registry/context.rs\<close>,
  \<open>src/src/registry/domain_context.rs\<close>) and the typed event stream.

  A value of a type that implements \<open>TypedTask\<close> is what its methods return: the constant
  type name, the configuration, the serialised payload (or the error of the serialiser), key,
  label and tags. A panic for an unregistered module is the value \<open>None\<close>.
\<close>

section \<open>Typed tasks\<close>

record task_type_config =
  tc_priority :: "priority option"
  tc_expected_io :: "io_budget option"
  tc_group_key :: "string option"
  tc_on_duplicate :: "duplicate_strategy option"
  tc_ttl :: "duration option"
  tc_ttl_from :: "ttl_from option"
  tc_run_after :: "duration option"
  tc_recurring :: "recurring_schedule option"
  tc_retry_policy :: "retry_policy option"

definition task_config_new :: task_type_config where
  "task_config_new = \<lparr>tc_priority = None, tc_expected_io = None, tc_group_key = None, tc_on_duplicate = None,
     tc_ttl = None, tc_ttl_from = None, tc_run_after = None, tc_recurring = None, tc_retry_policy = None\<rparr>"

record typed_task =
  tt_task_type :: string
  tt_config :: task_type_config
  tt_serialized :: "string + bytes"
  tt_key :: "string option"
  tt_label :: "string option"
  tt_tags :: "(string, string) assoc"

text \<open>The fields of the configuration that both ways of building a submission set.\<close>

definition config_common :: "task_type_config \<Rightarrow> task_submission \<Rightarrow> task_submission" where
  "config_common c sub =
     override_with (\<lambda>tf sub. sub\<lparr>sub_ttl_from := tf\<rparr>) (tc_ttl_from c)
       (override_with (\<lambda>od sub. sub\<lparr>sub_on_duplicate := od\<rparr>) (tc_on_duplicate c)
         (override_with (\<lambda>io sub. sub\<lparr>sub_expected_io := io\<rparr>) (tc_expected_io c) sub))"

definition config_schedule :: "timestamp \<Rightarrow> task_type_config \<Rightarrow> task_submission \<Rightarrow> task_submission" where
  "config_schedule now c sub =
     override_with (with_recurring_schedule now) (tc_recurring c) (override_with (with_run_after now) (tc_run_after c) sub)"

definition typed_identity :: "typed_task \<Rightarrow> task_submission \<Rightarrow> task_submission" where
  "typed_identity task sub =
     override_with (\<lambda>l sub. sub\<lparr>sub_label := l\<rparr>) (tt_label task) (override_with with_key (tt_key task) sub)"

definition from_typed :: "timestamp \<Rightarrow> typed_task \<Rightarrow> task_submission" where
  "from_typed now task =
     (let c = tt_config task;
          sub1 = with_payload_json (tt_serialized task) (submission_new (tt_task_type task));
          sub2 = config_common c (override_with (\<lambda>p sub. sub\<lparr>sub_priority := p\<rparr>) (tc_priority c) sub1);
          sub3 = override_with (\<lambda>t sub. sub\<lparr>sub_ttl := Some t\<rparr>) (tc_ttl c) sub2;
          sub4 = override_with (\<lambda>g sub. sub\<lparr>sub_group_key := Some g\<rparr>) (tc_group_key c) sub3;
          sub5 = typed_identity task (config_schedule now c sub4)
      in if tt_tags task = [] then sub5 else sub5\<lparr>sub_tags := tt_tags task\<rparr>)"

definition sched_submit_typed ::
    "(bytes \<Rightarrow> string) \<Rightarrow> timestamp \<Rightarrow> typed_task \<Rightarrow> (scheduler, store_error, submit_outcome) stmt" where
  "sched_submit_typed sha256_hex now task = sched_submit sha256_hex now (from_typed now task)"

definition sched_submit_typed_at ::
    "(bytes \<Rightarrow> string) \<Rightarrow> timestamp \<Rightarrow> typed_task \<Rightarrow> priority \<Rightarrow> (scheduler, store_error, submit_outcome) stmt" where
  "sched_submit_typed_at sha256_hex now task p =
     sched_submit sha256_hex now ((from_typed now task)\<lparr>sub_priority := p\<rparr>)"

definition sched_lookup_typed :: "(bytes \<Rightarrow> string) \<Rightarrow> typed_task \<Rightarrow> scheduler \<Rightarrow> store_error + task_lookup" where
  "sched_lookup_typed sha256_hex task s =
     (case tt_serialized task of
        Inl e \<Rightarrow> Inl (Serialization e)
      | Inr payload \<Rightarrow> Inr (lookup_task (generate_dedup_key sha256_hex (tt_task_type task) (Some payload)) (s_store s)))"

section \<open>Domains\<close>

record task_domain =
  dom_name :: string
  dom_executors :: "module_executor list"
  dom_default_priority :: "priority option"
  dom_default_retry_policy :: "retry_policy option"
  dom_default_group :: "string option"
  dom_default_ttl :: "duration option"
  dom_default_tags :: "(string, string) assoc"
  dom_max_concurrency :: "nat option"

text \<open>The name is the constant of the domain key; an empty one or one with the separator
  panics.\<close>

definition domain_new :: "string \<Rightarrow> task_domain option" where
  "domain_new name =
     (if name = [] \<or> split_once_colons name \<noteq> None then None
      else Some \<lparr>dom_name = name, dom_executors = [], dom_default_priority = None, dom_default_retry_policy = None,
                 dom_default_group = None, dom_default_ttl = None, dom_default_tags = [], dom_max_concurrency = None\<rparr>)"

definition domain_task_inner :: "string \<Rightarrow> duration option \<Rightarrow> retry_policy option \<Rightarrow> task_domain \<Rightarrow> task_domain" where
  "domain_task_inner ty ttl policy d =
     d\<lparr>dom_executors := dom_executors d @ [\<lparr>mx_task_type = ty, mx_options = \<lparr>eo_ttl = ttl, eo_retry_policy = policy\<rparr>\<rparr>]\<rparr>"

definition domain_task :: "string \<Rightarrow> task_type_config \<Rightarrow> task_domain \<Rightarrow> task_domain" where
  "domain_task ty c = domain_task_inner ty (tc_ttl c) (tc_retry_policy c)"

definition domain_task_with :: "string \<Rightarrow> task_type_config \<Rightarrow> executor_options \<Rightarrow> task_domain \<Rightarrow> task_domain" where
  "domain_task_with ty c opts =
     domain_task_inner ty (case eo_ttl opts of Some t \<Rightarrow> Some t | None \<Rightarrow> tc_ttl c)
       (case eo_retry_policy opts of Some p \<Rightarrow> Some p | None \<Rightarrow> tc_retry_policy c)"

definition domain_default_tag :: "string \<Rightarrow> string \<Rightarrow> task_domain \<Rightarrow> task_domain" where
  "domain_default_tag k v d = d\<lparr>dom_default_tags := assoc_insert k v (dom_default_tags d)\<rparr>"

definition into_module :: "task_domain \<Rightarrow> module_def" where
  "into_module d =
     \<lparr>mod_name = dom_name d, mod_executors = dom_executors d, mod_default_priority = dom_default_priority d,
      mod_default_retry_policy = dom_default_retry_policy d, mod_default_group = dom_default_group d,
      mod_default_ttl = dom_default_ttl d, mod_default_tags = dom_default_tags d,
      mod_max_concurrency = dom_max_concurrency d\<rparr>"

text \<open>A domain handle is the handle of its module. \<open>ModuleHandle::submit_typed\<close> builds the same
  submission.\<close>

definition typed_submit_builder :: "timestamp \<Rightarrow> module_handle \<Rightarrow> typed_task \<Rightarrow> submit_builder" where
  "typed_submit_builder now h task =
     (let c = tt_config task;
          sub = config_schedule now c (typed_identity task
                  (config_common c (with_payload_json (tt_serialized task) (submission_new (tt_task_type task)))))
      in with_typed_defaults
           \<lparr>ttd_priority = (case tc_priority c of Some p \<Rightarrow> p | None \<Rightarrow> NORMAL), ttd_group = tc_group_key c,
            ttd_ttl = tc_ttl c, ttd_tags = tt_tags task\<rparr>
           (module_submit h sub))"

definition domain_submit ::
    "(bytes \<Rightarrow> string) \<Rightarrow> timestamp \<Rightarrow> module_handle \<Rightarrow> typed_task \<Rightarrow> (scheduler, store_error, submit_outcome) stmt" where
  "domain_submit sha256_hex now h task = builder_submit sha256_hex now (typed_submit_builder now h task)"

definition domain_submit_batch ::
    "(bytes \<Rightarrow> string) \<Rightarrow> timestamp \<Rightarrow> module_handle \<Rightarrow> typed_task list \<Rightarrow> (scheduler, store_error, submit_outcome list) stmt" where
  "domain_submit_batch sha256_hex now h ts = collect_each (domain_submit sha256_hex now h) ts"

section \<open>The context of a running task\<close>

record task_context =
  tx_record :: task_record
  tx_token :: nat
  tx_module_registry :: "module_entry list"
  tx_owning_module :: string
  tx_aging_config :: "aging_config option"

definition build_task_context :: "module_entry list \<Rightarrow> task_record \<Rightarrow> nat \<Rightarrow> scheduler \<Rightarrow> task_context" where
  "build_task_context modules task tok s =
     \<lparr>tx_record = task, tx_token = tok, tx_module_registry = modules,
      tx_owning_module = (case task_module_name task of Some m \<Rightarrow> m | None \<Rightarrow> ''''),
      tx_aging_config = s_aging_config s\<rparr>"

definition check_cancelled :: "task_context \<Rightarrow> scheduler \<Rightarrow> task_error + unit" where
  "check_cancelled ctx s =
     (if \<exists>e \<in> set (s_executions s). ex_id e = tx_token ctx \<and> ex_cancelled e then Inl error_cancelled else Inr ())"

definition context_module :: "task_context \<Rightarrow> string \<Rightarrow> module_handle option" where
  "context_module ctx name = map_option handle_new (registry_get name (tx_module_registry ctx))"

definition context_spawn_child ::
    "(bytes \<Rightarrow> string) \<Rightarrow> timestamp \<Rightarrow> task_context \<Rightarrow> task_submission \<Rightarrow> scheduler
     \<Rightarrow> (scheduler \<times> (store_error + submit_outcome)) option" where
  "context_spawn_child sha256_hex now ctx sub s =
     (if tx_owning_module ctx = [] then Some (spawn_child sha256_hex now (tx_record ctx) sub s)
      else map_option (\<lambda>h. builder_submit sha256_hex now (module_submit h (prepare_child now (tx_record ctx) sub)) s)
             (context_module ctx (tx_owning_module ctx)))"

definition context_spawn_children ::
    "(bytes \<Rightarrow> string) \<Rightarrow> timestamp \<Rightarrow> task_context \<Rightarrow> task_submission list \<Rightarrow> scheduler
     \<Rightarrow> (scheduler \<times> (store_error + batch_outcome)) option" where
  "context_spawn_children sha256_hex now ctx subs s =
     (if tx_owning_module ctx = [] then Some (spawn_children sha256_hex now (tx_record ctx) subs s)
      else map_option (\<lambda>h. module_submit_batch sha256_hex now h (map (prepare_child now (tx_record ctx)) subs) s)
             (context_module ctx (tx_owning_module ctx)))"

text \<open>The builders of children and of siblings have the same overrides.\<close>

record spawn_builder =
  spb_task :: typed_task
  spb_key :: "string option"
  spb_priority :: "priority option"
  spb_ttl :: "duration option"
  spb_group :: "string option"

definition spawn_with :: "typed_task \<Rightarrow> spawn_builder" where
  "spawn_with task = \<lparr>spb_task = task, spb_key = None, spb_priority = None, spb_ttl = None, spb_group = None\<rparr>"

definition inherited_priority :: "timestamp \<Rightarrow> aging_config \<Rightarrow> task_record \<Rightarrow> task_type_config \<Rightarrow> priority" where
  "inherited_priority now config parent c =
     Priority (min (pvalue (record_effective_priority now (Some config) parent))
                   (pvalue (case tc_priority c of Some p \<Rightarrow> p | None \<Rightarrow> NORMAL)))"

definition inherit_priority :: "timestamp \<Rightarrow> task_context \<Rightarrow> typed_task \<Rightarrow> task_submission \<Rightarrow> task_submission" where
  "inherit_priority now ctx task sub =
     (case tx_aging_config ctx of
        None \<Rightarrow> sub
      | Some config \<Rightarrow> sub\<lparr>sub_priority := inherited_priority now config (tx_record ctx) (tt_config task)\<rparr>)"

definition spawn_submission :: "timestamp \<Rightarrow> task_context \<Rightarrow> spawn_builder \<Rightarrow> task_submission" where
  "spawn_submission now ctx b =
     (let sub1 = override_with with_key (spb_key b) (from_typed now (spb_task b));
          sub2 = (case spb_priority b of
                    Some p \<Rightarrow> sub1\<lparr>sub_priority := p\<rparr>
                  | None \<Rightarrow> inherit_priority now ctx (spb_task b) sub1);
          sub3 = override_with (\<lambda>t sub. sub\<lparr>sub_ttl := Some t\<rparr>) (spb_ttl b) sub2
      in override_with (\<lambda>g sub. sub\<lparr>sub_group_key := Some g\<rparr>) (spb_group b) sub3)"

definition child_spawn ::
    "(bytes \<Rightarrow> string) \<Rightarrow> timestamp \<Rightarrow> task_context \<Rightarrow> spawn_builder \<Rightarrow> scheduler
     \<Rightarrow> (scheduler \<times> (store_error + submit_outcome)) option" where
  "child_spawn sha256_hex now ctx b = context_spawn_child sha256_hex now ctx (spawn_submission now ctx b)"

definition spawn_children_with ::
    "(bytes \<Rightarrow> string) \<Rightarrow> timestamp \<Rightarrow> task_context \<Rightarrow> typed_task list \<Rightarrow> scheduler
     \<Rightarrow> (scheduler \<times> (store_error + batch_outcome)) option" where
  "spawn_children_with sha256_hex now ctx ts = context_spawn_children sha256_hex now ctx (map (from_typed now) ts)"

definition no_parent :: "string \<Rightarrow> task_context \<Rightarrow> store_error" where
  "no_parent what ctx =
     InvalidState (what @ '' called on task '' @ show_int (t_id (tx_record ctx)) @ '' which has no parent_id'')"

definition sibling_spawn ::
    "(bytes \<Rightarrow> string) \<Rightarrow> timestamp \<Rightarrow> task_context \<Rightarrow> spawn_builder \<Rightarrow> scheduler
     \<Rightarrow> (scheduler \<times> (store_error + submit_outcome)) option" where
  "sibling_spawn sha256_hex now ctx b s =
     (case t_parent_id (tx_record ctx) of
        None \<Rightarrow> Some (s, Inl (no_parent ''spawn_sibling_with'' ctx))
      | Some parent_id \<Rightarrow>
          map_option (\<lambda>h. builder_submit sha256_hex now
                            ((module_submit h (spawn_submission now ctx b))\<lparr>sb_parent_id := Some parent_id\<rparr>) s)
            (context_module ctx (tx_owning_module ctx)))"

definition spawn_siblings_with ::
    "(bytes \<Rightarrow> string) \<Rightarrow> timestamp \<Rightarrow> task_context \<Rightarrow> typed_task list \<Rightarrow> scheduler
     \<Rightarrow> (scheduler \<times> (store_error + batch_outcome)) option" where
  "spawn_siblings_with sha256_hex now ctx ts s =
     (case t_parent_id (tx_record ctx) of
        None \<Rightarrow> Some (s, Inl (no_parent ''spawn_siblings_with'' ctx))
      | Some parent_id \<Rightarrow>
          (let subs = map (\<lambda>task. inherit_priority now ctx task ((from_typed now task)\<lparr>sub_parent_id := Some parent_id\<rparr>)) ts
           in if subs = [] then Some (s, Inr [])
              else map_option (\<lambda>h. module_submit_batch sha256_hex now h subs s)
                     (context_module ctx (tx_owning_module ctx))))"

definition child_of :: "task_context \<Rightarrow> submit_builder \<Rightarrow> submit_builder" where
  "child_of ctx b = b\<lparr>sb_parent_id := Some (t_id (tx_record ctx))\<rparr>"

definition sibling_of :: "task_context \<Rightarrow> submit_builder \<Rightarrow> store_error + submit_builder" where
  "sibling_of ctx b =
     (case t_parent_id (tx_record ctx) of
        None \<Rightarrow> Inl (InvalidState ''sibling_of called on a task with no parent_id'')
      | Some pid \<Rightarrow> Inr (b\<lparr>sb_parent_id := Some pid\<rparr>))"

section \<open>Typed events\<close>

datatype task_event =
    TeDispatched int
  | TeProgress int rat "string option"
  | TeWaiting int
  | TeCancelled int
  | TeCompleted int history_record
  | TeFailed int string bool "duration option" "history_record option"
  | TeDeadLettered int string history_record

definition fetch_record :: "string \<Rightarrow> scheduler \<Rightarrow> history_record option" where
  "fetch_record key s = latest_history_by_key key (st_db (s_store s))"

fun try_convert :: "string \<Rightarrow> scheduler \<Rightarrow> scheduler_event \<Rightarrow> task_event option" where
  "try_convert q s (EvDispatched h) = (if eh_task_type h = q then Some (TeDispatched (eh_task_id h)) else None)"
| "try_convert q s (EvCompleted h) =
     (if eh_task_type h = q then map_option (TeCompleted (eh_task_id h)) (fetch_record (eh_key h) s) else None)"
| "try_convert q s (EvFailed h e again delay) =
     (if eh_task_type h = q
      then Some (TeFailed (eh_task_id h) e again delay (if again then None else fetch_record (eh_key h) s)) else None)"
| "try_convert q s (EvCancelled h) = (if eh_task_type h = q then Some (TeCancelled (eh_task_id h)) else None)"
| "try_convert q s (EvProgress h p m) = (if eh_task_type h = q then Some (TeProgress (eh_task_id h) p m) else None)"
| "try_convert q s (EvDeadLettered h e _) =
     (if eh_task_type h = q then map_option (TeDeadLettered (eh_task_id h) e) (fetch_record (eh_key h) s) else None)"
| "try_convert q s _ = None"

text \<open>The stream of a subscriber that receives the given events; the history is read when an
  event is received.\<close>

definition task_events :: "string \<Rightarrow> string \<Rightarrow> scheduler \<Rightarrow> scheduler_event list \<Rightarrow> task_event list" where
  "task_events domain ty s evs = List.map_filter (try_convert (domain @ ''::'' @ ty) s) evs"

section \<open>The typed layer runs on the scheduler\<close>

text \<open>What clients and running tasks can do: the steps of the scheduler and the operations of
  this layer.\<close>

inductive client_step :: "(bytes \<Rightarrow> string) \<Rightarrow> scheduler \<Rightarrow> scheduler \<Rightarrow> bool" for sha256_hex :: "bytes \<Rightarrow> string" where
  cl_sched: "sched_step sha256_hex True s t \<Longrightarrow> client_step sha256_hex s t"
| cl_submit_typed: "client_step sha256_hex s (fst (sched_submit_typed sha256_hex now task s))"
| cl_submit_typed_at: "client_step sha256_hex s (fst (sched_submit_typed_at sha256_hex now task p s))"
| cl_domain_submit: "client_step sha256_hex s (fst (domain_submit sha256_hex now h task s))"
| cl_domain_batch: "client_step sha256_hex s (fst (domain_submit_batch sha256_hex now h ts s))"
| cl_spawn_child: "context_spawn_child sha256_hex now ctx sub s = Some (t, r) \<Longrightarrow> client_step sha256_hex s t"
| cl_spawn_children: "context_spawn_children sha256_hex now ctx subs s = Some (t, rs) \<Longrightarrow> client_step sha256_hex s t"
| cl_child: "child_spawn sha256_hex now ctx b s = Some (t, r) \<Longrightarrow> client_step sha256_hex s t"
| cl_children_with: "spawn_children_with sha256_hex now ctx ts s = Some (t, rs) \<Longrightarrow> client_step sha256_hex s t"
| cl_sibling: "sibling_spawn sha256_hex now ctx b s = Some (t, r) \<Longrightarrow> client_step sha256_hex s t"
| cl_siblings_with: "spawn_siblings_with sha256_hex now ctx ts s = Some (t, rs) \<Longrightarrow> client_step sha256_hex s t"

lemma collect_each_runs:
  assumes "\<And>x s. Q\<^sup>*\<^sup>* s (fst (f x s))"
  shows "Q\<^sup>*\<^sup>* s (fst (collect_each f xs s))"
proof (induction xs arbitrary: s)
  case (Cons x xs)
  obtain s1 r where f: "f x s = (s1, r)" by force
  show ?case
  proof (cases r)
    case (Inl e)
    then show ?thesis using assms [of s x] f by (simp add: andThen_def)
  next
    case (Inr a)
    obtain s2 r2 where g: "collect_each f xs s1 = (s2, r2)" by force
    have "Q\<^sup>*\<^sup>* s s1" "Q\<^sup>*\<^sup>* s1 s2" using assms [of s x] Cons.IH [of s1] f g by simp_all
    then show ?thesis using Inr f g by (cases r2) (simp_all add: andThen_def)
  qed
qed simp

lemma sched_runs:
  "(sched_step sha256_hex True)\<^sup>*\<^sup>* s (fst (sched_submit sha256_hex now sub s))"
  "(sched_step sha256_hex True)\<^sup>*\<^sup>* s (fst (builder_submit sha256_hex now b s))"
  "(sched_step sha256_hex True)\<^sup>*\<^sup>* s (fst (module_submit_batch sha256_hex now m subs s))"
  "(sched_step sha256_hex True)\<^sup>*\<^sup>* s (fst (spawn_child sha256_hex now parent sub s))"
  "(sched_step sha256_hex True)\<^sup>*\<^sup>* s (fst (spawn_children sha256_hex now parent subs s))"
  by (auto intro: sched_step.intros)

lemma context_spawn_runs:
  "context_spawn_child sha256_hex now ctx sub s = Some (t, r) \<Longrightarrow> (sched_step sha256_hex True)\<^sup>*\<^sup>* s t"
  "context_spawn_children sha256_hex now ctx subs s = Some (t, rs) \<Longrightarrow> (sched_step sha256_hex True)\<^sup>*\<^sup>* s t"
  unfolding context_spawn_child_def context_spawn_children_def
  by (auto split: if_splits; metis fst_conv sched_runs)+

lemma sibling_runs:
  "sibling_spawn sha256_hex now ctx b s = Some (t, r) \<Longrightarrow> (sched_step sha256_hex True)\<^sup>*\<^sup>* s t"
  "spawn_siblings_with sha256_hex now ctx ts s = Some (t, rs) \<Longrightarrow> (sched_step sha256_hex True)\<^sup>*\<^sup>* s t"
  unfolding sibling_spawn_def spawn_siblings_with_def Let_def
  by (auto split: if_splits option.splits; metis fst_conv sched_runs)+

lemma client_step_runs: "client_step sha256_hex s t \<Longrightarrow> (sched_step sha256_hex True)\<^sup>*\<^sup>* s t"
proof (induction rule: client_step.induct)
  case (cl_domain_batch s now h ts)
  show ?case unfolding domain_submit_batch_def domain_submit_def by (rule collect_each_runs) (rule sched_runs)
qed (auto simp: sched_submit_typed_def sched_submit_typed_at_def domain_submit_def child_spawn_def spawn_children_with_def
      intro: sched_runs context_spawn_runs sibling_runs)

interpretation clients: simulation sched_init "client_step sha256_hex" "\<lambda>s. s" sched_init "sched_step sha256_hex True"
  for sha256_hex
  by unfold_locales (simp_all add: client_step_runs)


definition example_task :: typed_task where
  "example_task = \<lparr>tt_task_type = ''t'', tt_config = task_config_new\<lparr>tc_priority := Some HIGH\<rparr>, tt_serialized = Inr [1],
     tt_key = None, tt_label = None, tt_tags = []\<rparr>"

definition example_handle :: module_handle where
  "example_handle = handle_new \<lparr>me_name = ''m'', me_prefix = ''m::'', me_default_priority = None, me_default_retry_policy = None,
     me_default_group = None, me_default_ttl = None, me_default_tags = [], me_max_concurrency = None\<rparr>"


section \<open>Which value a typed task gets\<close>

lemma resolve_plain_priority:
  "sub_priority (resolve_builder (module_submit h sub))
     = (case msd_priority (mh_defaults h) of
          Some p \<Rightarrow> if sub_priority sub = NORMAL then p else sub_priority sub
        | None \<Rightarrow> sub_priority sub)"
  by (simp add: resolve_builder_def module_submit_def builder_new_def apply_overrides_fields apply_defaults_def
      scalar_default_fields split: option.split)

lemma resolve_typed_priority:
  "sub_priority (resolve_builder (typed_submit_builder now h task))
     = (case msd_priority (mh_defaults h) of
          Some p \<Rightarrow> p
        | None \<Rightarrow> (case tc_priority (tt_config task) of Some p \<Rightarrow> p | None \<Rightarrow> NORMAL))"
  by (simp add: resolve_builder_def typed_submit_builder_def with_typed_defaults_def module_submit_def builder_new_def Let_def
      apply_overrides_fields apply_defaults_def scalar_default_fields split: option.split)

lemma prepare_child_priority [simp]: "sub_priority (prepare_child now parent sub) = sub_priority sub"
  by (simp add: prepare_child_def inherit_from_def inherit_ttl_def split: option.split)

lemma spawn_submission_priority:
  "spb_priority b = None \<Longrightarrow> tx_aging_config ctx = Some config
   \<Longrightarrow> sub_priority (spawn_submission now ctx b) = inherited_priority now config (tx_record ctx) (tt_config (spb_task b))"
  by (simp add: spawn_submission_def Let_def inherit_priority_def override_frames)

lemma inherited_priority_max:
  "inherited_priority now config parent c
     = max (record_effective_priority now (Some config) parent) (case tc_priority c of Some p \<Rightarrow> p | None \<Rightarrow> NORMAL)"
  by (auto simp: inherited_priority_def max_def min_def priority_le_iff intro: priority.expand)


definition aged_context :: task_context where
  "aged_context = \<lparr>tx_record = (sample_row 1 ''a'' Running)\<lparr>t_priority := NORMAL\<rparr>, tx_token = 0, tx_module_registry = [],
     tx_owning_module = ''m'', tx_aging_config = Some aging_default\<rparr>"


text \<open>In a module with a default priority the inheritance can be lost: an inherited normal
  priority looks like one that was never set.\<close>

definition idle_handle :: module_handle where
  "idle_handle = example_handle\<lparr>mh_defaults := (mh_defaults example_handle)\<lparr>msd_priority := Some IDLE\<rparr>\<rparr>"

lemma inherited_normal_lost:
  "inherited_priority now config parent c = NORMAL \<Longrightarrow> tx_aging_config ctx = Some config \<Longrightarrow> tx_record ctx = parent
   \<Longrightarrow> tt_config (spb_task b) = c \<Longrightarrow> spb_priority b = None
   \<Longrightarrow> sub_priority (resolve_builder (module_submit idle_handle (prepare_child now parent (spawn_submission now ctx b)))) = IDLE"
  by (simp add: resolve_plain_priority spawn_submission_priority idle_handle_def)

text \<open>The same typed task gets the priority of its domain when it is submitted, and its own
  when it is spawned.\<close>

lemma spawned_ignores_domain_default:
  "sub_priority (resolve_builder (typed_submit_builder now idle_handle example_task)) = IDLE
   \<and> sub_priority (resolve_builder (module_submit idle_handle (prepare_child now parent (from_typed now example_task)))) = HIGH"
  unfolding resolve_typed_priority resolve_plain_priority prepare_child_priority
  by (simp add: idle_handle_def example_task_def from_typed_def Let_def override_with_def task_config_new_def
      config_common_def config_schedule_def typed_identity_def with_payload_json_def submission_new_def HIGH_def NORMAL_def)

section \<open>Looking typed tasks up\<close>

lemmas key_frames = override_frame [of sub_task_type] override_frame [of sub_dedup_key] override_frame [of sub_payload]

lemma override_with_None: "override_with f None sub = sub"
  by (simp add: override_with_def)

lemma schedule_key_fields [simp]:
  "sub_task_type (with_recurring_schedule now r sub) = sub_task_type sub"
  "sub_dedup_key (with_recurring_schedule now r sub) = sub_dedup_key sub"
  "sub_payload (with_recurring_schedule now r sub) = sub_payload sub"
  by (simp_all add: with_recurring_schedule_def Let_def split: option.split)

lemma config_key_fields [simp]:
  "sub_task_type (config_common c sub) = sub_task_type sub"
  "sub_dedup_key (config_common c sub) = sub_dedup_key sub"
  "sub_payload (config_common c sub) = sub_payload sub"
  "sub_task_type (config_schedule now c sub) = sub_task_type sub"
  "sub_dedup_key (config_schedule now c sub) = sub_dedup_key sub"
  "sub_payload (config_schedule now c sub) = sub_payload sub"
  by (simp_all add: config_common_def config_schedule_def key_frames with_run_after_def)

lemma typed_identity_fields [simp]:
  "sub_task_type (typed_identity task sub) = sub_task_type sub"
  "sub_dedup_key (typed_identity task sub) = (case tt_key task of Some k \<Rightarrow> Some k | None \<Rightarrow> sub_dedup_key sub)"
  "sub_payload (typed_identity task sub) = sub_payload sub"
  by (simp_all add: typed_identity_def key_frames with_key_def) (simp add: override_with_def with_key_def split: option.split)

lemma payload_json_fields [simp]:
  "sub_task_type (with_payload_json r (submission_new ty)) = ty"
  "sub_dedup_key (with_payload_json r (submission_new ty)) = None"
  "sub_payload (with_payload_json r (submission_new ty)) = (case r of Inr p \<Rightarrow> Some p | Inl _ \<Rightarrow> None)"
  by (simp_all add: with_payload_json_def submission_new_def split: sum.split)

lemma from_typed_key:
  "sub_task_type (from_typed now task) = tt_task_type task"
  "sub_dedup_key (from_typed now task) = tt_key task"
  "sub_payload (from_typed now task) = (case tt_serialized task of Inr p \<Rightarrow> Some p | Inl _ \<Rightarrow> None)"
  by (simp_all add: from_typed_def Let_def key_frames split: option.split)

lemma scalar_default_keys:
  "sub_dedup_key (apply_module_scalar_defaults u d s) = sub_dedup_key s"
  "sub_payload (apply_module_scalar_defaults u d s) = sub_payload s"
  "sub_task_type (apply_module_scalar_defaults u d s) = sub_task_type s"
  by (auto simp: apply_module_scalar_defaults_def Let_def split: option.split)

lemma resolve_typed_key:
  assumes "mh_name h \<noteq> []"
  shows "sub_task_type (resolve_builder (typed_submit_builder now h task)) = mh_name h @ ''::'' @ tt_task_type task"
    and "sub_dedup_key (resolve_builder (typed_submit_builder now h task)) = tt_key task"
    and "sub_payload (resolve_builder (typed_submit_builder now h task)) = (case tt_serialized task of Inr p \<Rightarrow> Some p | Inl _ \<Rightarrow> None)"
  using assms
  by (simp_all add: resolve_builder_def apply_overrides_def Let_def override_with_None typed_submit_builder_def with_typed_defaults_def
      module_submit_def builder_new_def with_depends_on_all_def apply_defaults_def scalar_default_keys merge_tags_def apply_prefix_def
      split: option.split)

text \<open>A typed lookup asks for the key that submitting the same value to the scheduler uses,
  provided the task has no key of its own.\<close>

lemma lookup_typed_key:
  "tt_key task = None \<Longrightarrow> tt_serialized task = Inr payload
   \<Longrightarrow> sched_lookup_typed sha256_hex task s = Inr (lookup_task (effective_key sha256_hex (from_typed now task)) (s_store s))"
  by (simp add: sched_lookup_typed_def effective_key_def from_typed_key)

text \<open>With a key of its own, or when it was submitted through a domain, the lookup asks for
  another key and does not find the task.\<close>

lemma lookup_typed_other_key:
  assumes "inj sha256_hex" and "tt_serialized task = Inr payload"
  shows "tt_key task = Some k \<Longrightarrow> payload \<noteq> as_bytes k
      \<Longrightarrow> generate_dedup_key sha256_hex (tt_task_type task) (Some payload) \<noteq> effective_key sha256_hex (from_typed now task)"
    and "mh_name h \<noteq> [] \<Longrightarrow> tt_key task = None
      \<Longrightarrow> generate_dedup_key sha256_hex (tt_task_type task) (Some payload)
          \<noteq> effective_key sha256_hex (resolve_builder (typed_submit_builder now h task))"
proof -
  show "generate_dedup_key sha256_hex (tt_task_type task) (Some payload) \<noteq> effective_key sha256_hex (from_typed now task)"
    if "tt_key task = Some k" "payload \<noteq> as_bytes k"
    using assms that by (simp add: generate_dedup_key_def effective_key_def from_typed_key inj_eq)
next
  assume h: "mh_name h \<noteq> []" and k: "tt_key task = None"
  let ?sub = "resolve_builder (typed_submit_builder now h task)"
  have "sub_task_type ?sub = mh_name h @ ''::'' @ tt_task_type task" "sub_dedup_key ?sub = None" "sub_payload ?sub = Some payload"
    using resolve_typed_key [OF h, of now task] k assms(2) by simp_all
  then show "generate_dedup_key sha256_hex (tt_task_type task) (Some payload) \<noteq> effective_key sha256_hex ?sub"
    using assms(1) by (auto simp: effective_key_def generate_dedup_key_def inj_eq as_bytes_def dest: arg_cong [where f = length])
qed

section \<open>What a typed stream shows\<close>

fun task_event_id :: "task_event \<Rightarrow> int" where
  "task_event_id (TeDispatched i) = i"
| "task_event_id (TeProgress i _ _) = i"
| "task_event_id (TeWaiting i) = i"
| "task_event_id (TeCancelled i) = i"
| "task_event_id (TeCompleted i _) = i"
| "task_event_id (TeFailed i _ _ _ _) = i"
| "task_event_id (TeDeadLettered i _ _) = i"

text \<open>The stream of a type shows events of this type only, under the id of their task; a task
  that waits for its children is never shown, although the stream has an event for it.\<close>

lemma typed_event_of_type:
  assumes "try_convert q s ev = Some te"
  shows "(\<exists>h. event_header_of ev = Some h \<and> eh_task_type h = q \<and> eh_task_id h = task_event_id te) \<and> (\<forall>i. te \<noteq> TeWaiting i)"
  using assms by (cases "(q, s, ev)" rule: try_convert.cases) (auto split: if_splits)

section \<open>Executing typed tasks\<close>

text \<open>What \<open>serde_json\<close> does with the values of a type: to bytes, from bytes, and from the
  value \<open>null\<close>, which stands for an absent payload.\<close>

record 'a codec =
  to_vec :: "'a \<Rightarrow> string + bytes"
  from_slice :: "bytes \<Rightarrow> string + 'a"
  from_null :: "string + 'a"

definition deserialize_payload :: "'a codec \<Rightarrow> task_record \<Rightarrow> string + 'a option" where
  "deserialize_payload c r =
     (case t_payload r of
        Some b \<Rightarrow> (case from_slice c b of Inl e \<Rightarrow> Inl e | Inr v \<Rightarrow> Inr (Some v))
      | None \<Rightarrow> Inr None)"

definition context_payload :: "'a codec \<Rightarrow> task_context \<Rightarrow> task_error + 'a" where
  "context_payload c ctx =
     (case deserialize_payload c (tx_record ctx) of
        Inl e \<Rightarrow> Inl (error_new e)
      | Inr (Some v) \<Rightarrow> Inr v
      | Inr None \<Rightarrow> (case from_null c of Inr v \<Rightarrow> Inr v | Inl _ \<Rightarrow> Inl (error_new ''missing payload'')))"

text \<open>A typed executor is what it returns for a payload and a context. A memo of the unit type
  is not stored.\<close>

definition adapter_execute ::
    "'a codec \<Rightarrow> 'm codec \<Rightarrow> bool \<Rightarrow> ('a \<Rightarrow> task_context \<Rightarrow> task_error + 'm) \<Rightarrow> task_context \<Rightarrow> task_error + bytes option" where
  "adapter_execute pc mc unit_memo execute ctx =
     (case context_payload pc ctx of
        Inl e \<Rightarrow> Inl e
      | Inr payload \<Rightarrow>
          (case execute payload ctx of
             Inl e \<Rightarrow> Inl e
           | Inr memo \<Rightarrow>
               if unit_memo then Inr None
               else (case to_vec mc memo of
                       Inl e \<Rightarrow> Inl (error_permanent (''memo serialization: '' @ e))
                     | Inr b \<Rightarrow> Inr (Some b))))"

definition adapter_finalize ::
    "'a codec \<Rightarrow> 'm codec \<Rightarrow> ('a \<Rightarrow> 'm \<Rightarrow> task_context \<Rightarrow> task_error + unit) \<Rightarrow> task_context \<Rightarrow> task_error + unit" where
  "adapter_finalize pc mc finalize ctx =
     (case context_payload pc ctx of
        Inl e \<Rightarrow> Inl e
      | Inr payload \<Rightarrow>
          (case (case t_memo (tx_record ctx) of Some b \<Rightarrow> from_slice mc b | None \<Rightarrow> from_null mc) of
             Inl e \<Rightarrow> Inl (error_permanent (''memo deserialization: '' @ e))
           | Inr memo \<Rightarrow> finalize payload memo ctx))"

definition adapter_on_cancel ::
    "'a codec \<Rightarrow> ('a \<Rightarrow> task_context \<Rightarrow> task_error + unit) \<Rightarrow> task_context \<Rightarrow> task_error + unit" where
  "adapter_on_cancel pc on_cancel ctx =
     (case context_payload pc ctx of Inl e \<Rightarrow> Inl e | Inr payload \<Rightarrow> on_cancel payload ctx)"

text \<open>What the encoder writes, the decoder reads back.\<close>

definition faithful :: "'a codec \<Rightarrow> bool" where
  "faithful c \<longleftrightarrow> (\<forall>x b. to_vec c x = Inr b \<longrightarrow> from_slice c b = Inr x)"

lemma resolve_typed_payload:
  "sub_payload (resolve_builder (typed_submit_builder now h task)) = (case tt_serialized task of Inr p \<Rightarrow> Some p | Inl _ \<Rightarrow> None)"
  by (simp add: resolve_builder_def apply_overrides_def Let_def override_with_None typed_submit_builder_def with_typed_defaults_def
      module_submit_def builder_new_def with_depends_on_all_def apply_defaults_def scalar_default_keys merge_tags_def apply_prefix_def)

lemma context_payload_of:
  "t_payload (tx_record ctx) = Some b \<Longrightarrow> from_slice c b = Inr v \<Longrightarrow> context_payload c ctx = Inr v"
  by (simp add: context_payload_def deserialize_payload_def)

lemma populate_tags_values: "t_payload (populate_tags st r) = t_payload r" "t_memo (populate_tags st r) = t_memo r"
  by (simp_all add: populate_tags_def split: list.split)

lemma task_by_rowid_update:
  assumes "\<And>r. t_id (f r) = t_id r"
  shows "task_by_rowid i (upd_tasks p f d) = map_option (\<lambda>r. if p r then f r else r) (task_by_rowid i d)"
proof -
  have "find (\<lambda>r. t_id r = i) (map (\<lambda>r. if p r then f r else r) ts) = map_option (\<lambda>r. if p r then f r else r) (find (\<lambda>r. t_id r = i) ts)" for ts
    by (induction ts) (auto simp: assms)
  then show ?thesis by (simp add: task_by_rowid_def sql_lookup_def upd_tasks_def sql_update_def)
qed

lemma waiting_row:
  assumes "task_by_rowid i d = Some r" and "t_status r = Running"
  shows "task_by_rowid i (set_running_for_finalize now i (set_waiting i memo d))
    = Some (r\<lparr>t_status := Running, t_started_at := Some now, t_memo := memo\<rparr>)"
proof -
  have "t_id r = i" using task_by_rowid_in [OF assms(1)] by simp
  with assms show ?thesis
    by (simp add: set_running_for_finalize_def set_waiting_def task_by_rowid_update)
qed


text \<open>A codec that writes a list of bytes as it is, and an executor that returns its payload.\<close>

definition plain_codec :: "bytes codec" where
  "plain_codec = \<lparr>to_vec = Inr, from_slice = Inr, from_null = Inl ''null''\<rparr>"

definition example_row :: task_record where
  "example_row = run_row 6 ((submission_row 5 (resolve_builder (typed_submit_builder 5 example_handle example_task)) ''k'')\<lparr>t_id := 1\<rparr>)"

definition example_context :: task_context where
  "example_context = \<lparr>tx_record = example_row, tx_token = 0, tx_module_registry = [], tx_owning_module = ''m'', tx_aging_config = None\<rparr>"

definition finalize_context :: task_context where
  "finalize_context = example_context\<lparr>tx_record := example_row\<lparr>t_status := Running, t_started_at := Some 9, t_memo := Some [1]\<rparr>\<rparr>"


section \<open>Application state\<close>

text \<open>Values that executors share, one per type; the key stands for the type. A module's own
  state hides the application's.\<close>

definition state_from_entries :: "('k \<times> 'v) list \<Rightarrow> ('k, 'v) assoc" where
  "state_from_entries entries = fold (\<lambda>(k, v). AList.update k v) entries []"

definition state_insert :: "'k \<Rightarrow> 'v \<Rightarrow> ('k, 'v) assoc \<Rightarrow> ('k, 'v) assoc" where
  "state_insert k v m = AList.update k v m"

definition context_state :: "('k, 'v) assoc \<Rightarrow> ('k, 'v) assoc \<Rightarrow> 'k \<Rightarrow> 'v option" where
  "context_state module_state app_state k = (case map_of module_state k of Some v \<Rightarrow> Some v | None \<Rightarrow> map_of app_state k)"

lemma state_from_entries_map: "map_of (state_from_entries entries) = map_of (rev entries)"
proof -
  have "map_of (fold (\<lambda>(k, v). AList.update k v) entries m) = map_of m ++ map_of (rev entries)" for m
    by (induction entries arbitrary: m) (auto simp: update_conv' map_add_def fun_eq_iff split: option.split)
  then show ?thesis by (simp add: state_from_entries_def)
qed

lemma module_state_hides_application:
  "context_state (state_insert k v module_state) app_state k = Some v"
  "k \<noteq> j \<Longrightarrow> context_state (state_insert j v module_state) app_state k = context_state module_state app_state k"
  by (simp_all add: context_state_def state_insert_def update_conv')

end
