(* ===== verification/Progress.thy ===== *)
theory Progress
  imports Scheduler_System
begin

text \<open>
  Progress and dashboards: the byte counters of an execution
  (\<open>src/src/registry/io_tracker.rs\<close>), the smoothed throughput, the ticker that publishes it
  and the estimates (\<open>src/src/scheduler/progress.rs\<close>), and the snapshots of the scheduler and
  of a module (\<open>src/src/scheduler/queries.rs\<close>, \<open>src/src/module.rs\<close>).

  The counters are shared by an executor and the active map, so they are a function from the
  token of an execution to its counters, which every operation that reads them takes. Wall
  clock readings are in milliseconds and monotonic ones in nanoseconds; all readings within
  one pass of the ticker are the same. \<open>f32\<close> and \<open>f64\<close> are exact rationals. A panic of the
  ticker is a ticker that is no longer alive.
\<close>

section \<open>Byte counters\<close>

record io_tracker =
  trk_read_bytes :: "64 word"
  trk_write_bytes :: "64 word"
  trk_net_rx_bytes :: "64 word"
  trk_net_tx_bytes :: "64 word"
  trk_progress_bytes :: "64 word"
  trk_total_bytes :: "64 word"

definition tracker_new :: io_tracker where
  "tracker_new = \<lparr>trk_read_bytes = 0, trk_write_bytes = 0, trk_net_rx_bytes = 0, trk_net_tx_bytes = 0,
     trk_progress_bytes = 0, trk_total_bytes = - 1\<rparr>"

definition tracker_snapshot :: "io_tracker \<Rightarrow> io_budget" where
  "tracker_snapshot t = \<lparr>disk_read = sint (trk_read_bytes t), disk_write = sint (trk_write_bytes t),
     net_rx = sint (trk_net_rx_bytes t), net_tx = sint (trk_net_tx_bytes t)\<rparr>"

definition record_read_bytes :: "64 word \<Rightarrow> io_tracker \<Rightarrow> io_tracker" where
  "record_read_bytes n t = t\<lparr>trk_read_bytes := trk_read_bytes t + n\<rparr>"

definition record_write_bytes :: "64 word \<Rightarrow> io_tracker \<Rightarrow> io_tracker" where
  "record_write_bytes n t = t\<lparr>trk_write_bytes := trk_write_bytes t + n\<rparr>"

definition record_net_rx_bytes :: "64 word \<Rightarrow> io_tracker \<Rightarrow> io_tracker" where
  "record_net_rx_bytes n t = t\<lparr>trk_net_rx_bytes := trk_net_rx_bytes t + n\<rparr>"

definition record_net_tx_bytes :: "64 word \<Rightarrow> io_tracker \<Rightarrow> io_tracker" where
  "record_net_tx_bytes n t = t\<lparr>trk_net_tx_bytes := trk_net_tx_bytes t + n\<rparr>"

definition set_total :: "64 word \<Rightarrow> io_tracker \<Rightarrow> io_tracker" where
  "set_total n t = t\<lparr>trk_total_bytes := n\<rparr>"

definition add_progress :: "64 word \<Rightarrow> io_tracker \<Rightarrow> io_tracker" where
  "add_progress delta t = t\<lparr>trk_progress_bytes := trk_progress_bytes t + delta\<rparr>"

definition set_progress :: "64 word \<Rightarrow> io_tracker \<Rightarrow> io_tracker" where
  "set_progress n t = t\<lparr>trk_progress_bytes := n\<rparr>"

definition report_bytes :: "64 word \<Rightarrow> 64 word \<Rightarrow> io_tracker \<Rightarrow> io_tracker" where
  "report_bytes part whole t = set_total whole (set_progress part t)"

definition progress_snapshot :: "io_tracker \<Rightarrow> 64 word \<times> 64 word option" where
  "progress_snapshot t =
     (trk_progress_bytes t, if trk_total_bytes t = - 1 then None else Some (trk_total_bytes t))"

record byte_snapshot =
  bs_task_id :: int
  bs_task_type :: string
  bs_key :: string
  bs_label :: string
  bs_completed :: "64 word"
  bs_total :: "64 word option"
  bs_parent_id :: "int option"
  bs_started_at :: instant

definition byte_snapshot_of :: "(nat \<Rightarrow> io_tracker) \<Rightarrow> active_task \<Rightarrow> byte_snapshot" where
  "byte_snapshot_of io a =
     (case progress_snapshot (io (at_token a)) of (part, whole) \<Rightarrow>
        \<lparr>bs_task_id = t_id (at_record a), bs_task_type = t_task_type (at_record a), bs_key = t_key (at_record a),
         bs_label = t_label (at_record a), bs_completed = part, bs_total = whole,
         bs_parent_id = t_parent_id (at_record a), bs_started_at = at_started_at a\<rparr>)"

definition byte_progress_snapshots :: "(nat \<Rightarrow> io_tracker) \<Rightarrow> string option \<Rightarrow> scheduler \<Rightarrow> byte_snapshot list" where
  "byte_progress_snapshots io prefix s =
     map (byte_snapshot_of io \<circ> snd)
       (filter (\<lambda>(_, a). case prefix of None \<Rightarrow> True | Some p \<Rightarrow> starts_with p (t_task_type (at_record a))) (s_active s))"

section \<open>Smoothed throughput\<close>

record throughput_tracker =
  tpt_last_bytes :: "64 word"
  tpt_last_sample :: "instant option"
  tpt_smoothed_bps :: rat
  tpt_alpha :: rat

definition throughput_new :: "rat \<Rightarrow> throughput_tracker" where
  "throughput_new alpha = \<lparr>tpt_last_bytes = 0, tpt_last_sample = None, tpt_smoothed_bps = 0, tpt_alpha = alpha\<rparr>"

definition instantaneous_bps :: "duration \<Rightarrow> 64 word \<Rightarrow> throughput_tracker \<Rightarrow> rat" where
  "instantaneous_bps delta n t = of_nat (unat n - unat (tpt_last_bytes t)) / (of_nat delta / 10 ^ 9)"

text \<open>The subtraction saturates, as the one on natural numbers does.\<close>

definition sample :: "instant \<Rightarrow> 64 word \<Rightarrow> throughput_tracker \<Rightarrow> throughput_tracker \<times> rat" where
  "sample now n t =
     (case tpt_last_sample t of
        None \<Rightarrow> (t\<lparr>tpt_last_bytes := n, tpt_last_sample := Some now\<rparr>, 0)
      | Some last_time \<Rightarrow>
          (let delta = nat (now - last_time)
           in if as_millis delta < 10 then (t, tpt_smoothed_bps t)
              else (let inst = instantaneous_bps delta n t;
                        bps = (if tpt_smoothed_bps t = 0 then inst
                               else tpt_alpha t * inst + (1 - tpt_alpha t) * tpt_smoothed_bps t)
                    in (t\<lparr>tpt_smoothed_bps := bps, tpt_last_bytes := n, tpt_last_sample := Some now\<rparr>, bps))))"

section \<open>The progress ticker\<close>

record task_progress =
  tp_task_id :: int
  tp_task_type :: string
  tp_key :: string
  tp_label :: string
  tp_bytes_completed :: "64 word"
  tp_bytes_total :: "64 word option"
  tp_throughput_bps :: rat
  tp_elapsed :: duration
  tp_eta :: "duration option"

text \<open>\<open>Duration::from_secs_f64\<close> rounds to nanoseconds and panics on a negative value and on
  one that 64 bits of seconds do not hold.\<close>

definition round_half_even :: "rat \<Rightarrow> int" where
  "round_half_even x =
     (let f = \<lfloor>x\<rfloor>; d = x - of_int f in if d < 1 / 2 \<or> (d = 1 / 2 \<and> even f) then f else f + 1)"

definition from_secs_f64 :: "rat \<Rightarrow> duration option" where
  "from_secs_f64 x =
     (if x < 0 then None
      else (let n = nat (round_half_even (x * 10 ^ 9)) in if n < 2 ^ 64 * 10 ^ 9 then Some n else None))"

definition progress_eta :: "rat \<Rightarrow> byte_snapshot \<Rightarrow> duration option option" where
  "progress_eta throughput b =
     (case bs_total b of
        None \<Rightarrow> Some None
      | Some whole \<Rightarrow>
          if throughput > 0 \<and> bs_completed b < whole
          then map_option Some (from_secs_f64 (of_nat (unat (whole - bs_completed b)) / throughput))
          else Some None)"

definition published :: "instant \<Rightarrow> rat \<Rightarrow> duration option \<Rightarrow> byte_snapshot \<Rightarrow> task_progress" where
  "published now throughput eta b =
     \<lparr>tp_task_id = bs_task_id b, tp_task_type = bs_task_type b, tp_key = bs_key b, tp_label = bs_label b,
      tp_bytes_completed = bs_completed b, tp_bytes_total = bs_total b, tp_throughput_bps = throughput,
      tp_elapsed = nat (now - bs_started_at b), tp_eta = eta\<rparr>"

record progress_ticker =
  pt_trackers :: "(int, throughput_tracker) assoc"
  pt_sent :: "task_progress list"
  pt_alive :: bool

definition ticker_new :: progress_ticker where
  "ticker_new = \<lparr>pt_trackers = [], pt_sent = [], pt_alive = True\<rparr>"

definition tracker_for :: "int \<Rightarrow> progress_ticker \<Rightarrow> throughput_tracker" where
  "tracker_for i pt = (case map_of (pt_trackers pt) i of Some t \<Rightarrow> t | None \<Rightarrow> throughput_new (3 / 10))"

definition tick_task :: "instant \<Rightarrow> byte_snapshot \<Rightarrow> progress_ticker \<Rightarrow> progress_ticker" where
  "tick_task now b pt =
     (if \<not> pt_alive pt \<or> bs_completed b = 0 then pt
      else (let t = fst (sample now (bs_completed b) (tracker_for (bs_task_id b) pt));
                throughput = tpt_smoothed_bps t;
                pt1 = pt\<lparr>pt_trackers := AList.update (bs_task_id b) t (pt_trackers pt)\<rparr>
            in case progress_eta throughput b of
                 None \<Rightarrow> pt1\<lparr>pt_alive := False\<rparr>
               | Some eta \<Rightarrow> pt1\<lparr>pt_sent := pt_sent pt1 @ [published now throughput eta b]\<rparr>))"

definition progress_tick :: "instant \<Rightarrow> (nat \<Rightarrow> io_tracker) \<Rightarrow> scheduler \<Rightarrow> progress_ticker \<Rightarrow> progress_ticker" where
  "progress_tick now io s pt =
     (let snapshots = byte_progress_snapshots io None s;
          pt1 = fold (tick_task now) snapshots pt
      in if pt_alive pt1
         then pt1\<lparr>pt_trackers := filter (\<lambda>(i, _). i \<in> set (map bs_task_id snapshots)) (pt_trackers pt1)\<rparr>
         else pt1)"

text \<open>The ticker sees the counters and the scheduler as they are at each of its wake-ups.\<close>

definition run_progress_ticker :: "(instant \<times> (nat \<Rightarrow> io_tracker) \<times> scheduler) list \<Rightarrow> progress_ticker" where
  "run_progress_ticker seen = fold (\<lambda>(now, io, s). progress_tick now io s) seen ticker_new"

section \<open>Estimates\<close>

record estimated_progress =
  ep_header :: task_event_header
  ep_reported_percent :: "rat option"
  ep_extrapolated_percent :: "rat option"
  ep_percent :: rat

text \<open>The fraction of a task that started at \<open>started\<close>, where tasks of its type take
  \<open>avg\<close> milliseconds on average.\<close>

definition extrapolated :: "rat \<Rightarrow> timestamp \<Rightarrow> timestamp \<Rightarrow> rat option \<Rightarrow> timestamp option \<Rightarrow> rat" where
  "extrapolated avg now started reported reported_at =
     (case (reported, reported_at) of
        (Some rp, Some rat_) \<Rightarrow>
          (let current = rp / of_int (max (rat_ - started) 1);
               blended = (1 / avg + current) / 2
           in min (rp + blended * of_int (max (now - rat_) 0)) (99 / 100))
      | _ \<Rightarrow> min (of_int (now - started) * (1 / avg)) (99 / 100))"

definition extrapolate ::
    "rat \<Rightarrow> timestamp \<Rightarrow> db \<Rightarrow> task_record \<times> rat option \<times> timestamp option \<Rightarrow> estimated_progress" where
  "extrapolate null_real now d = (\<lambda>(record, reported, reported_at).
     let avg = ts_avg_duration_ms (history_stats null_real (t_task_type record) d);
         ex = (case t_started_at record of
                 None \<Rightarrow> None
               | Some started \<Rightarrow> if avg > 0 then Some (extrapolated avg now started reported reported_at) else None)
     in \<lparr>ep_header = event_header record, ep_reported_percent = reported, ep_extrapolated_percent = ex,
         ep_percent = (case reported of Some p \<Rightarrow> p | None \<Rightarrow> (case ex of Some p \<Rightarrow> p | None \<Rightarrow> 0))\<rparr>)"

definition sched_estimated_progress :: "rat \<Rightarrow> timestamp \<Rightarrow> string option \<Rightarrow> scheduler \<Rightarrow> estimated_progress list" where
  "sched_estimated_progress null_real now prefix s =
     map (extrapolate null_real now (st_db (s_store s))) (progress_snapshots prefix s)"

definition byte_progress :: "instant \<Rightarrow> (nat \<Rightarrow> io_tracker) \<Rightarrow> string option \<Rightarrow> scheduler \<Rightarrow> task_progress list" where
  "byte_progress tick io prefix s =
     map (published tick 0 None) (filter (\<lambda>b. bs_completed b > 0) (byte_progress_snapshots io prefix s))"

section \<open>Dashboards\<close>

record metrics_snapshot =
  ms_counters :: scheduler_counters
  ms_pending :: nat
  ms_running :: nat
  ms_blocked :: nat
  ms_paused :: nat
  ms_waiting :: nat
  ms_pressure :: rat
  ms_max_concurrency :: nat
  ms_groups_paused :: nat

definition sched_metrics_snapshot :: "scheduler \<Rightarrow> metrics_snapshot" where
  "sched_metrics_snapshot s =
     (let d = st_db (s_store s)
      in \<lparr>ms_counters = s_counters s, ms_pending = pending_count d, ms_running = active_count s,
          ms_blocked = blocked_count d, ms_paused = paused_count d, ms_waiting = waiting_count d,
          ms_pressure = aggregate_pressure (dg_pressure (s_gate s)), ms_max_concurrency = s_max_concurrency s,
          ms_groups_paused = length (s_paused_groups s)\<rparr>)"

record paused_group_row =
  pgi_group :: string
  pgi_paused_at :: timestamp
  pgi_paused_task_count :: nat
  pgi_resume_at :: "timestamp option"

text \<open>A number of milliseconds outside the range of \<open>chrono\<close> shows as the epoch, or as no
  resume time.\<close>

definition paused_group_rows :: "(int \<Rightarrow> bool) \<Rightarrow> db \<Rightarrow> paused_group_row list" where
  "paused_group_rows representable d =
     map (\<lambda>(g, paused_at, resume_at, n).
            \<lparr>pgi_group = g, pgi_paused_at = (if representable paused_at then paused_at else 0), pgi_paused_task_count = n,
             pgi_resume_at = Option.bind resume_at (\<lambda>t. if representable t then Some t else None)\<rparr>)
       (paused_group_info d)"

record group_allocation_info =
  gai_group :: string
  gai_weight :: "32 word"
  gai_allocated_slots :: nat
  gai_running :: nat
  gai_pending :: nat
  gai_min_slots :: "nat option"
  gai_cap :: "nat option"

definition group_allocations :: "timestamp \<Rightarrow> scheduler \<Rightarrow> group_allocation_info list" where
  "group_allocations now s =
     (if is_configured (s_group_weights s)
      then map (\<lambda>(g, dem).
             \<lparr>gai_group = (case g of Some key \<Rightarrow> key | None \<Rightarrow> ''''), gai_weight = weight_of (s_group_weights s) g,
              gai_allocated_slots = 0, gai_running = d_running dem, gai_pending = d_pending dem,
              gai_min_slots = Option.bind g (min_slots_for (s_group_weights s)), gai_cap = cap_of (s_group_limits s) g\<rparr>)
           (merge_demand (running_counts_per_group (st_db (s_store s))) (pending_counts_per_group now (st_db (s_store s))))
      else [])"

record scheduler_snapshot =
  ss_running :: "task_record list"
  ss_pending_count :: nat
  ss_paused_count :: nat
  ss_waiting_count :: nat
  ss_progress :: "estimated_progress list"
  ss_pressure :: rat
  ss_pressure_breakdown :: "(string \<times> rat) list"
  ss_max_concurrency :: nat
  ss_byte_progress :: "task_progress list"
  ss_is_paused :: bool
  ss_recurring_schedules :: "recurring_schedule_info list"
  ss_blocked_count :: nat
  ss_paused_groups :: "paused_group_row list"
  ss_rate_limits :: "rate_limit_info list"
  ss_aging_config :: "aging_config option"
  ss_group_allocations :: "group_allocation_info list"

text \<open>Reading the rate limits refills the buckets.\<close>

definition sched_snapshot ::
    "rat \<Rightarrow> (int \<Rightarrow> bool) \<Rightarrow> timestamp \<Rightarrow> instant \<Rightarrow> (nat \<Rightarrow> io_tracker) \<Rightarrow> scheduler \<Rightarrow> scheduler \<times> scheduler_snapshot" where
  "sched_snapshot null_real representable now tick io s =
     (let d = st_db (s_store s);
          (types, type_infos) = snapshot_info tick ''type'' (s_type_rate_limits s);
          (groups, group_infos) = snapshot_info tick ''group'' (s_group_rate_limits s)
      in (s\<lparr>s_type_rate_limits := types, s_group_rate_limits := groups\<rparr>,
          \<lparr>ss_running = active_records None s, ss_pending_count = pending_count d, ss_paused_count = paused_count d,
           ss_waiting_count = waiting_count d, ss_progress = sched_estimated_progress null_real now None s,
           ss_pressure = aggregate_pressure (dg_pressure (s_gate s)),
           ss_pressure_breakdown = pressure_breakdown (dg_pressure (s_gate s)), ss_max_concurrency = s_max_concurrency s,
           ss_byte_progress = byte_progress tick io None s, ss_is_paused = s_paused s,
           ss_recurring_schedules = recurring_schedules d, ss_blocked_count = blocked_count d,
           ss_paused_groups = paused_group_rows representable d, ss_rate_limits = type_infos @ group_infos,
           ss_aging_config = s_aging_config s, ss_group_allocations = group_allocations now s\<rparr>))"

record module_snapshot =
  mss_running :: "task_record list"
  mss_pending_count :: nat
  mss_paused_count :: nat
  mss_progress :: "estimated_progress list"
  mss_byte_progress :: "task_progress list"
  mss_is_paused :: bool

definition module_take_snapshot ::
    "rat \<Rightarrow> timestamp \<Rightarrow> instant \<Rightarrow> (nat \<Rightarrow> io_tracker) \<Rightarrow> module_handle \<Rightarrow> scheduler \<Rightarrow> module_snapshot" where
  "module_take_snapshot null_real now tick io h s =
     (let d = st_db (s_store s); prefix = mh_prefix h
      in \<lparr>mss_running = active_records (Some prefix) s, mss_pending_count = pending_count_by_prefix prefix d,
          mss_paused_count = paused_count_by_prefix prefix d,
          mss_progress = sched_estimated_progress null_real now (Some prefix) s,
          mss_byte_progress = byte_progress tick io (Some prefix) s, mss_is_paused = module_is_paused h s\<rparr>)"

section \<open>Estimates are fractions\<close>

definition reports_ok :: "(int, active_task) assoc \<Rightarrow> bool" where
  "reports_ok act \<longleftrightarrow> (\<forall>(i, a) \<in> set act. \<forall>x. at_reported_progress a = Some x \<longrightarrow> 0 \<le> x \<and> x \<le> 1)"

lemma reports_ok_update:
  "reports_ok act \<Longrightarrow> (\<And>x. at_reported_progress b = Some x \<Longrightarrow> 0 \<le> x \<and> x \<le> 1) \<Longrightarrow> reports_ok (AList.update i b act)"
  using set_update_subset [of i b act] by (fastforce simp: reports_ok_def)

interpretation reports: scheduler_contract sha256_hex True "\<lambda>st act ex n c. reports_ok act" for sha256_hex
proof (unfold_locales, goal_cases)
  case (2 st act ex n c a task phase) then show ?case by (auto intro: reports_ok_update)
next
  case (3 st act ex n c i a b x) then show ?case by (auto intro: reports_ok_update)
next
  case (4 st act ex n c p) then show ?case by (auto simp: reports_ok_def)
next
  case (9 st act ex n c now tick bd t) then show ?case by (elim built_assembled) (simp add: assemble_core reports_ok_def)
qed simp_all

interpretation reports_sys: invariant_system sched_init "sched_step sha256_hex True" "\<lambda>s. reports_ok (s_active s)" for sha256_hex
proof
  show "sched_init s \<Longrightarrow> reports_ok (s_active s)" for s
    by (auto simp: sched_init_def reports_ok_def assemble_core elim!: built_assembled)
  show "reports_ok (s_active s) \<Longrightarrow> sched_step sha256_hex True s t \<Longrightarrow> reports_ok (s_active t)" for s t
    using reports.h_step [of sha256_hex s t] by (simp add: holds_def)
qed

lemma extrapolated_le: "extrapolated avg now started reported reported_at \<le> 99 / 100"
  unfolding extrapolated_def Let_def by (auto split: option.split simp del: divide_le_eq_numeral1 le_divide_eq_numeral1)

lemma blended_nonneg: "0 < avg \<Longrightarrow> 0 \<le> x \<Longrightarrow> 0 \<le> (1 / avg + x / rat_of_int (max k 1)) / 2"
  by (intro divide_nonneg_nonneg add_nonneg_nonneg) auto

lemma extrapolated_from_report:
  assumes "0 < avg" and "0 \<le> x"
  shows "min x (99 / 100) \<le> extrapolated avg now started (Some x) (Some t)"
  using mult_nonneg_nonneg [OF blended_nonneg [OF assms, of "t - started"], of "rat_of_int (max (now - t) 0)"]
  unfolding extrapolated_def Let_def prod.case option.case by (intro min.mono) linarith+

lemma extrapolated_unreported:
  "reported = None \<or> reported_at = None
   \<Longrightarrow> extrapolated avg now started reported reported_at = min (rat_of_int (now - started) * (1 / avg)) (99 / 100)"
  by (auto simp: extrapolated_def split: option.split)

lemma extrapolated_nonneg:
  assumes "0 < avg" and "started \<le> now" and "\<And>x. reported = Some x \<Longrightarrow> 0 \<le> x"
  shows "0 \<le> extrapolated avg now started reported reported_at"
proof (cases "reported = None \<or> reported_at = None")
  case True
  have "0 \<le> rat_of_int (now - started) * (1 / avg)" using assms(1,2) by simp
  then show ?thesis unfolding extrapolated_unreported [OF True] by (simp add: min_def)
next
  case False
  then obtain x t where r: "reported = Some x" "reported_at = Some t" by auto
  have "0 \<le> min x (99 / 100)" using assms(3) [OF r(1)] by (simp add: min_def)
  also have "\<dots> \<le> extrapolated avg now started reported reported_at"
    unfolding r by (rule extrapolated_from_report [OF assms(1) assms(3) [OF r(1)]])
  finally show ?thesis .
qed

lemma extrapolated_mono:
  assumes "0 < avg" and "now \<le> now'" and "\<And>x. reported = Some x \<Longrightarrow> 0 \<le> x"
  shows "extrapolated avg now started reported reported_at \<le> extrapolated avg now' started reported reported_at"
proof (cases "reported = None \<or> reported_at = None")
  case True
  have "rat_of_int (now - started) * (1 / avg) \<le> rat_of_int (now' - started) * (1 / avg)"
    using assms(1,2) by (intro mult_right_mono) auto
  then show ?thesis unfolding extrapolated_unreported [OF True] by (rule min.mono) simp
next
  case False
  then obtain x t where r: "reported = Some x" "reported_at = Some t" by auto
  have "(1 / avg + x / rat_of_int (max (t - started) 1)) / 2 * rat_of_int (max (now - t) 0)
      \<le> (1 / avg + x / rat_of_int (max (t - started) 1)) / 2 * rat_of_int (max (now' - t) 0)"
    by (rule mult_left_mono) (use assms(2) blended_nonneg [OF assms(1) assms(3) [OF r(1)]] in auto)
  then show ?thesis
    unfolding r extrapolated_def Let_def prod.case option.case by (intro min.mono add_left_mono) auto
qed

text \<open>C35: in every reachable scheduler whose clock has not gone back behind the start of a
  running task, the progress shown for a task is a fraction, an extrapolated one is at most
  99 percent, and what is shown does not fall as time passes unless the executor reports a
  lower value: an unchanged scheduler read later shows at least the same for every task.\<close>

theorem estimates_are_fractions:
  assumes "reachable sched_init (sched_step sha256_hex True) s"
    and "\<forall>(i, a) \<in> set (s_active s). \<forall>started. t_started_at (at_record a) = Some started \<longrightarrow> started \<le> now"
    and "now \<le> now'"
  shows "list_all (\<lambda>e. 0 \<le> ep_percent e \<and> ep_percent e \<le> 1
      \<and> (\<forall>x. ep_extrapolated_percent e = Some x \<longrightarrow> 0 \<le> x \<and> x \<le> 99 / 100)) (sched_estimated_progress null_real now prefix s)
    \<and> list_all2 (\<lambda>e e'. ep_header e' = ep_header e \<and> ep_percent e \<le> ep_percent e')
        (sched_estimated_progress null_real now prefix s) (sched_estimated_progress null_real now' prefix s)"
proof -
  let ?d = "st_db (s_store s)"
  let ?ok = "\<lambda>(record, reported, reported_at). (\<forall>x. reported = Some x \<longrightarrow> 0 \<le> x \<and> x \<le> 1)
    \<and> (\<forall>started. t_started_at record = Some started \<longrightarrow> started \<le> now)"
  have all: "\<forall>p \<in> set (progress_snapshots prefix s). ?ok p"
    using reports_sys.inv_reachable [OF assms(1)] assms(2) by (auto simp: progress_snapshots_def reports_ok_def)
  have one: "0 \<le> ep_percent (extrapolate null_real now ?d p) \<and> ep_percent (extrapolate null_real now ?d p) \<le> 1
      \<and> (\<forall>x. ep_extrapolated_percent (extrapolate null_real now ?d p) = Some x \<longrightarrow> 0 \<le> x \<and> x \<le> 99 / 100)" if "?ok p" for p
  proof -
    obtain row reported reported_at where p: "p = (row, reported, reported_at)" by (cases p) auto
    have "0 \<le> extrapolated avg now started reported reported_at \<and> extrapolated avg now started reported reported_at \<le> 99 / 100"
      if "t_started_at row = Some started" "0 < avg" for avg started
      using \<open>?ok p\<close> that p by (simp add: extrapolated_nonneg extrapolated_le del: le_divide_eq_numeral1)
    then have ex: "0 \<le> x \<and> x \<le> 99 / 100" if "ep_extrapolated_percent (extrapolate null_real now ?d p) = Some x" for x
      using that p by (auto simp: extrapolate_def Let_def simp del: le_divide_eq_numeral1 split: option.splits if_splits)
    have "ep_percent (extrapolate null_real now ?d p)
        = (case reported of Some x \<Rightarrow> x | None \<Rightarrow> (case ep_extrapolated_percent (extrapolate null_real now ?d p) of Some x \<Rightarrow> x | None \<Rightarrow> 0))"
      unfolding p by (cases reported) (simp_all add: extrapolate_def Let_def)
    with ex \<open>?ok p\<close> p show ?thesis by (fastforce split: option.splits)
  qed
  have two: "ep_header (extrapolate null_real now' ?d p) = ep_header (extrapolate null_real now ?d p)
      \<and> ep_percent (extrapolate null_real now ?d p) \<le> ep_percent (extrapolate null_real now' ?d p)" if "?ok p" for p
    using that assms(3) by (cases p) (auto simp: extrapolate_def Let_def extrapolated_mono split: option.split)
  show ?thesis using all one two
    by (auto simp: sched_estimated_progress_def list_all_iff list_all2_conv_all_nth)
qed

text \<open>A task is submitted, started, and reports that it is half done.\<close>

definition waiting_scheduler :: scheduler where
  "waiting_scheduler = fst (sched_submit plain_hex 5 (submission_new ''m::t'') example_scheduler)"

definition half_done :: scheduler where
  "half_done = report 10 (event_header (sample_row 1 ''a'' Running)) (1 / 2) None (fst (try_dispatch (\<lambda>_. 0) 6 0 waiting_scheduler))"

lemma half_done_reachable: "reachable sched_init (sched_step plain_hex True) half_done"
  unfolding half_done_def waiting_scheduler_def
  by (rule reachable_step [OF reachable_step [OF example_reachable]]) (rule sc_try_dispatch sc_report)+

lemma fresh_submit: "submit_direct plain_hex 5 (submission_new ''m::t'') open_memory
    = (open_memory\<lparr>st_db := empty_db\<lparr>tasks := [(submission_row 5 (submission_new ''m::t'') (effective_key plain_hex (submission_new ''m::t'')))\<lparr>t_id := 1\<rparr>]\<rparr>\<rparr>,
       Inr (Inserted 1 False))"
proof -
  let ?sub = "submission_new ''m::t''"
  have f: "sub_payload_error ?sub = None" "sub_tags ?sub = []" "sub_parent_id ?sub = None"
    "sub_dependencies ?sub = []" "sub_group_key ?sub = None" "validate_tags [] = Inr ()"
    by code_simp+
  show ?thesis
    by (simp add: submit_direct_def in_transaction_def submit_one_def f Let_def on_db_def andThen_def insert_or_ignore_task_def
        open_memory_def empty_db_def sql_exists_def next_rowid_def submit_inserted_def insert_tags_flagged_def insert_tags_def
        insert_dependencies_def group_is_paused_def pause_inserted_def upd_tasks_def sql_update_def)
qed

lemma waiting_fields:
  "s_store waiting_scheduler = open_memory\<lparr>st_db := empty_db\<lparr>tasks := [(submission_row 5 (submission_new ''m::t'')
     (effective_key plain_hex (submission_new ''m::t'')))\<lparr>t_id := 1\<rparr>]\<rparr>\<rparr>"
  "s_fast_dispatch waiting_scheduler" "s_active waiting_scheduler = []" "s_max_concurrency waiting_scheduler = 1"
  "s_registry waiting_scheduler = s_registry example_scheduler"
proof -
  let ?sub = "submission_new ''m::t''"
  have ok: "prevalidate ?sub = Inr ()" "pvalue (sub_priority ?sub) \<noteq> 0" "resolve_ttl example_scheduler ?sub = ?sub"
    "s_store example_scheduler = open_memory" "s_submit_queue example_scheduler = []" "pvalue (s_preempt_priority example_scheduler) = 0"
    "s_active example_scheduler = []" "s_max_concurrency example_scheduler = 1"
    by code_simp+
  show "s_store waiting_scheduler = open_memory\<lparr>st_db := empty_db\<lparr>tasks := [(submission_row 5 (submission_new ''m::t'')
     (effective_key plain_hex (submission_new ''m::t'')))\<lparr>t_id := 1\<rparr>]\<rparr>\<rparr>"
  "s_fast_dispatch waiting_scheduler" "s_active waiting_scheduler = []" "s_max_concurrency waiting_scheduler = 1"
  "s_registry waiting_scheduler = s_registry example_scheduler"
    using ok example_fast(1) by (simp_all add: waiting_scheduler_def sched_submit_def Let_def submit_def fresh_submit after_submits_def
        after_submit_def count_outcome_def handle_superseded_def changed_def preempt_for_def notify_def count_def)
qed

lemma waiting_aging: "s_aging_config waiting_scheduler = None"
proof -
  have "s_aging_config example_scheduler = None" by code_simp
  moreover have "prevalidate (submission_new ''m::t'') = Inr ()" "resolve_ttl example_scheduler (submission_new ''m::t'') = submission_new ''m::t''"
    "s_store example_scheduler = open_memory" "s_submit_queue example_scheduler = []" "pvalue (s_preempt_priority example_scheduler) = 0"
    "pvalue (sub_priority (submission_new ''m::t'')) \<noteq> 0"
    by code_simp+
  ultimately show ?thesis
    by (simp add: waiting_scheduler_def sched_submit_def Let_def submit_def fresh_submit after_submits_def
        after_submit_def count_outcome_def handle_superseded_def changed_def preempt_for_def notify_def count_def)
qed

lemma half_done_active:
  "\<exists>a. s_active half_done = [(1, a)] \<and> at_reported_progress a = Some (1 / 2) \<and> t_started_at (at_record a) = Some 6"
proof -
  let ?st = "s_store waiting_scheduler"
  have "map_option (\<lambda>r. (t_id r, t_task_type r, t_started_at r)) (snd (pop_next 6 None ?st)) = Some (1, ''m::t'', Some 6)"
    unfolding waiting_fields
    by (simp add: pop_next_def dispatch_queue_def order_by_def sql_select_def eligible_def unexpired_def run_row_def submission_row_def
        base_row_def submission_new_def ttl_expires_at_def split: option.split)
  then obtain r where r: "snd (pop_next 6 None ?st) = Some r" "t_id r = 1" "t_task_type r = ''m::t''" "t_started_at r = Some 6"
    by auto
  then obtain st' where pop: "pop_next 6 None ?st = (st', Some r)" by (cases "pop_next 6 None ?st") auto
  have reg: "is_registered (s_registry example_scheduler) ''m::t''" by code_simp
  have tags: "t_id (populate_tags st' r) = 1" "t_task_type (populate_tags st' r) = ''m::t''" "t_started_at (populate_tags st' r) = Some 6"
    using r(2-4) by (simp_all add: populate_tags_def split: list.split option.split)
  have "s_active (fst (try_dispatch (\<lambda>_. 0) 6 0 waiting_scheduler))
      = [(1, \<lparr>at_record = populate_tags st' r, at_token = s_next_token waiting_scheduler, at_reported_progress = None,
              at_reported_at = None, at_started_at = 0\<rparr>)]"
    using pop tags reg waiting_fields(2-)
    by (simp add: try_dispatch_def active_count_def current_aging_def waiting_aging on_store_def spawn_dispatched_task_def
        spawn_task_def Let_def emit_def count_def module_add_def active_insert_def split: option.split)
  then show ?thesis using tags(3)
    by (simp add: half_done_def report_def Let_def update_progress_def emit_def event_header_def event_header_with_aging_def sample_row_def)
qed

theorem estimates_are_fractions_witness:
  "\<exists>e. sched_estimated_progress 0 20 None half_done = [e] \<and> 0 \<le> ep_percent e \<and> ep_percent e \<le> 1 \<and> ep_percent e = 1 / 2"
proof -
  obtain a where a: "s_active half_done = [(1, a)]" "at_reported_progress a = Some (1 / 2)" "t_started_at (at_record a) = Some 6"
    using half_done_active by blast
  then have "\<forall>(i, a) \<in> set (s_active half_done). \<forall>started. t_started_at (at_record a) = Some started \<longrightarrow> started \<le> 20" by simp
  note estimates_are_fractions [OF half_done_reachable this order.refl, of 0 None]
  then show ?thesis using a by (simp add: sched_estimated_progress_def progress_snapshots_def extrapolate_def Let_def)
qed

section \<open>The throughput shown\<close>

lemma sample_steps:
  assumes "tpt_last_sample t = Some t0" and "t0 + 10000000 \<le> now"
  shows "tpt_last_sample (fst (sample now n t)) = Some now" "tpt_last_bytes (fst (sample now n t)) = n"
    "tpt_alpha (fst (sample now n t)) = tpt_alpha t"
    "tpt_smoothed_bps (fst (sample now n t))
       = (if tpt_smoothed_bps t = 0 then instantaneous_bps (nat (now - t0)) n t
          else tpt_alpha t * instantaneous_bps (nat (now - t0)) n t + (1 - tpt_alpha t) * tpt_smoothed_bps t)"
proof -
  have "\<not> as_millis (nat (now - t0)) < 10" using assms(2) by (simp add: as_millis_def)
  then show "tpt_last_sample (fst (sample now n t)) = Some now" "tpt_last_bytes (fst (sample now n t)) = n"
    "tpt_alpha (fst (sample now n t)) = tpt_alpha t"
    "tpt_smoothed_bps (fst (sample now n t))
       = (if tpt_smoothed_bps t = 0 then instantaneous_bps (nat (now - t0)) n t
          else tpt_alpha t * instantaneous_bps (nat (now - t0)) n t + (1 - tpt_alpha t) * tpt_smoothed_bps t)"
    using assms(1) by (simp_all add: sample_def Let_def)
qed

text \<open>A transfer seen at times at least ten milliseconds apart, whose measured rates all lie
  between \<open>lo\<close> and \<open>hi\<close> bytes per second.\<close>

fun rates_within :: "rat \<Rightarrow> rat \<Rightarrow> instant \<Rightarrow> 64 word \<Rightarrow> (instant \<times> 64 word) list \<Rightarrow> bool" where
  "rates_within lo hi t0 n0 [] = True"
| "rates_within lo hi t0 n0 ((t, n) # seen) \<longleftrightarrow>
     t0 + 10000000 \<le> t \<and> lo * (of_int (t - t0) / 10 ^ 9) \<le> of_nat (unat n - unat n0)
     \<and> of_nat (unat n - unat n0) \<le> hi * (of_int (t - t0) / 10 ^ 9) \<and> rates_within lo hi t n seen"

definition throughput_after :: "(instant \<times> 64 word) list \<Rightarrow> throughput_tracker" where
  "throughput_after seen = fold (\<lambda>(t, n) tr. fst (sample t n tr)) seen (throughput_new (3 / 10))"

lemma instantaneous_within:
  assumes "t0 < t" and "lo * (of_int (t - t0) / 10 ^ 9) \<le> of_nat (unat n - unat (tpt_last_bytes tr))"
    and "of_nat (unat n - unat (tpt_last_bytes tr)) \<le> hi * (of_int (t - t0) / 10 ^ 9)"
  shows "lo \<le> instantaneous_bps (nat (t - t0)) n tr \<and> instantaneous_bps (nat (t - t0)) n tr \<le> hi"
proof -
  have "rat_of_nat (nat (t - t0)) / 10 ^ 9 = of_int (t - t0) / 10 ^ 9" using assms(1) by simp
  moreover have "0 < (of_int (t - t0) :: rat) / 10 ^ 9" using assms(1) by simp
  ultimately show ?thesis
    using assms(2,3) unfolding instantaneous_bps_def by (simp only: pos_le_divide_eq pos_divide_le_eq)
qed

lemma smoothed_within:
  assumes "rates_within lo hi t0 (tpt_last_bytes tr) seen" and "0 < lo" and "tpt_last_sample tr = Some t0"
    and "tpt_alpha tr = 3 / 10" and "tpt_smoothed_bps tr = 0 \<and> seen \<noteq> [] \<or> lo \<le> tpt_smoothed_bps tr \<and> tpt_smoothed_bps tr \<le> hi"
  shows "lo \<le> tpt_smoothed_bps (fold (\<lambda>(t, n) tr. fst (sample t n tr)) seen tr)
    \<and> tpt_smoothed_bps (fold (\<lambda>(t, n) tr. fst (sample t n tr)) seen tr) \<le> hi"
  using assms
proof (induction seen arbitrary: tr t0)
  case (Cons x seen)
  obtain t n where x: "x = (t, n)" by force
  note step = sample_steps [OF Cons.prems(3), of t n]
  have t: "t0 + 10000000 \<le> t" using Cons.prems(1) x by simp
  then have "lo \<le> instantaneous_bps (nat (t - t0)) n tr \<and> instantaneous_bps (nat (t - t0)) n tr \<le> hi"
    using Cons.prems(1) x by (intro instantaneous_within) auto
  then have "lo \<le> tpt_smoothed_bps (fst (sample t n tr)) \<and> tpt_smoothed_bps (fst (sample t n tr)) \<le> hi"
    using Cons.prems(5) unfolding step(4) [OF t] Cons.prems(4) by auto
  then show ?case
    using Cons.IH [of t "fst (sample t n tr)"] Cons.prems x step(1-3) [OF t] by simp
qed auto



section \<open>A stalled transfer stops the ticker\<close>

lemma tick_task_dead [simp]: "\<not> pt_alive pt \<Longrightarrow> tick_task now b pt = pt"
  by (simp add: tick_task_def)

lemma ticks_dead: "\<not> pt_alive pt \<Longrightarrow> fold (tick_task now) bs pt = pt"
  by (induction bs) simp_all

lemma progress_tick_dead: "\<not> pt_alive pt \<Longrightarrow> progress_tick now io s pt = pt"
  by (simp add: progress_tick_def ticks_dead)

lemma tick_other: "bs_task_id b \<noteq> i \<Longrightarrow> map_of (pt_trackers (tick_task now b pt)) i = map_of (pt_trackers pt) i"
  by (auto simp: tick_task_def Let_def update_conv split: option.split)

lemma ticks_other:
  "i \<notin> bs_task_id ` set bs \<Longrightarrow> map_of (pt_trackers (fold (tick_task now) bs pt)) i = map_of (pt_trackers pt) i"
  by (induction bs arbitrary: pt) (auto simp: tick_other)

lemma tick_same:
  assumes "pt_alive (tick_task now b pt)" and "bs_completed b \<noteq> 0" and "map_of (pt_trackers pt) (bs_task_id b) = Some tr"
  shows "map_of (pt_trackers (tick_task now b pt)) (bs_task_id b) = Some (fst (sample now (bs_completed b) tr))
    \<and> progress_eta (tpt_smoothed_bps (fst (sample now (bs_completed b) tr))) b \<noteq> None"
proof -
  have "pt_alive pt" using assms(1) by (cases "pt_alive pt") auto
  with assms show ?thesis
    by (simp add: tick_task_def Let_def tracker_for_def update_conv split: option.splits)
qed

lemma map_of_kept: "p i \<Longrightarrow> map_of (filter (\<lambda>(k, _). p k) al) i = map_of al i"
  by (induction al) auto

lemma tick_keeps_tracker:
  assumes alive: "pt_alive (progress_tick now io s pt)" and ids: "distinct (map fst (s_active s))"
    and own: "\<forall>(j, a) \<in> set (s_active s). t_id (at_record a) = j"
    and a: "(i, a) \<in> set (s_active s)" and n: "progress_snapshot (io (at_token a)) = (n, whole)" "n \<noteq> 0"
    and tr: "map_of (pt_trackers pt) i = Some tr"
  shows "map_of (pt_trackers (progress_tick now io s pt)) i = Some (fst (sample now n tr))
    \<and> progress_eta (tpt_smoothed_bps (fst (sample now n tr))) (byte_snapshot_of io a) \<noteq> None"
proof -
  let ?b = "byte_snapshot_of io a"
  obtain xs ys where split: "s_active s = xs @ (i, a) # ys" using a by (meson split_list)
  let ?bs = "\<lambda>zs. map (byte_snapshot_of io \<circ> snd) zs"
  have b: "bs_task_id ?b = i" "bs_completed ?b = n" using own a n by (auto simp: byte_snapshot_of_def)
  have id: "bs_task_id (byte_snapshot_of io (snd z)) = fst z" if "z \<in> set (s_active s)" for z
    using own that by (auto simp: byte_snapshot_of_def split: prod.split)
  have "i \<notin> fst ` set xs" "i \<notin> fst ` set ys" using ids by (auto simp: split)
  then have others: "i \<notin> bs_task_id ` set (?bs xs)" "i \<notin> bs_task_id ` set (?bs ys)"
    using id by (auto simp: split image_iff)
  have snaps: "byte_progress_snapshots io None s = ?bs xs @ ?b # ?bs ys" by (simp add: byte_progress_snapshots_def split)
  define pt1 where "pt1 = fold (tick_task now) (?bs xs) pt"
  define pt2 where "pt2 = tick_task now ?b pt1"
  define pt3 where "pt3 = fold (tick_task now) (?bs ys) pt2"
  have fold: "fold (tick_task now) (byte_progress_snapshots io None s) pt = pt3" by (simp add: snaps pt1_def pt2_def pt3_def)
  have alive3: "pt_alive pt3" using alive by (simp add: progress_tick_def Let_def fold split: if_splits)
  then have "pt_alive pt2" by (cases "pt_alive pt2") (simp_all add: pt3_def ticks_dead)
  moreover have "map_of (pt_trackers pt1) i = Some tr" using ticks_other [OF others(1)] tr by (simp add: pt1_def)
  ultimately have two: "map_of (pt_trackers pt2) i = Some (fst (sample now n tr))
      \<and> progress_eta (tpt_smoothed_bps (fst (sample now n tr))) ?b \<noteq> None"
    using tick_same [of now ?b pt1 tr] b n(2) by (simp add: pt2_def)
  moreover have "map_of (pt_trackers pt3) i = map_of (pt_trackers pt2) i" using ticks_other [OF others(2)] by (simp add: pt3_def)
  moreover have "i \<in> set (map bs_task_id (byte_progress_snapshots io None s))" using b by (simp add: snaps)
  ultimately show ?thesis
    using alive3 by (simp add: progress_tick_def Let_def fold map_of_kept)
qed

lemma from_secs_overflow: "2 ^ 64 \<le> x \<Longrightarrow> from_secs_f64 x = None"
proof -
  assume x: "2 ^ 64 \<le> x"
  then have "of_int (2 ^ 64 * 10 ^ 9) \<le> x * 10 ^ 9" by simp
  then have "2 ^ 64 * 10 ^ 9 \<le> \<lfloor>x * 10 ^ 9\<rfloor>" by (simp only: le_floor_iff)
  also have "\<dots> \<le> round_half_even (x * 10 ^ 9)" by (simp add: round_half_even_def Let_def)
  finally have "\<not> nat (round_half_even (x * 10 ^ 9)) < 2 ^ 64 * 10 ^ 9" by simp
  then show ?thesis by (simp add: from_secs_f64_def Let_def)
qed

lemma decay: "0 < (r :: rat) \<Longrightarrow> 0 < c \<Longrightarrow> \<exists>k. r * (7 / 10) ^ k \<le> c"
proof -
  assume r: "0 < r" "0 < c"
  have "1 + of_nat k * (3 / 7) \<le> (10 / 7 :: rat) ^ k" for k
  proof (induction k)
    case (Suc k)
    have "1 + of_nat (Suc k) * (3 / 7) \<le> (1 + of_nat k * (3 / 7)) * (10 / 7 :: rat)"
      by (simp add: field_simps)
    also have "\<dots> \<le> (10 / 7) ^ k * (10 / 7)" using Suc by (rule mult_right_mono) simp
    finally show ?case by (simp add: mult.commute)
  qed simp
  moreover obtain k where "r / c * (7 / 3) < of_nat k" using reals_Archimedean2 by blast
  ultimately have "r / c \<le> (10 / 7) ^ k" using order.trans [of "r / c" "1 + of_nat k * (3 / 7)" "(10 / 7) ^ k"] by simp
  then have "r \<le> c * (10 / 7) ^ k" using r by (simp add: pos_divide_le_eq mult.commute)
  then have "r * (7 / 10) ^ k \<le> c * (10 / 7) ^ k * (7 / 10) ^ k" by (rule mult_right_mono) simp
  also have "\<dots> = c * ((10 / 7) * (7 / 10)) ^ k" by (simp add: power_mult_distrib [symmetric])
  finally show ?thesis by auto
qed

text \<open>The wake-ups of the ticker while it sees a sequence of schedulers and counters.\<close>

definition ticks :: "(nat \<Rightarrow> instant) \<Rightarrow> (nat \<Rightarrow> nat \<Rightarrow> io_tracker) \<Rightarrow> (nat \<Rightarrow> scheduler) \<Rightarrow> nat \<Rightarrow> progress_ticker \<Rightarrow> progress_ticker" where
  "ticks T io S k pt = fold (\<lambda>j. progress_tick (T (Suc j)) (io j) (S j)) [0..<k] pt"

definition stalled_at :: "(nat \<Rightarrow> io_tracker) \<Rightarrow> scheduler \<Rightarrow> int \<Rightarrow> 64 word \<Rightarrow> 64 word \<Rightarrow> bool" where
  "stalled_at io s i n whole \<longleftrightarrow>
     executions_ok s \<and> (\<exists>a. map_of (s_active s) i = Some a \<and> progress_snapshot (io (at_token a)) = (n, Some whole))"

lemma stalled_tick:
  assumes alive: "pt_alive (progress_tick now io s pt)" and stall: "stalled_at io s i n whole" and n: "n \<noteq> 0" "n < whole"
    and tr: "map_of (pt_trackers pt) i = Some tr" "tpt_last_sample tr = Some t0" "tpt_last_bytes tr = n" "tpt_alpha tr = 3 / 10"
      "tpt_smoothed_bps tr = r" and r: "0 < r" and now: "t0 + 10000000 \<le> now"
  shows "\<exists>tr'. map_of (pt_trackers (progress_tick now io s pt)) i = Some tr' \<and> tpt_last_sample tr' = Some now
    \<and> tpt_last_bytes tr' = n \<and> tpt_alpha tr' = 3 / 10 \<and> tpt_smoothed_bps tr' = r * (7 / 10)
    \<and> of_nat (unat (whole - n)) < r * (7 / 10) * 2 ^ 64"
proof -
  obtain a where a: "map_of (s_active s) i = Some a" "progress_snapshot (io (at_token a)) = (n, Some whole)"
    and ok: "active_ok (s_active s) (s_executions s) (s_next_token s)"
    using stall by (auto simp: stalled_at_def executions_ok_def)
  have own: "\<forall>(j, a) \<in> set (s_active s). t_id (at_record a) = j" and ids: "distinct (map fst (s_active s))"
    using ok by (auto simp: active_ok_def)
  let ?tr = "fst (sample now n tr)"
  note step = sample_steps [OF tr(2) now, of n]
  have keep: "map_of (pt_trackers (progress_tick now io s pt)) i = Some ?tr"
    and eta: "progress_eta (tpt_smoothed_bps ?tr) (byte_snapshot_of io a) \<noteq> None"
    using tick_keeps_tracker [OF alive ids own map_of_SomeD [OF a(1)] a(2) n(1) tr(1)] by blast+
  have bps: "tpt_smoothed_bps ?tr = r * (7 / 10)"
    using r tr(3) unfolding step(4) tr(4,5) by (simp add: instantaneous_bps_def)
  have b: "bs_completed (byte_snapshot_of io a) = n" "bs_total (byte_snapshot_of io a) = Some whole"
    using a(2) by (simp_all add: byte_snapshot_of_def)
  have "from_secs_f64 (of_nat (unat (whole - n)) / (r * (7 / 10))) \<noteq> None"
    using eta n(2) r by (simp add: bps progress_eta_def b)
  then have "\<not> 2 ^ 64 \<le> of_nat (unat (whole - n)) / (r * (7 / 10))" by (rule contrapos_nn) (rule from_secs_overflow)
  then have "of_nat (unat (whole - n)) / (r * (7 / 10)) < 2 ^ 64" by (simp only: linorder_not_le)
  then have "of_nat (unat (whole - n)) < 2 ^ 64 * (r * (7 / 10))" using r by (subst (asm) pos_divide_less_eq) auto
  then have "of_nat (unat (whole - n)) < r * (7 / 10) * 2 ^ 64" by (simp only: mult.commute)
  with keep bps step(1-3) show ?thesis unfolding tr(4) by (intro exI [of _ ?tr] conjI)
qed

lemma stalled_ticks:
  assumes "pt_alive (ticks T io S k pt)" and "\<And>j. stalled_at (io j) (S j) i n whole" and "n \<noteq> 0" "n < whole"
    and "map_of (pt_trackers pt) i = Some tr" "tpt_last_sample tr = Some (T 0)" "tpt_last_bytes tr = n" "tpt_alpha tr = 3 / 10"
    and "0 < tpt_smoothed_bps tr" and "\<And>j. T j + 10000000 \<le> T (Suc j)"
  shows "\<exists>tr'. map_of (pt_trackers (ticks T io S k pt)) i = Some tr' \<and> tpt_last_sample tr' = Some (T k)
    \<and> tpt_last_bytes tr' = n \<and> tpt_alpha tr' = 3 / 10 \<and> tpt_smoothed_bps tr' = tpt_smoothed_bps tr * (7 / 10) ^ k
    \<and> (0 < k \<longrightarrow> of_nat (unat (whole - n)) < tpt_smoothed_bps tr * (7 / 10) ^ k * 2 ^ 64)"
  using assms(1)
proof (induction k)
  case (Suc k)
  have unfold: "ticks T io S (Suc k) pt = progress_tick (T (Suc k)) (io k) (S k) (ticks T io S k pt)" by (simp add: ticks_def)
  have alive: "pt_alive (progress_tick (T (Suc k)) (io k) (S k) (ticks T io S k pt))" using Suc.prems unfold by simp
  then have "pt_alive (ticks T io S k pt)" by (cases "pt_alive (ticks T io S k pt)") (simp_all add: progress_tick_dead)
  from Suc.IH [OF this] obtain tr' where tr': "map_of (pt_trackers (ticks T io S k pt)) i = Some tr'"
    "tpt_last_sample tr' = Some (T k)" "tpt_last_bytes tr' = n" "tpt_alpha tr' = 3 / 10"
    "tpt_smoothed_bps tr' = tpt_smoothed_bps tr * (7 / 10) ^ k" by blast
  have "0 < tpt_smoothed_bps tr * (7 / 10) ^ k" using assms(9) by simp
  from stalled_tick [OF alive assms(2-4) tr' this assms(10)] show ?case by (simp add: unfold mult_ac)
qed (use assms in \<open>simp add: ticks_def\<close>)

text \<open>C37: the ticker does not survive a stalled transfer. When a transfer of known size has
  been moving and then makes no progress, the smoothed rate decays with every wake-up, and
  after finitely many of them the remaining time no longer fits a duration: computing it
  panics, and no progress of any task is published any more, whatever the ticker would
  see later.\<close>

theorem stalled_transfer_stops_ticker:
  assumes "\<And>j. stalled_at (io j) (S j) i n whole" and "n \<noteq> 0" "n < whole"
    and "map_of (pt_trackers pt) i = Some tr" "tpt_last_sample tr = Some (T 0)" "tpt_last_bytes tr = n" "tpt_alpha tr = 3 / 10"
    and "0 < tpt_smoothed_bps tr" and "\<And>j. T j + 10000000 \<le> T (Suc j)"
  shows "\<exists>k. \<not> pt_alive (ticks T io S k pt)
    \<and> (\<forall>seen. fold (\<lambda>(now, io, s). progress_tick now io s) seen (ticks T io S k pt) = ticks T io S k pt)"
proof -
  let ?r = "tpt_smoothed_bps tr"
  have "0 < unat (whole - n)" using assms(3) by (simp add: unat_gt_0)
  then obtain k where k: "?r * 2 ^ 64 * (7 / 10) ^ k \<le> of_nat (unat (whole - n))"
    using decay [of "?r * 2 ^ 64" "of_nat (unat (whole - n))"] assms(8) by (auto simp del: of_nat_unat)
  have "?r * 2 ^ 64 * (7 / 10) ^ Suc k \<le> ?r * 2 ^ 64 * (7 / 10) ^ k" using assms(8) by (simp add: mult_left_mono)
  with k have "\<not> of_nat (unat (whole - n)) < ?r * (7 / 10) ^ Suc k * 2 ^ 64" by (simp add: mult_ac)
  then have dead: "\<not> pt_alive (ticks T io S (Suc k) pt)"
    using stalled_ticks [of T io S "Suc k" pt i n whole tr, OF _ assms] by blast
  have "fold (\<lambda>(now, io, s). progress_tick now io s) seen p = p" if "\<not> pt_alive p" for seen p
    by (induction seen) (simp_all add: that progress_tick_dead split: prod.split)
  with dead show ?thesis by blast
qed

text \<open>A transfer of a million bytes that stops after the first hundred.\<close>

definition transfer_scheduler :: scheduler where
  "transfer_scheduler = example_scheduler\<lparr>s_active := [(1, \<lparr>at_record = sample_row 1 ''a'' Running, at_token = 0,
     at_reported_progress = None, at_reported_at = None, at_started_at = 0\<rparr>)], s_executions := [], s_next_token := 1\<rparr>"

definition moved :: "64 word \<Rightarrow> nat \<Rightarrow> io_tracker" where
  "moved n tok = report_bytes n 1000000 tracker_new"

definition moving_ticker :: progress_ticker where
  "moving_ticker = run_progress_ticker [(0, moved 50, transfer_scheduler), (100000000, moved 100, transfer_scheduler)]"

lemma transfer_stalled: "stalled_at (moved 100) transfer_scheduler 1 100 1000000"
  by (simp add: stalled_at_def executions_ok_def active_ok_def transfer_scheduler_def sample_row_def moved_def report_bytes_def
      set_total_def set_progress_def tracker_new_def progress_snapshot_def)

lemma transfer_snapshots:
  "byte_progress_snapshots (moved n) None transfer_scheduler = [\<lparr>bs_task_id = 1, bs_task_type = t_task_type (sample_row 1 ''a'' Running),
     bs_key = t_key (sample_row 1 ''a'' Running), bs_label = t_label (sample_row 1 ''a'' Running), bs_completed = n,
     bs_total = Some 1000000, bs_parent_id = None, bs_started_at = 0\<rparr>]"
  by (simp add: byte_progress_snapshots_def transfer_scheduler_def byte_snapshot_of_def moved_def report_bytes_def set_total_def
      set_progress_def tracker_new_def progress_snapshot_def sample_row_def)

lemma moving_tracker:
  "pt_alive moving_ticker \<and> map_of (pt_trackers moving_ticker) 1 = Some \<lparr>tpt_last_bytes = 100, tpt_last_sample = Some 100000000,
     tpt_smoothed_bps = 500, tpt_alpha = 3 / 10\<rparr>"
  by (simp add: moving_ticker_def run_progress_ticker_def progress_tick_def transfer_snapshots tick_task_def Let_def ticker_new_def
      tracker_for_def throughput_new_def sample_def as_millis_def instantaneous_bps_def progress_eta_def from_secs_f64_def
      round_half_even_def)

theorem stalled_transfer_stops_ticker_witness:
  "pt_alive moving_ticker
   \<and> (\<exists>k. \<not> pt_alive (ticks (\<lambda>j. 100000000 * (int j + 1)) (\<lambda>_. moved 100) (\<lambda>_. transfer_scheduler) k moving_ticker))"
proof
  show "pt_alive moving_ticker" using moving_tracker by blast
  show "\<exists>k. \<not> pt_alive (ticks (\<lambda>j. 100000000 * (int j + 1)) (\<lambda>_. moved 100) (\<lambda>_. transfer_scheduler) k moving_ticker)"
    using stalled_transfer_stops_ticker [of "\<lambda>_. moved 100" "\<lambda>_. transfer_scheduler" 1 100 1000000 moving_ticker
        "\<lparr>tpt_last_bytes = 100, tpt_last_sample = Some 100000000, tpt_smoothed_bps = 500, tpt_alpha = 3 / 10\<rparr>"
        "\<lambda>j. 100000000 * (int j + 1)"] transfer_stalled moving_tracker
    by auto
qed

section \<open>What the dashboards count\<close>

text \<open>Every task of the store is counted under exactly one status.\<close>

lemma counts_partition:
  "pending_count d + running_count d + paused_count d + waiting_count d + blocked_count d = length (tasks d)"
proof -
  have "sql_count (\<lambda>r. t_status r = Pending) rs + sql_count (\<lambda>r. t_status r = Running) rs + sql_count (\<lambda>r. t_status r = Paused) rs
      + sql_count (\<lambda>r. t_status r = Waiting) rs + sql_count (\<lambda>r. t_status r = Blocked) rs = length rs" for rs
  proof (induction rs)
    case (Cons r rs)
    then show ?case by (cases "t_status r") (simp_all add: sql_count_def)
  qed (simp add: sql_count_def)
  then show ?thesis by (simp add: pending_count_def running_count_def paused_count_def waiting_count_def blocked_count_def)
qed

text \<open>A snapshot changes nothing but the levels of the token buckets.\<close>

lemma snapshot_refills:
  "fst (sched_snapshot null_real representable now tick io s)
   = s\<lparr>s_type_rate_limits := refill_all tick (s_type_rate_limits s), s_group_rate_limits := refill_all tick (s_group_rate_limits s)\<rparr>"
  by (simp add: sched_snapshot_def snapshot_info_def Let_def)

text \<open>The snapshot of a module shows the tasks of the scheduler's snapshot that carry its prefix.\<close>

lemma module_snapshot_part:
  "set (mss_running (module_take_snapshot null_real now tick io h s))
     = {r \<in> set (ss_running (snd (sched_snapshot null_real representable now tick io s))). starts_with (mh_prefix h) (t_task_type r)}"
  by (auto simp: module_take_snapshot_def sched_snapshot_def snapshot_info_def Let_def active_records_def)

text \<open>The slots of a group in the snapshot are not the ones it was allocated.\<close>

lemma snapshot_slots_zero: "a \<in> set (group_allocations now s) \<Longrightarrow> gai_allocated_slots a = 0"
  by (auto simp: group_allocations_def split: if_splits)

end
